(* ===== verification/Notif_Prelude.thy ===== *)
theory Notif_Prelude
  imports Main
begin

text \<open>
  What every component shares: Python exceptions as values, the coroutine type (state in,
  outcome and state out) with its combinators and their reasoning rules, JSON values, and the
  string functions of the standard library that the source calls: \<open>str.lower\<close>,
  \<open>str.upper\<close>, \<open>str(n)\<close> and \<open>int(s)\<close>. Strings are ASCII here, one
  \<open>char\<close> per character.
\<close>

section \<open>Exceptions and coroutines\<close>

text \<open>
  The exception classes the code raises, catches or maps to a response. A
  \<open>JSONDecodeError\<close> is also a \<open>ValueError\<close> in Python, which \<open>is_value_error\<close>
  records; \<open>OtherException\<close> stands for every other subclass of \<open>Exception\<close>.
\<close>

datatype py_exn =
    JSONDecodeError
  | ValueError
  | KeyError
  | TypeError
  | AttributeError
  | IntegrityError
  | ConnectionError
  | TimeoutError
  | OtherException

definition is_value_error :: "py_exn \<Rightarrow> bool" where
  "is_value_error e \<longleftrightarrow> e = ValueError \<or> e = JSONDecodeError"

text \<open>
  An \<open>async def\<close> is a function from the state it runs on to its outcome (\<open>Inl\<close> the
  exception it raised, \<open>Inr\<close> the value it returned) and the state it leaves behind: a
  raise does not undo the effects that came before it.
\<close>

type_synonym ('s, 'a) io = "'s \<Rightarrow> (py_exn + 'a) \<times> 's"

definition io_return :: "'a \<Rightarrow> ('s, 'a) io" where
  "io_return x = (\<lambda>s. (Inr x, s))"

definition io_raise :: "py_exn \<Rightarrow> ('s, 'a) io" where
  "io_raise e = (\<lambda>s. (Inl e, s))"

definition io_of :: "py_exn + 'a \<Rightarrow> ('s, 'a) io" where
  "io_of r = (\<lambda>s. (r, s))"

text \<open>Reading and assigning attributes of \<open>self\<close>.\<close>

definition io_gets :: "('s \<Rightarrow> 'a) \<Rightarrow> ('s, 'a) io" where
  "io_gets f = (\<lambda>s. (Inr (f s), s))"

definition io_modify :: "('s \<Rightarrow> 's) \<Rightarrow> ('s, unit) io" where
  "io_modify f = (\<lambda>s. (Inr (), f s))"

definition io_bind :: "('s, 'a) io \<Rightarrow> ('a \<Rightarrow> ('s, 'b) io) \<Rightarrow> ('s, 'b) io" where
  "io_bind m f = (\<lambda>s. case m s of (Inl e, t) \<Rightarrow> (Inl e, t) | (Inr x, t) \<Rightarrow> f x t)"

text \<open>\<open>try: m / except: h\<close>, where the handler chooses by the exception.\<close>

definition io_try :: "('s, 'a) io \<Rightarrow> (py_exn \<Rightarrow> ('s, 'a) io) \<Rightarrow> ('s, 'a) io" where
  "io_try m h = (\<lambda>s. case m s of (Inl e, t) \<Rightarrow> h e t | (Inr x, t) \<Rightarrow> (Inr x, t))"

text \<open>
  \<open>async with r: m\<close>: \<open>fin\<close>, the exit of the context manager, runs however \<open>m\<close> ends,
  and its own exception replaces the outcome of \<open>m\<close>.
\<close>

definition io_finally :: "('s, 'a) io \<Rightarrow> ('s, unit) io \<Rightarrow> ('s, 'a) io" where
  "io_finally m fin = (\<lambda>s. case m s of (r, t) \<Rightarrow>
     (case fin t of (Inl e, u) \<Rightarrow> (Inl e, u) | (Inr _, u) \<Rightarrow> (r, u)))"

text \<open>A \<open>for\<close> loop with an accumulator; a raise in the body leaves the loop.\<close>

fun io_foreach :: "('x \<Rightarrow> 'a \<Rightarrow> ('s, 'a) io) \<Rightarrow> 'x list \<Rightarrow> 'a \<Rightarrow> ('s, 'a) io" where
  "io_foreach f [] acc = io_return acc"
| "io_foreach f (x # xs) acc = io_bind (f x acc) (io_foreach f xs)"

text \<open>Runs a coroutine on one part of a larger state.\<close>

definition io_zoom :: "('s \<Rightarrow> 't) \<Rightarrow> ('t \<Rightarrow> 's \<Rightarrow> 's) \<Rightarrow> ('t, 'a) io \<Rightarrow> ('s, 'a) io" where
  "io_zoom get put m = (\<lambda>s. case m (get s) of (r, t) \<Rightarrow> (r, put t s))"

subsection \<open>Execution rules\<close>

named_theorems io_simps "evaluation of coroutines"

lemma io_return_run [io_simps]: "io_return x s = (Inr x, s)"
  by (simp add: io_return_def)

lemma io_raise_run [io_simps]: "io_raise e s = (Inl e, s)"
  by (simp add: io_raise_def)

lemma io_of_run [io_simps]: "io_of r s = (r, s)"
  by (simp add: io_of_def)

lemma io_of_simps [simp]: "io_of (Inr x) = io_return x" "io_of (Inl e) = io_raise e"
  by (simp_all add: io_of_def io_return_def io_raise_def)

lemma io_gets_run [io_simps]: "io_gets f s = (Inr (f s), s)"
  by (simp add: io_gets_def)

lemma io_modify_run [io_simps]: "io_modify f s = (Inr (), f s)"
  by (simp add: io_modify_def)

lemma io_bind_Inr [io_simps]: "m s = (Inr x, t) \<Longrightarrow> io_bind m f s = f x t"
  by (simp add: io_bind_def)

lemma io_bind_Inl [io_simps]: "m s = (Inl e, t) \<Longrightarrow> io_bind m f s = (Inl e, t)"
  by (simp add: io_bind_def)

lemma io_try_Inr [io_simps]: "m s = (Inr x, t) \<Longrightarrow> io_try m h s = (Inr x, t)"
  by (simp add: io_try_def)

lemma io_try_Inl [io_simps]: "m s = (Inl e, t) \<Longrightarrow> io_try m h s = h e t"
  by (simp add: io_try_def)

lemma io_finally_Inr [io_simps]: "m s = (r, t) \<Longrightarrow> fin t = (Inr u, v) \<Longrightarrow> io_finally m fin s = (r, v)"
  by (simp add: io_finally_def)

lemma io_finally_Inl [io_simps]:
  "m s = (r, t) \<Longrightarrow> fin t = (Inl e, v) \<Longrightarrow> io_finally m fin s = (Inl e, v)"
  by (simp add: io_finally_def)

lemma io_zoom_run [io_simps]: "m (get s) = (r, t) \<Longrightarrow> io_zoom get put m s = (r, put t s)"
  by (simp add: io_zoom_def)

text \<open>Inversion: what a compound coroutine did, read off its outcome.\<close>

lemma io_bind_cases:
  assumes "io_bind m f s = (r, u)"
  obtains (raised) e where "m s = (Inl e, u)" "r = Inl e"
    | (returned) x t where "m s = (Inr x, t)" "f x t = (r, u)"
proof (cases "m s")
  case (Pair q t)
  with assms that show ?thesis
    by (cases q) (auto simp: io_bind_def)
qed

lemma io_bind_InrE:
  assumes "io_bind m f s = (Inr y, u)"
  obtains x t where "m s = (Inr x, t)" "f x t = (Inr y, u)"
  using assms by (rule io_bind_cases) auto

lemma io_try_cases:
  assumes "io_try m h s = (r, u)"
  obtains (caught) e t where "m s = (Inl e, t)" "h e t = (r, u)"
    | (returned) x where "m s = (Inr x, u)" "r = Inr x"
proof (cases "m s")
  case (Pair q t)
  with assms that show ?thesis
    by (cases q) (auto simp: io_try_def)
qed

lemma io_zoom_cases:
  assumes "io_zoom get put m s = (r, u)"
  obtains t where "m (get s) = (r, t)" "u = put t s"
  using assms by (auto simp: io_zoom_def split: prod.splits)

lemma io_bind_assoc: "io_bind (io_bind m f) g = io_bind m (\<lambda>x. io_bind (f x) g)"
  by (rule ext) (auto simp: io_bind_def split: prod.splits sum.splits)

lemma io_return_bind [simp]: "io_bind (io_return x) f = f x"
  by (rule ext) (simp add: io_bind_def io_return_def)

lemma io_bind_return [simp]: "io_bind m io_return = m"
  by (rule ext) (auto simp: io_bind_def io_return_def split: prod.splits sum.splits)

lemma io_foreach_append:
  "io_foreach f (xs @ ys) acc = io_bind (io_foreach f xs acc) (io_foreach f ys)"
proof (induction xs arbitrary: acc)
  case (Cons x xs)
  then have "io_foreach f (xs @ ys) = (\<lambda>a. io_bind (io_foreach f xs a) (io_foreach f ys))"
    by (rule ext)
  then show ?case by (simp add: io_bind_assoc)
qed simp

subsection \<open>What a coroutine does to the state, whatever its outcome\<close>

text \<open>
  \<open>evolves R m\<close>: every run of \<open>m\<close> takes the state along \<open>R\<close>, on the branches that
  raise too. With a preorder for \<open>R\<close> (a frame condition, a growing set, the preservation
  of an invariant) the combinators compose it, which the locale proves once for all of them.
\<close>

definition evolves :: "('s \<Rightarrow> 's \<Rightarrow> bool) \<Rightarrow> ('s, 'a) io \<Rightarrow> bool" where
  "evolves R m \<longleftrightarrow> (\<forall>s. R s (snd (m s)))"

lemma evolvesI: "(\<And>s r t. m s = (r, t) \<Longrightarrow> R s t) \<Longrightarrow> evolves R m"
  unfolding evolves_def by (metis prod.collapse)

lemma evolvesD: "evolves R m \<Longrightarrow> m s = (r, t) \<Longrightarrow> R s t"
  unfolding evolves_def by (metis snd_conv)

named_theorems evolve_intros "how coroutines move the state"

lemma evolves_case_option [evolve_intros]:
  "(x = None \<Longrightarrow> evolves R a) \<Longrightarrow> (\<And>y. x = Some y \<Longrightarrow> evolves R (f y)) \<Longrightarrow>
   evolves R (case x of None \<Rightarrow> a | Some y \<Rightarrow> f y)"
  by (cases x) auto

lemma evolves_if [evolve_intros]:
  "(b \<Longrightarrow> evolves R m) \<Longrightarrow> (\<not> b \<Longrightarrow> evolves R n) \<Longrightarrow> evolves R (if b then m else n)"
  by simp

lemma evolves_let [evolve_intros]: "evolves R (f x) \<Longrightarrow> evolves R (let y = x in f y)"
  by simp

locale io_preorder =
  fixes R :: "'s \<Rightarrow> 's \<Rightarrow> bool"
  assumes reflexive: "R s s"
    and transitive: "R s t \<Longrightarrow> R t u \<Longrightarrow> R s u"
begin

lemma evolves_return [evolve_intros]: "evolves R (io_return x)"
  by (simp add: evolves_def io_return_def reflexive)

lemma evolves_raise [evolve_intros]: "evolves R (io_raise e)"
  by (simp add: evolves_def io_raise_def reflexive)

lemma evolves_of [evolve_intros]: "evolves R (io_of r)"
  by (simp add: evolves_def io_of_def reflexive)

lemma evolves_gets [evolve_intros]: "evolves R (io_gets f)"
  by (simp add: evolves_def io_gets_def reflexive)

lemma evolves_modify [evolve_intros]: "(\<And>s. R s (f s)) \<Longrightarrow> evolves R (io_modify f)"
  by (simp add: evolves_def io_modify_def)

lemma evolves_bind [evolve_intros]:
  assumes "evolves R m" and "\<And>x. evolves R (f x)"
  shows "evolves R (io_bind m f)"
proof (rule evolvesI)
  fix s r u
  assume "io_bind m f s = (r, u)"
  then show "R s u"
    by (cases rule: io_bind_cases) (use assms in \<open>blast dest: evolvesD intro: transitive\<close>)+
qed

lemma evolves_try [evolve_intros]:
  assumes "evolves R m" and "\<And>e. evolves R (h e)"
  shows "evolves R (io_try m h)"
proof (rule evolvesI)
  fix s r u
  assume "io_try m h s = (r, u)"
  then show "R s u"
    by (cases rule: io_try_cases) (use assms in \<open>blast dest: evolvesD intro: transitive\<close>)+
qed

lemma evolves_finally [evolve_intros]:
  assumes "evolves R m" and "evolves R fin"
  shows "evolves R (io_finally m fin)"
proof (rule evolvesI)
  fix s r u
  assume run: "io_finally m fin s = (r, u)"
  obtain q t where m: "m s = (q, t)" by (cases "m s")
  obtain q' u' where fin: "fin t = (q', u')" by (cases "fin t")
  from run m fin have "u = u'" by (auto simp: io_finally_def split: sum.splits)
  with evolvesD [OF assms(1) m] evolvesD [OF assms(2) fin] show "R s u"
    by (blast intro: transitive)
qed

lemma evolves_foreach [evolve_intros]:
  assumes "\<And>x acc. x \<in> set xs \<Longrightarrow> evolves R (f x acc)"
  shows "evolves R (io_foreach f xs acc)"
  using assms by (induction xs arbitrary: acc) (auto intro: evolves_return evolves_bind)

end

text \<open>Keeping a predicate is such a preorder.\<close>

definition keeping :: "('s \<Rightarrow> bool) \<Rightarrow> 's \<Rightarrow> 's \<Rightarrow> bool" where
  "keeping I s t \<longleftrightarrow> (I s \<longrightarrow> I t)"

interpretation kept: io_preorder "keeping I" for I
  by unfold_locales (auto simp: keeping_def)

text \<open>So is leaving a part of the state as it was.\<close>

definition same :: "('s \<Rightarrow> 'v) \<Rightarrow> 's \<Rightarrow> 's \<Rightarrow> bool" where
  "same v s t \<longleftrightarrow> v t = v s"

interpretation unchanged: io_preorder "same v" for v
  by unfold_locales (auto simp: same_def)

lemma evolves_same_io_simps: "evolves (same v) m \<Longrightarrow> m s = (r, t) \<Longrightarrow> v t = v s"
  by (drule evolvesD) (simp_all add: same_def)

lemma evolves_zoom:
  "evolves R m \<Longrightarrow> (\<And>s t. R (get s) t \<Longrightarrow> Q s (put t s)) \<Longrightarrow> evolves Q (io_zoom get put m)"
  by (auto simp: evolves_def io_zoom_def split: prod.splits) (metis snd_conv)

section \<open>Lists\<close>

lemma find_unique:
  "x \<in> set xs \<Longrightarrow> P x \<Longrightarrow> (\<And>y. y \<in> set xs \<Longrightarrow> P y \<Longrightarrow> y = x) \<Longrightarrow> find P xs = Some x"
proof (induction xs)
  case (Cons a xs)
  show ?case
  proof (cases "P a")
    case True
    then have "a = x" by (rule Cons.prems(3) [of a, rotated]) simp
    with True show ?thesis by simp
  next
    case False
    then have "find P xs = Some x"
      by (intro Cons.IH) (use Cons.prems in \<open>(metis set_ConsD list.set_intros(2))+\<close>)
    with False show ?thesis by simp
  qed
qed simp

lemma find_SomeD: "find P xs = Some x \<Longrightarrow> x \<in> set xs \<and> P x"
  by (auto simp: find_Some_iff)

section \<open>JSON values\<close>

text \<open>
  What \<open>json.loads\<close> returns and a JSONB column holds. A Python dict is an association
  list in insertion order with distinct keys.
\<close>

datatype json =
    JNull
  | JBool bool
  | JInt int
  | JStr string
  | JArr "json list"
  | JObj "(string \<times> json) list"

section \<open>Strings and numbers of the standard library\<close>

definition ascii_cases :: "(char \<times> char) list" where
  "ascii_cases = zip ''ABCDEFGHIJKLMNOPQRSTUVWXYZ'' ''abcdefghijklmnopqrstuvwxyz''"

definition char_lower :: "char \<Rightarrow> char" where
  "char_lower c = (case map_of ascii_cases c of None \<Rightarrow> c | Some d \<Rightarrow> d)"

definition char_upper :: "char \<Rightarrow> char" where
  "char_upper c = (case map_of (map prod.swap ascii_cases) c of None \<Rightarrow> c | Some d \<Rightarrow> d)"

definition str_lower :: "string \<Rightarrow> string" where
  "str_lower s = map char_lower s"

definition str_upper :: "string \<Rightarrow> string" where
  "str_upper s = map char_upper s"

text \<open>\<open>str(n)\<close> for an integer.\<close>

definition digit_char :: "nat \<Rightarrow> char" where
  "digit_char d = char_of (48 + d)"

fun digits_of :: "nat \<Rightarrow> string" where
  "digits_of n = (if n < 10 then [digit_char n] else digits_of (n div 10) @ [digit_char (n mod 10)])"

declare digits_of.simps [simp del]

definition str_of_int :: "int \<Rightarrow> string" where
  "str_of_int n = (if n < 0 then CHR ''-'' # digits_of (nat (- n)) else digits_of (nat n))"

text \<open>
  \<open>int(s)\<close>: surrounding whitespace, an optional sign, digits with single underscores
  between them; \<open>None\<close> is the \<open>ValueError\<close>. The flag of \<open>parse_digits\<close> says
  whether the character before was a digit.
\<close>

definition is_digit :: "char \<Rightarrow> bool" where
  "is_digit c \<longleftrightarrow> (let n = (of_char c :: nat) in 48 \<le> n \<and> n \<le> 57)"

definition digit_value :: "char \<Rightarrow> nat" where
  "digit_value c = of_char c - 48"

definition is_space :: "char \<Rightarrow> bool" where
  "is_space c \<longleftrightarrow> (let n = (of_char c :: nat) in (9 \<le> n \<and> n \<le> 13) \<or> n = 32)"

fun parse_digits :: "nat \<Rightarrow> bool \<Rightarrow> string \<Rightarrow> nat option" where
  "parse_digits a ok [] = (if ok then Some a else None)"
| "parse_digits a ok (c # cs) =
     (if is_digit c then parse_digits (10 * a + digit_value c) True cs
      else if c = CHR ''_'' \<and> ok then parse_digits a False cs
      else None)"

definition str_strip :: "string \<Rightarrow> string" where
  "str_strip s = rev (dropWhile is_space (rev (dropWhile is_space s)))"

definition int_of_str :: "string \<Rightarrow> int option" where
  "int_of_str s =
     (case str_strip s of
        [] \<Rightarrow> None
      | c # cs \<Rightarrow>
          if c = CHR ''-'' then map_option (\<lambda>n. - int n) (parse_digits 0 False cs)
          else if c = CHR ''+'' then map_option int (parse_digits 0 False cs)
          else map_option int (parse_digits 0 False (c # cs)))"

subsection \<open>\<open>int(str(n)) = n\<close>\<close>

lemma digit_char_of: "d < 10 \<Longrightarrow> (of_char (digit_char d) :: nat) = 48 + d"
  by (simp add: digit_char_def of_char_of take_bit_eq_mod)

lemma digit_char_facts [simp]:
  assumes "d < 10"
  shows "is_digit (digit_char d)" and "digit_value (digit_char d) = d"
    and "\<not> is_space (digit_char d)"
    and "digit_char d \<noteq> CHR ''-''" and "digit_char d \<noteq> CHR ''+''"
proof -
  have of: "(of_char (digit_char d) :: nat) = 48 + d"
    using assms by (rule digit_char_of)
  show "is_digit (digit_char d)" "digit_value (digit_char d) = d" "\<not> is_space (digit_char d)"
    using assms by (simp_all add: is_digit_def digit_value_def is_space_def of)
  have ne: "digit_char d \<noteq> c" if "(of_char c :: nat) < 48" for c
    using that of by auto
  have "(of_char (CHR ''-'') :: nat) < 48" and "(of_char (CHR ''+'') :: nat) < 48"
    by code_simp+
  then show "digit_char d \<noteq> CHR ''-''" "digit_char d \<noteq> CHR ''+''"
    by (simp_all add: ne)
qed

lemma digits_of_all: "\<forall>c \<in> set (digits_of n). \<exists>d < 10. c = digit_char d"
proof (induction n rule: digits_of.induct)
  case (1 n)
  have "n mod 10 < 10" by simp
  with "1" show ?case
    by (subst digits_of.simps) (auto intro: exI [of _ "n mod 10"])
qed

lemma digits_of_not_Nil [simp]: "digits_of n \<noteq> []"
  by (subst digits_of.simps) simp

lemma parse_digits_of:
  "parse_digits a ok (digits_of n @ cs) =
   parse_digits (a * 10 ^ length (digits_of n) + n) True cs"
proof (induction n arbitrary: a ok cs rule: digits_of.induct)
  case (1 n)
  show ?case
  proof (cases "n < 10")
    case True
    then show ?thesis by (simp add: digits_of.simps [of n] mult.commute)
  next
    case False
    have "10 * (a * 10 ^ k + n div 10) + n mod 10 = a * (10 * 10 ^ k) + n" for k :: nat
      by (simp add: algebra_simps)
    with False show ?thesis
      by (simp add: digits_of.simps [of n] "1.IH" ac_simps)
  qed
qed

lemma str_strip_id:
  assumes "s \<noteq> []" and "\<not> is_space (hd s)" and "\<not> is_space (last s)"
  shows "str_strip s = s"
proof -
  have "dropWhile is_space s = s"
    using assms by (cases s) auto
  moreover have "dropWhile is_space (rev s) = rev s"
    using assms by (cases "rev s") (auto simp: hd_rev [symmetric])
  ultimately show ?thesis by (simp add: str_strip_def)
qed

lemma digits_of_strip [simp]: "str_strip (digits_of n) = digits_of n"
proof (rule str_strip_id)
  have "\<not> is_space c" if "c \<in> set (digits_of n)" for c
    using that digits_of_all [of n] by auto
  then show "\<not> is_space (hd (digits_of n))" "\<not> is_space (last (digits_of n))"
    by simp_all
qed simp

lemma str_of_int_strip: "str_strip (str_of_int n) = str_of_int n"
proof (cases "n < 0")
  case True
  have minus: "\<not> is_space (CHR ''-'')" by code_simp
  have "\<not> is_space (last (digits_of (nat (- n))))"
    using digits_of_all [of "nat (- n)"] by (metis digit_char_facts(3) digits_of_not_Nil last_in_set)
  with True minus show ?thesis
    by (simp add: str_of_int_def str_strip_id)
qed (simp add: str_of_int_def)

lemma int_of_str_digits: "int_of_str (digits_of n) = Some (int n)"
proof -
  obtain c cs where eq: "digits_of n = c # cs"
    by (cases "digits_of n") auto
  with digits_of_all [of n] have "c \<noteq> CHR ''-''" "c \<noteq> CHR ''+''" by auto
  moreover have "parse_digits 0 False (c # cs) = Some n"
    using parse_digits_of [of 0 False n "[]"] eq by simp
  ultimately show ?thesis
    using digits_of_strip [of n] eq by (simp add: int_of_str_def del: parse_digits.simps(2))
qed

lemma int_of_str_of_int [simp]: "int_of_str (str_of_int n) = Some n"
proof (cases "n < 0")
  case True
  then have "str_strip (CHR ''-'' # digits_of (nat (- n))) = CHR ''-'' # digits_of (nat (- n))"
    using str_of_int_strip [of n] by (simp add: str_of_int_def)
  with True show ?thesis
    using parse_digits_of [of 0 False "nat (- n)" "[]"]
    by (simp add: str_of_int_def int_of_str_def)
next
  case False
  then show ?thesis by (simp add: str_of_int_def int_of_str_digits)
qed

lemma str_of_int_inj [simp]: "str_of_int m = str_of_int n \<longleftrightarrow> m = n"
  by (metis int_of_str_of_int option.inject)

end
