(* ===== verification/Notification_Model.thy ===== *)
theory Notification_Model
  imports Notif_Prelude
begin

text \<open>
  \<open>app/models/notification.py\<close>: the integer-backed enums, the set of retryable error
  codes, the ORM row and the column constraints the code declares for it. The look-ups that
  Python's enum classes provide, \<open>C(value)\<close> and \<open>C[name]\<close>, are written once for a
  member list with its names and values, and the locale \<open>int_enum\<close> holds what every
  client of an enum relies on; it is interpreted on all six enums.
\<close>

section \<open>Integer-backed enums\<close>

text \<open>\<open>C(v)\<close> raises a \<open>ValueError\<close>, \<open>C[s]\<close> a \<open>KeyError\<close>.\<close>

definition enum_of_value :: "'e list \<Rightarrow> ('e \<Rightarrow> int) \<Rightarrow> int \<Rightarrow> py_exn + 'e" where
  "enum_of_value ms val v =
     (case find (\<lambda>x. val x = v) ms of None \<Rightarrow> Inl ValueError | Some x \<Rightarrow> Inr x)"

definition enum_of_name :: "'e list \<Rightarrow> ('e \<Rightarrow> string) \<Rightarrow> string \<Rightarrow> py_exn + 'e" where
  "enum_of_name ms nm s =
     (case find (\<lambda>x. nm x = s) ms of None \<Rightarrow> Inl KeyError | Some x \<Rightarrow> Inr x)"

text \<open>The set \<open>{x.name.lower() for x in C}\<close> the validators test against.\<close>

definition lower_names :: "'e list \<Rightarrow> ('e \<Rightarrow> string) \<Rightarrow> string set" where
  "lower_names ms nm = set (map (\<lambda>x. str_lower (nm x)) ms)"

locale int_enum =
  fixes members :: "'e list" and nm :: "'e \<Rightarrow> string" and val :: "'e \<Rightarrow> int"
  assumes all_members: "x \<in> set members"
    and distinct_values: "distinct (map val members)"
    and distinct_names: "distinct (map nm members)"
    and upper_lower_names: "map (\<lambda>x. str_upper (str_lower (nm x))) members = map nm members"
begin

lemma upper_names [simp]: "str_upper (str_lower (nm x)) = nm x"
  using upper_lower_names all_members [of x] by simp

lemma value_inject: "val x = val y \<longleftrightarrow> x = y"
  using distinct_values all_members [of x] all_members [of y]
  by (auto simp: distinct_map inj_on_def)

lemma name_inject: "nm x = nm y \<longleftrightarrow> x = y"
  using distinct_names all_members [of x] all_members [of y]
  by (auto simp: distinct_map inj_on_def)

lemma lower_name_inject: "str_lower (nm x) = str_lower (nm y) \<longleftrightarrow> x = y"
  by (metis name_inject upper_names)

lemma of_value_iff: "enum_of_value members val v = Inr x \<longleftrightarrow> v = val x"
proof -
  have "find (\<lambda>x. val x = val y) members = Some y" for y
    using all_members [of y] by (rule find_unique) (simp_all add: value_inject)
  then show ?thesis
    by (auto simp: enum_of_value_def dest: find_SomeD split: option.splits)
qed

lemma of_value [simp]: "enum_of_value members val (val x) = Inr x"
  by (simp add: of_value_iff)

lemma of_value_error: "enum_of_value members val v = Inl e \<longleftrightarrow> e = ValueError \<and> v \<notin> range val"
  using all_members
  by (auto simp: enum_of_value_def find_None_iff find_Some_iff split: option.splits)

lemma of_name_iff: "enum_of_name members nm s = Inr x \<longleftrightarrow> s = nm x"
proof -
  have "find (\<lambda>x. nm x = nm y) members = Some y" for y
    using all_members [of y] by (rule find_unique) (simp_all add: name_inject)
  then show ?thesis
    by (auto simp: enum_of_name_def dest: find_SomeD split: option.splits)
qed

lemma of_name [simp]: "enum_of_name members nm (nm x) = Inr x"
  by (simp add: of_name_iff)

lemma of_name_error: "enum_of_name members nm s = Inl e \<longleftrightarrow> e = KeyError \<and> s \<notin> range nm"
  using all_members
  by (auto simp: enum_of_name_def find_None_iff find_Some_iff split: option.splits)

lemma mem_lower_names: "s \<in> lower_names members nm \<longleftrightarrow> (\<exists>x. s = str_lower (nm x))"
  using all_members by (auto simp: lower_names_def)

text \<open>A validated label is a member's name again once it is put in upper case.\<close>

lemma of_upper_lower_name [simp]: "enum_of_name members nm (str_upper (str_lower (nm x))) = Inr x"
  by simp

lemma of_upper_name:
  "s \<in> lower_names members nm \<Longrightarrow>
   \<exists>x. s = str_lower (nm x) \<and> enum_of_name members nm (str_upper s) = Inr x"
  by (auto simp: mem_lower_names)

end

subsection \<open>The six enums\<close>

datatype notification_status = PENDING | QUEUED | SENT | FAILED | RETRYING

fun status_value :: "notification_status \<Rightarrow> int" where
  "status_value PENDING = 1"
| "status_value QUEUED = 2"
| "status_value SENT = 3"
| "status_value FAILED = 4"
| "status_value RETRYING = 5"

fun status_name :: "notification_status \<Rightarrow> string" where
  "status_name PENDING = ''PENDING''"
| "status_name QUEUED = ''QUEUED''"
| "status_name SENT = ''SENT''"
| "status_name FAILED = ''FAILED''"
| "status_name RETRYING = ''RETRYING''"

definition status_members :: "notification_status list" where
  "status_members = [PENDING, QUEUED, SENT, FAILED, RETRYING]"

datatype notification_channel = EMAIL | SMS | PUSH

fun channel_value :: "notification_channel \<Rightarrow> int" where
  "channel_value EMAIL = 1"
| "channel_value SMS = 2"
| "channel_value PUSH = 3"

fun channel_name :: "notification_channel \<Rightarrow> string" where
  "channel_name EMAIL = ''EMAIL''"
| "channel_name SMS = ''SMS''"
| "channel_name PUSH = ''PUSH''"

definition channel_members :: "notification_channel list" where
  "channel_members = [EMAIL, SMS, PUSH]"

datatype notification_priority = CRITICAL | HIGH | MEDIUM | LOW

fun priority_value :: "notification_priority \<Rightarrow> int" where
  "priority_value CRITICAL = 1"
| "priority_value HIGH = 2"
| "priority_value MEDIUM = 3"
| "priority_value LOW = 4"

fun priority_name :: "notification_priority \<Rightarrow> string" where
  "priority_name CRITICAL = ''CRITICAL''"
| "priority_name HIGH = ''HIGH''"
| "priority_name MEDIUM = ''MEDIUM''"
| "priority_name LOW = ''LOW''"

definition priority_members :: "notification_priority list" where
  "priority_members = [CRITICAL, HIGH, MEDIUM, LOW]"

datatype source_service_t = ORDER | PAYMENT | SHIPPING

fun source_value :: "source_service_t \<Rightarrow> int" where
  "source_value ORDER = 1"
| "source_value PAYMENT = 2"
| "source_value SHIPPING = 3"

fun source_name :: "source_service_t \<Rightarrow> string" where
  "source_name ORDER = ''ORDER''"
| "source_name PAYMENT = ''PAYMENT''"
| "source_name SHIPPING = ''SHIPPING''"

definition source_members :: "source_service_t list" where
  "source_members = [ORDER, PAYMENT, SHIPPING]"

datatype event_type_t =
    ORDER_CREATED
  | ORDER_CANCELLED
  | PAYMENT_CONFIRMED
  | PAYMENT_FAILED
  | PAYMENT_OTP_REQUESTED
  | SHIPMENT_DISPATCHED
  | SHIPMENT_DELIVERED
  | SHIPMENT_DELAYED

fun event_value :: "event_type_t \<Rightarrow> int" where
  "event_value ORDER_CREATED = 1"
| "event_value ORDER_CANCELLED = 2"
| "event_value PAYMENT_CONFIRMED = 3"
| "event_value PAYMENT_FAILED = 4"
| "event_value PAYMENT_OTP_REQUESTED = 5"
| "event_value SHIPMENT_DISPATCHED = 6"
| "event_value SHIPMENT_DELIVERED = 7"
| "event_value SHIPMENT_DELAYED = 8"

fun event_name :: "event_type_t \<Rightarrow> string" where
  "event_name ORDER_CREATED = ''ORDER_CREATED''"
| "event_name ORDER_CANCELLED = ''ORDER_CANCELLED''"
| "event_name PAYMENT_CONFIRMED = ''PAYMENT_CONFIRMED''"
| "event_name PAYMENT_FAILED = ''PAYMENT_FAILED''"
| "event_name PAYMENT_OTP_REQUESTED = ''PAYMENT_OTP_REQUESTED''"
| "event_name SHIPMENT_DISPATCHED = ''SHIPMENT_DISPATCHED''"
| "event_name SHIPMENT_DELIVERED = ''SHIPMENT_DELIVERED''"
| "event_name SHIPMENT_DELAYED = ''SHIPMENT_DELAYED''"

definition event_members :: "event_type_t list" where
  "event_members =
     [ORDER_CREATED, ORDER_CANCELLED, PAYMENT_CONFIRMED, PAYMENT_FAILED,
      PAYMENT_OTP_REQUESTED, SHIPMENT_DISPATCHED, SHIPMENT_DELIVERED, SHIPMENT_DELAYED]"

datatype notification_error_code =
    TIMEOUT
  | PROVIDER_DOWN
  | RATE_LIMITED
  | INVALID_RECIPIENT
  | INVALID_TOKEN
  | UNKNOWN

fun error_value :: "notification_error_code \<Rightarrow> int" where
  "error_value TIMEOUT = 1"
| "error_value PROVIDER_DOWN = 2"
| "error_value RATE_LIMITED = 3"
| "error_value INVALID_RECIPIENT = 4"
| "error_value INVALID_TOKEN = 5"
| "error_value UNKNOWN = 6"

fun error_name :: "notification_error_code \<Rightarrow> string" where
  "error_name TIMEOUT = ''TIMEOUT''"
| "error_name PROVIDER_DOWN = ''PROVIDER_DOWN''"
| "error_name RATE_LIMITED = ''RATE_LIMITED''"
| "error_name INVALID_RECIPIENT = ''INVALID_RECIPIENT''"
| "error_name INVALID_TOKEN = ''INVALID_TOKEN''"
| "error_name UNKNOWN = ''UNKNOWN''"

definition error_members :: "notification_error_code list" where
  "error_members = [TIMEOUT, PROVIDER_DOWN, RATE_LIMITED, INVALID_RECIPIENT, INVALID_TOKEN, UNKNOWN]"

definition RETRYABLE_ERROR_CODES :: "notification_error_code set" where
  "RETRYABLE_ERROR_CODES = {TIMEOUT, PROVIDER_DOWN, RATE_LIMITED, UNKNOWN}"

lemmas member_defs =
  status_members_def channel_members_def priority_members_def
  source_members_def event_members_def error_members_def

subsection \<open>Every enum meets the contract\<close>

interpretation status_enum: int_enum status_members status_name status_value
proof unfold_locales
  fix x show "x \<in> set status_members" by (cases x) (simp_all add: member_defs)
qed (code_simp)+

interpretation channel_enum: int_enum channel_members channel_name channel_value
proof unfold_locales
  fix x show "x \<in> set channel_members" by (cases x) (simp_all add: member_defs)
qed (code_simp)+

interpretation priority_enum: int_enum priority_members priority_name priority_value
proof unfold_locales
  fix x show "x \<in> set priority_members" by (cases x) (simp_all add: member_defs)
qed (code_simp)+

interpretation source_enum: int_enum source_members source_name source_value
proof unfold_locales
  fix x show "x \<in> set source_members" by (cases x) (simp_all add: member_defs)
qed (code_simp)+

interpretation event_enum: int_enum event_members event_name event_value
proof unfold_locales
  fix x show "x \<in> set event_members" by (cases x) (simp_all add: member_defs)
qed (code_simp)+

interpretation error_enum: int_enum error_members error_name error_value
proof unfold_locales
  fix x show "x \<in> set error_members" by (cases x) (simp_all add: member_defs)
qed (code_simp)+

subsection \<open>Priorities are ordered by their integer value\<close>

text \<open>
  The enums extend \<open>int\<close>, so \<open>CRITICAL < HIGH\<close> holds in Python: the smaller
  number is the more urgent priority.
\<close>

instantiation notification_priority :: linorder
begin

definition less_eq_notification_priority :: "notification_priority \<Rightarrow> notification_priority \<Rightarrow> bool" where
  "less_eq_notification_priority p q \<longleftrightarrow> priority_value p \<le> priority_value q"

definition less_notification_priority :: "notification_priority \<Rightarrow> notification_priority \<Rightarrow> bool" where
  "less_notification_priority p q \<longleftrightarrow> priority_value p < priority_value q"

instance
  by standard
    (auto simp: less_eq_notification_priority_def less_notification_priority_def
      priority_enum.value_inject)

end

lemma priority_value_bounds: "1 \<le> priority_value p \<and> priority_value p \<le> 4"
  by (cases p) auto

lemma retryable_code_iff: "c \<notin> RETRYABLE_ERROR_CODES \<longleftrightarrow> c = INVALID_RECIPIENT \<or> c = INVALID_TOKEN"
  by (cases c) (auto simp: RETRYABLE_ERROR_CODES_def)

section \<open>The notifications table\<close>

text \<open>
  A row of the table, as the ORM object carries it. Timestamps are integers (milliseconds of
  UTC). \<open>content\<close> is the JSONB column.
\<close>

record notification =
  nid :: int
  idempotency_key :: string
  source_service :: int
  event_type :: int
  channel :: int
  recipient :: string
  priority :: int
  status :: int
  error_code :: "int option"
  retry_count :: int
  next_retry_time :: "int option"
  external_id :: "string option"
  content :: json
  ctime :: int
  mtime :: "int option"
  stime :: "int option"

text \<open>
  The keyword arguments \<open>Notification(...)\<close> is called with. The recipient comes from an
  optional field of the request, so it can be absent here and violate \<open>nullable=False\<close>.
\<close>

record notification_args =
  a_idempotency_key :: string
  a_source_service :: int
  a_event_type :: int
  a_channel :: int
  a_recipient :: "string option"
  a_priority :: int
  a_status :: int
  a_content :: json

text \<open>
  The row an INSERT of such an object writes: the given columns, and the declared defaults for
  the others (\<open>retry_count\<close> 0, \<open>ctime\<close> the time of the insert, the nullable ones
  null).
\<close>

definition row_of_args :: "int \<Rightarrow> int \<Rightarrow> string \<Rightarrow> notification_args \<Rightarrow> notification" where
  "row_of_args i now r a =
     \<lparr>nid = i, idempotency_key = a_idempotency_key a, source_service = a_source_service a,
      event_type = a_event_type a, channel = a_channel a, recipient = r,
      priority = a_priority a, status = a_status a, error_code = None, retry_count = 0,
      next_retry_time = None, external_id = None, content = a_content a, ctime = now,
      mtime = None, stime = None\<rparr>"

text \<open>
  What the declared column types can hold: \<open>String(255)\<close>, and \<open>Integer\<close> of 32 bits
  for the counter, the only integer column whose value is not an enum's. No text the database
  stores, in JSONB too, may hold a NUL character.
\<close>

definition text_ok :: "string \<Rightarrow> bool" where
  "text_ok s \<longleftrightarrow> CHR 0x00 \<notin> set s"

fun json_text_ok :: "json \<Rightarrow> bool" where
  "json_text_ok (JStr s) \<longleftrightarrow> text_ok s"
| "json_text_ok (JArr js) \<longleftrightarrow> (\<forall>j \<in> set js. json_text_ok j)"
| "json_text_ok (JObj kvs) \<longleftrightarrow> (\<forall>kv \<in> set kvs. text_ok (fst kv) \<and> json_text_ok (snd kv))"
| "json_text_ok _ \<longleftrightarrow> True"

definition varchar_255 :: "string \<Rightarrow> bool" where
  "varchar_255 s \<longleftrightarrow> length s \<le> 255 \<and> text_ok s"

definition storable :: "notification \<Rightarrow> bool" where
  "storable n \<longleftrightarrow>
     varchar_255 (idempotency_key n) \<and> varchar_255 (recipient n) \<and>
     (case external_id n of None \<Rightarrow> True | Some x \<Rightarrow> varchar_255 x) \<and>
     - (2 ^ 31) \<le> retry_count n \<and> retry_count n < 2 ^ 31 \<and>
     json_text_ok (content n)"

text \<open>\<open>Notification.__repr__\<close>: each enum conversion may raise.\<close>

definition repr_notification :: "notification \<Rightarrow> py_exn + string" where
  "repr_notification n =
     (case enum_of_value channel_members channel_value (channel n) of Inl e \<Rightarrow> Inl e | Inr c \<Rightarrow>
      case enum_of_value status_members status_value (status n) of Inl e \<Rightarrow> Inl e | Inr s \<Rightarrow>
      case enum_of_value priority_members priority_value (priority n) of Inl e \<Rightarrow> Inl e | Inr p \<Rightarrow>
      Inr (''<Notification id='' @ str_of_int (nid n) @
           '' channel='' @ channel_name c @
           '' status='' @ status_name s @
           '' priority='' @ priority_name p @ ''>''))"

text \<open>Every enum column of a row holds the value of a member.\<close>

definition valid_codes :: "notification \<Rightarrow> bool" where
  "valid_codes n \<longleftrightarrow>
     source_service n \<in> range source_value \<and> event_type n \<in> range event_value \<and>
     channel n \<in> range channel_value \<and> priority n \<in> range priority_value \<and>
     status n \<in> range status_value \<and>
     (\<forall>e. error_code n = Some e \<longrightarrow> e \<in> range error_value)"

lemma valid_codesE:
  assumes "valid_codes n"
  obtains s ev c p st where "source_service n = source_value s" "event_type n = event_value ev"
    "channel n = channel_value c" "priority n = priority_value p" "status n = status_value st"
  using assms unfolding valid_codes_def by blast

lemma repr_valid: "valid_codes n \<Longrightarrow> \<exists>s. repr_notification n = Inr s"
  by (auto simp: repr_notification_def elim!: valid_codesE)

end
