(* ===== verification/Services.thy ===== *)
theory Services
  imports Notification_Model Complex_Main
    "HOL-Library.List_Lexorder" "HOL-Library.Char_ord" "HOL-Library.Product_Lexorder"
begin

text \<open>
  What the program runs on and does not define: the clock and random numbers of the host, the
  SQLAlchemy session over PostgreSQL, Redis, and RabbitMQ through aio-pika. PostgreSQL, Redis
  and RabbitMQ are parameters: a record of operations on an opaque state, with observations of
  that state which only statements use. The predicates \<open>pg_laws\<close>, \<open>redis_laws\<close> and
  \<open>amqp_laws\<close> are the documented behaviour the program relies on. They are the hypotheses of
  theorems about operations that reach these services. Any operation may raise; then the command
  may or may not have taken effect. A state is \<^emph>\<open>up\<close> when the service answers.
\<close>

section \<open>The host\<close>

text \<open>
  The successive readings of the clock (microseconds since the epoch), of the random number
  generator and of \<open>uuid4().hex[:8]\<close>, in the order the program takes them; \<open>h_tick\<close>
  counts readings. \<open>h_iso\<close> renders a time as \<open>isoformat()\<close> does.
\<close>

record host =
  h_clock :: "nat \<Rightarrow> int"
  h_random :: "nat \<Rightarrow> nat"
  h_uuid :: "nat \<Rightarrow> string"
  h_iso :: "int \<Rightarrow> string"
  h_tick :: nat

definition host_now :: "(host, int) io" where
  "host_now h = (Inr (h_clock h (h_tick h)), h\<lparr>h_tick := Suc (h_tick h)\<rparr>)"

text \<open>\<open>int(time.time() * 1000)\<close>\<close>

definition host_timestamp_ms :: "(host, int) io" where
  "host_timestamp_ms h = (Inr (h_clock h (h_tick h) div 1000), h\<lparr>h_tick := Suc (h_tick h)\<rparr>)"

text \<open>\<open>random.random()\<close>: a multiple of \<open>2 ^ -53\<close> in \<open>[0, 1)\<close>.\<close>

definition host_random_unit :: "(host, real) io" where
  "host_random_unit h =
     (Inr (real (h_random h (h_tick h) mod 2 ^ 53) / 2 ^ 53), h\<lparr>h_tick := Suc (h_tick h)\<rparr>)"

text \<open>\<open>random.randint(low, high)\<close>, both ends included.\<close>

definition host_randint :: "int \<Rightarrow> int \<Rightarrow> (host, int) io" where
  "host_randint low high h =
     (if high < low then (Inl ValueError, h)
      else (Inr (low + int (h_random h (h_tick h) mod nat (high - low + 1))),
            h\<lparr>h_tick := Suc (h_tick h)\<rparr>))"

definition host_uuid8 :: "(host, string) io" where
  "host_uuid8 h = (Inr (h_uuid h (h_tick h)), h\<lparr>h_tick := Suc (h_tick h)\<rparr>)"

lemma host_randint_range:
  assumes "low \<le> high"
  obtains k h' where "host_randint low high h = (Inr k, h')" "low \<le> k" "k \<le> high"
proof -
  let ?k = "low + int (h_random h (h_tick h) mod nat (high - low + 1))"
  have "h_random h (h_tick h) mod nat (high - low + 1) < nat (high - low + 1)"
    using assms by (intro mod_less_divisor) simp
  then have "?k \<le> high" using assms by linarith
  moreover have "low \<le> ?k" by simp
  ultimately show thesis
    using assms that by (simp add: host_randint_def)
qed

section \<open>The database session\<close>

text \<open>An attribute the code assigns on a loaded object, with its new value.\<close>

datatype attr =
    Status int
  | Retry_count int
  | Error_code "int option"
  | Next_retry_time "int option"
  | External_id "string option"
  | Stime "int option"

fun set_attr :: "attr \<Rightarrow> notification \<Rightarrow> notification" where
  "set_attr (Status v) n = n\<lparr>status := v\<rparr>"
| "set_attr (Retry_count v) n = n\<lparr>retry_count := v\<rparr>"
| "set_attr (Error_code v) n = n\<lparr>error_code := v\<rparr>"
| "set_attr (Next_retry_time v) n = n\<lparr>next_retry_time := v\<rparr>"
| "set_attr (External_id v) n = n\<lparr>external_id := v\<rparr>"
| "set_attr (Stime v) n = n\<lparr>stime := v\<rparr>"

definition set_attrs :: "attr list \<Rightarrow> notification \<Rightarrow> notification" where
  "set_attrs as n = fold set_attr as n"

lemma set_attrs_simps [simp]:
  "set_attrs [] n = n"
  "set_attrs (a # as) n = set_attrs as (set_attr a n)"
  by (simp_all add: set_attrs_def)

text \<open>
  The assignments that change a loaded object, in order: the session writes no column whose value is
  the one it loaded.
\<close>

fun changes :: "notification \<Rightarrow> attr list \<Rightarrow> attr list" where
  "changes n [] = []"
| "changes n (a # as) = (if set_attr a n = n then changes n as else a # changes (set_attr a n) as)"

lemma set_attrs_changes [simp]: "set_attrs (changes n as) n = set_attrs as n"
  by (induction n as rule: changes.induct) simp_all

lemma set_attr_same [simp]:
  "(n\<lparr>status := v\<rparr> = n) = (status n = v)" "(n\<lparr>retry_count := v\<rparr> = n) = (retry_count n = v)"
  "(n\<lparr>error_code := u\<rparr> = n) = (error_code n = u)" "(n\<lparr>next_retry_time := t\<rparr> = n) = (next_retry_time n = t)"
  "(n\<lparr>external_id := x\<rparr> = n) = (external_id n = x)" "(n\<lparr>stime := y\<rparr> = n) = (stime n = y)"
  by (cases n; auto)+

lemma set_attr_fixed [simp]:
  "nid (set_attr a n) = nid n" "idempotency_key (set_attr a n) = idempotency_key n"
  "source_service (set_attr a n) = source_service n" "event_type (set_attr a n) = event_type n"
  "channel (set_attr a n) = channel n" "recipient (set_attr a n) = recipient n"
  "priority (set_attr a n) = priority n" "content (set_attr a n) = content n"
  "ctime (set_attr a n) = ctime n" "mtime (set_attr a n) = mtime n"
  by (cases a; simp)+

lemma set_attrs_fixed [simp]:
  "nid (set_attrs as n) = nid n" "idempotency_key (set_attrs as n) = idempotency_key n"
  "source_service (set_attrs as n) = source_service n" "event_type (set_attrs as n) = event_type n"
  "channel (set_attrs as n) = channel n" "recipient (set_attrs as n) = recipient n"
  "priority (set_attrs as n) = priority n" "content (set_attrs as n) = content n"
  "ctime (set_attrs as n) = ctime n" "mtime (set_attrs as n) = mtime n"
  by (induction as arbitrary: n) simp_all

text \<open>A SELECT as the repository builds it: the conditions, the limit and the offset of a
  query ordered by \<open>ctime\<close>, latest first.\<close>

datatype where_clause =
    Status_is int
  | Channel_is int
  | Source_service_is int
  | Event_type_is int

fun clause_holds :: "where_clause \<Rightarrow> notification \<Rightarrow> bool" where
  "clause_holds (Status_is v) n \<longleftrightarrow> status n = v"
| "clause_holds (Channel_is v) n \<longleftrightarrow> channel n = v"
| "clause_holds (Source_service_is v) n \<longleftrightarrow> source_service n = v"
| "clause_holds (Event_type_is v) n \<longleftrightarrow> event_type n = v"

record select_query =
  s_where :: "where_clause list"
  s_limit :: int
  s_offset :: int

type_synonym table = "int \<Rightarrow> notification option"

text \<open>
  \<open>pg_insert\<close> is \<open>add\<close> and \<open>commit\<close> of a new object and returns the generated key;
  \<open>pg_update i as\<close> is the \<open>commit\<close> of the object with key \<open>i\<close> that was changed by
  the assignments \<open>as\<close>: an UPDATE of these columns only; \<open>pg_refresh\<close> reads an object again; the selects are
  \<open>execute(select(...))\<close>. \<open>pg_rows\<close> observes the committed rows.
\<close>

record 'd pg =
  pg_rows :: "'d \<Rightarrow> table"
  pg_up :: "'d \<Rightarrow> bool"
  pg_insert :: "notification_args \<Rightarrow> ('d, int) io"
  pg_update :: "int \<Rightarrow> attr list \<Rightarrow> ('d, unit) io"
  pg_refresh :: "int \<Rightarrow> ('d, notification) io"
  pg_select_id :: "int \<Rightarrow> ('d, notification option) io"
  pg_select_key :: "string \<Rightarrow> ('d, notification option) io"
  pg_select :: "select_query \<Rightarrow> ('d, notification list) io"
  pg_rollback :: "('d, unit) io"

definition key_taken :: "table \<Rightarrow> string \<Rightarrow> bool" where
  "key_taken tbl k \<longleftrightarrow> (\<exists>i n. tbl i = Some n \<and> idempotency_key n = k)"

text \<open>The rows after an INSERT of \<open>a\<close> under a key \<open>i\<close> the sequence generated.\<close>

definition inserted :: "notification_args \<Rightarrow> int \<Rightarrow> table \<Rightarrow> table \<Rightarrow> bool" where
  "inserted a i tbl tbl' \<longleftrightarrow>
     (\<exists>now r. a_recipient a = Some r \<and> \<not> key_taken tbl (a_idempotency_key a) \<and> tbl i = None \<and>
        storable (row_of_args i now r a) \<and> tbl' = tbl(i \<mapsto> row_of_args i now r a))"

text \<open>The rows after an UPDATE of row \<open>i\<close>; \<open>mtime\<close> is set by the database.\<close>

definition updated :: "int \<Rightarrow> attr list \<Rightarrow> table \<Rightarrow> table \<Rightarrow> bool" where
  "updated i as tbl tbl' \<longleftrightarrow>
     (\<exists>n t. tbl i = Some n \<and> storable (set_attrs as n) \<and> tbl' = tbl(i \<mapsto> (set_attrs as n)\<lparr>mtime := t\<rparr>))"

text \<open>One page of the matching rows, latest first.\<close>

definition page_of :: "table \<Rightarrow> select_query \<Rightarrow> notification list \<Rightarrow> bool" where
  "page_of tbl q ns \<longleftrightarrow> 0 \<le> s_limit q \<and> 0 \<le> s_offset q \<and>
     (\<exists>matching. distinct matching \<and>
        set matching = {n \<in> ran tbl. \<forall>c \<in> set (s_where q). clause_holds c n} \<and>
        sorted_wrt (\<lambda>m n. ctime n \<le> ctime m) matching \<and>
        ns = take (nat (s_limit q)) (drop (nat (s_offset q)) matching))"

text \<open>
  A committed transaction is in the table and a failed one leaves no trace, except that a commit
  whose answer is lost may have been executed. The unique key and NOT NULL are the
  constraints an \<open>IntegrityError\<close> reports.
\<close>

definition pg_write_laws :: "'d pg \<Rightarrow> bool" where
  "pg_write_laws P \<longleftrightarrow>
     (\<forall>a d. case pg_insert P a d of
        (Inr i, d') \<Rightarrow> inserted a i (pg_rows P d) (pg_rows P d')
      | (Inl e, d') \<Rightarrow> pg_rows P d' = pg_rows P d \<or>
          (e \<noteq> IntegrityError \<and> (\<exists>i. inserted a i (pg_rows P d) (pg_rows P d')))) \<and>
     (\<forall>i as d. case pg_update P i as d of
        (Inr _, d') \<Rightarrow> updated i as (pg_rows P d) (pg_rows P d')
      | (Inl e, d') \<Rightarrow> pg_rows P d' = pg_rows P d \<or> updated i as (pg_rows P d) (pg_rows P d'))"

definition pg_read_laws :: "'d pg \<Rightarrow> bool" where
  "pg_read_laws P \<longleftrightarrow>
     (\<forall>i d x d'. pg_select_id P i d = (x, d') \<longrightarrow>
        pg_rows P d' = pg_rows P d \<and> (\<forall>n. x = Inr n \<longrightarrow> n = pg_rows P d i)) \<and>
     (\<forall>k d x d'. pg_select_key P k d = (x, d') \<longrightarrow>
        pg_rows P d' = pg_rows P d \<and>
        (\<forall>n. x = Inr (Some n) \<longrightarrow> n \<in> ran (pg_rows P d) \<and> idempotency_key n = k) \<and>
        (x = Inr None \<longrightarrow> \<not> key_taken (pg_rows P d) k)) \<and>
     (\<forall>i d x d'. pg_refresh P i d = (x, d') \<longrightarrow>
        pg_rows P d' = pg_rows P d \<and> (\<forall>n. x = Inr n \<longrightarrow> pg_rows P d i = Some n)) \<and>
     (\<forall>q d x d'. pg_select P q d = (x, d') \<longrightarrow>
        pg_rows P d' = pg_rows P d \<and> (\<forall>ns. x = Inr ns \<longrightarrow> page_of (pg_rows P d) q ns)) \<and>
     (\<forall>d x d'. pg_rollback P d = (x, d') \<longrightarrow> pg_rows P d' = pg_rows P d)"

text \<open>A database that answers executes what its constraints allow, and keeps answering.\<close>

definition pg_up_laws :: "'d pg \<Rightarrow> bool" where
  "pg_up_laws P \<longleftrightarrow> (\<forall>d. pg_up P d \<longrightarrow>
     (\<forall>a r x d'. pg_insert P a d = (x, d') \<longrightarrow> pg_up P d' \<and>
        (a_recipient a = Some r \<longrightarrow> storable (row_of_args 0 0 r a) \<longrightarrow>
           (if key_taken (pg_rows P d) (a_idempotency_key a) then x = Inl IntegrityError
            else \<exists>i. x = Inr i))) \<and>
     (\<forall>i as x d'. pg_update P i as d = (x, d') \<longrightarrow> pg_up P d' \<and>
        (\<forall>n. pg_rows P d i = Some n \<longrightarrow> storable (set_attrs as n) \<longrightarrow> x = Inr ())) \<and>
     (\<forall>i x d'. pg_select_id P i d = (x, d') \<longrightarrow> pg_up P d' \<and> (\<exists>n. x = Inr n)) \<and>
     (\<forall>k x d'. pg_select_key P k d = (x, d') \<longrightarrow> pg_up P d' \<and> (\<exists>n. x = Inr n)) \<and>
     (\<forall>i x d'. pg_refresh P i d = (x, d') \<longrightarrow> pg_up P d' \<and>
        (pg_rows P d i \<noteq> None \<longrightarrow> (\<exists>n. x = Inr n))) \<and>
     (\<forall>q x d'. pg_select P q d = (x, d') \<longrightarrow> pg_up P d' \<and>
        (0 \<le> s_limit q \<longrightarrow> 0 \<le> s_offset q \<longrightarrow> (\<exists>ns. x = Inr ns))) \<and>
     (\<forall>x d'. pg_rollback P d = (x, d') \<longrightarrow> pg_up P d' \<and> x = Inr ()))"

definition pg_laws :: "'d pg \<Rightarrow> bool" where
  "pg_laws P \<longleftrightarrow> pg_write_laws P \<and> pg_read_laws P \<and> pg_up_laws P"

section \<open>Redis\<close>

text \<open>
  The commands the program sends. \<open>r_kv\<close> observes the string keys and \<open>r_zset\<close> a sorted
  set as \<open>ZRANGE 0 -1 WITHSCORES\<close> lists it: by score, and by member where scores are equal.
\<close>

type_synonym zset = "(string \<times> int) list"

record 'r redis =
  r_kv :: "'r \<Rightarrow> string \<Rightarrow> string option"
  r_zset :: "'r \<Rightarrow> string \<Rightarrow> zset"
  r_up :: "'r \<Rightarrow> bool"
  r_setnx :: "string \<Rightarrow> string \<Rightarrow> ('r, bool) io"
  r_expire :: "string \<Rightarrow> int \<Rightarrow> ('r, unit) io"
  r_zadd_nx :: "string \<Rightarrow> string \<Rightarrow> int \<Rightarrow> ('r, unit) io"
  r_bzpopmin :: "string \<Rightarrow> int \<Rightarrow> ('r, (string \<times> string \<times> int) option) io"
  r_zcard :: "string \<Rightarrow> ('r, int) io"
  r_zrem :: "string \<Rightarrow> string \<Rightarrow> ('r, unit) io"

definition zset_key :: "string \<times> int \<Rightarrow> int \<times> string" where
  "zset_key e = (snd e, fst e)"

definition zset_wf :: "zset \<Rightarrow> bool" where
  "zset_wf z \<longleftrightarrow> sorted (map zset_key z) \<and> distinct (map fst z)"

definition zset_add_nx :: "string \<Rightarrow> int \<Rightarrow> zset \<Rightarrow> zset" where
  "zset_add_nx m sc z = (if m \<in> fst ` set z then z else insort_key zset_key (m, sc) z)"

definition zset_remove :: "string \<Rightarrow> zset \<Rightarrow> zset" where
  "zset_remove m z = filter (\<lambda>e. fst e \<noteq> m) z"

text \<open>Scores are IEEE doubles: integers up to \<open>2 ^ 53\<close> are exact.\<close>

definition exact_score :: "int \<Rightarrow> bool" where
  "exact_score sc \<longleftrightarrow> \<bar>sc\<bar> \<le> 2 ^ 53"

definition redis_string_laws :: "'r redis \<Rightarrow> bool" where
  "redis_string_laws R \<longleftrightarrow>
     (\<forall>k v r x r'. r_setnx R k v r = (x, r') \<longrightarrow>
        r_zset R r' = r_zset R r \<and>
        (let new = (if r_kv R r k = None then (r_kv R r)(k \<mapsto> v) else r_kv R r) in
         case x of Inr b \<Rightarrow> b = (r_kv R r k = None) \<and> r_kv R r' = new
                 | Inl _ \<Rightarrow> r_kv R r' = r_kv R r \<or> r_kv R r' = new)) \<and>
     (\<forall>k t r x r'. 0 < t \<longrightarrow> r_expire R k t r = (x, r') \<longrightarrow>
        r_zset R r' = r_zset R r \<and> r_kv R r' = r_kv R r)"

definition redis_zset_laws :: "'r redis \<Rightarrow> bool" where
  "redis_zset_laws R \<longleftrightarrow>
     (\<forall>r k. zset_wf (r_zset R r k)) \<and>
     (\<forall>k m sc r x r'. r_zadd_nx R k m sc r = (x, r') \<longrightarrow>
        r_kv R r' = r_kv R r \<and>
        (exact_score sc \<longrightarrow>
          (let new = (r_zset R r)(k := zset_add_nx m sc (r_zset R r k)) in
           case x of Inr _ \<Rightarrow> r_zset R r' = new
                   | Inl _ \<Rightarrow> r_zset R r' = r_zset R r \<or> r_zset R r' = new))) \<and>
     (\<forall>k t r x r'. r_bzpopmin R k t r = (x, r') \<longrightarrow>
        r_kv R r' = r_kv R r \<and>
        (let new = (r_zset R r)(k := tl (r_zset R r k)) in
         case x of
           Inr None \<Rightarrow> r_zset R r k = [] \<and> r_zset R r' = r_zset R r
         | Inr (Some e) \<Rightarrow> r_zset R r k \<noteq> [] \<and> e = (k, hd (r_zset R r k)) \<and> r_zset R r' = new
         | Inl _ \<Rightarrow> r_zset R r' = r_zset R r \<or> r_zset R r' = new)) \<and>
     (\<forall>k r x r'. r_zcard R k r = (x, r') \<longrightarrow>
        r_kv R r' = r_kv R r \<and> r_zset R r' = r_zset R r \<and>
        (\<forall>n. x = Inr n \<longrightarrow> n = int (length (r_zset R r k)))) \<and>
     (\<forall>k m r x r'. r_zrem R k m r = (x, r') \<longrightarrow>
        r_kv R r' = r_kv R r \<and>
        (let new = (r_zset R r)(k := zset_remove m (r_zset R r k)) in
         case x of Inr _ \<Rightarrow> r_zset R r' = new
                 | Inl _ \<Rightarrow> r_zset R r' = r_zset R r \<or> r_zset R r' = new))"

definition redis_up_laws :: "'r redis \<Rightarrow> bool" where
  "redis_up_laws R \<longleftrightarrow> (\<forall>r. r_up R r \<longrightarrow>
     (\<forall>k v x r'. r_setnx R k v r = (x, r') \<longrightarrow> r_up R r' \<and> (\<exists>b. x = Inr b)) \<and>
     (\<forall>k t x r'. 0 < t \<longrightarrow> r_expire R k t r = (x, r') \<longrightarrow> r_up R r' \<and> x = Inr ()) \<and>
     (\<forall>k m sc x r'. r_zadd_nx R k m sc r = (x, r') \<longrightarrow> r_up R r' \<and> x = Inr ()) \<and>
     (\<forall>k t x r'. r_bzpopmin R k t r = (x, r') \<longrightarrow> r_up R r' \<and> (\<exists>e. x = Inr e)) \<and>
     (\<forall>k x r'. r_zcard R k r = (x, r') \<longrightarrow> r_up R r' \<and> (\<exists>n. x = Inr n)) \<and>
     (\<forall>k m x r'. r_zrem R k m r = (x, r') \<longrightarrow> r_up R r' \<and> x = Inr ()))"

definition redis_laws :: "'r redis \<Rightarrow> bool" where
  "redis_laws R \<longleftrightarrow> redis_string_laws R \<and> redis_zset_laws R \<and> redis_up_laws R"

section \<open>RabbitMQ\<close>

text \<open>
  The calls the program makes on aio-pika; connections and channels are handles. The argument
  \<open>expiration\<close> of a message is kept as it is passed. \<open>q_conn_is_closed\<close> and
  \<open>q_chan_is_closed\<close> are the call expressions \<open>connection.is_closed()\<close> and
  \<open>channel.is_closed()\<close>. \<open>q_published\<close> observes the messages the broker has accepted, each
  with its exchange and routing key, \<open>q_settled\<close> the acknowledged deliveries.
\<close>

datatype amqp_body = Body_text string | Body_json json

record amqp_message =
  m_body :: amqp_body
  m_persistent :: bool
  m_expiration :: "int option"
  m_content_type :: "string option"

datatype settlement = Acked | Nacked bool

datatype exchange_type = Topic | Fanout

type_synonym publication = "string \<times> string \<times> amqp_message"

record 'q amqp =
  q_published :: "'q \<Rightarrow> publication list"
  q_settled :: "'q \<Rightarrow> nat \<Rightarrow> settlement option"
  q_up :: "'q \<Rightarrow> bool"
  q_connect :: "('q, nat) io"
  q_open_channel :: "nat \<Rightarrow> ('q, nat) io"
  q_conn_is_closed :: "nat \<Rightarrow> ('q, bool) io"
  q_chan_is_closed :: "nat \<Rightarrow> ('q, bool) io"
  q_set_qos :: "nat \<Rightarrow> int \<Rightarrow> ('q, unit) io"
  q_declare_exchange :: "nat \<Rightarrow> string \<Rightarrow> exchange_type \<Rightarrow> ('q, unit) io"
  q_declare_queue :: "nat \<Rightarrow> string \<Rightarrow> string option \<Rightarrow> ('q, unit) io"
  q_bind :: "nat \<Rightarrow> string \<Rightarrow> string \<Rightarrow> string option \<Rightarrow> ('q, unit) io"
  q_consume :: "nat \<Rightarrow> string \<Rightarrow> ('q, unit) io"
  q_publish :: "nat \<Rightarrow> string \<Rightarrow> string \<Rightarrow> amqp_message \<Rightarrow> ('q, unit) io"
  q_close :: "nat \<Rightarrow> ('q, unit) io"
  q_ack :: "nat \<Rightarrow> ('q, unit) io"
  q_nack :: "nat \<Rightarrow> bool \<Rightarrow> ('q, unit) io"

text \<open>A call that publishes and settles nothing.\<close>

definition q_quiet :: "'q amqp \<Rightarrow> ('q, 'a) io \<Rightarrow> bool" where
  "q_quiet A m \<longleftrightarrow>
     (\<forall>q x q'. m q = (x, q') \<longrightarrow> q_published A q' = q_published A q \<and> q_settled A q' = q_settled A q)"

definition q_answers :: "'q amqp \<Rightarrow> ('q, 'a) io \<Rightarrow> bool" where
  "q_answers A m \<longleftrightarrow> (\<forall>q x q'. q_up A q \<longrightarrow> m q = (x, q') \<longrightarrow> q_up A q' \<and> (\<exists>y. x = Inr y))"

definition amqp_quiet_laws :: "'q amqp \<Rightarrow> bool" where
  "amqp_quiet_laws A \<longleftrightarrow>
     q_quiet A (q_connect A) \<and> (\<forall>c. q_quiet A (q_open_channel A c)) \<and>
     (\<forall>c. q_quiet A (q_conn_is_closed A c)) \<and> (\<forall>c. q_quiet A (q_chan_is_closed A c)) \<and>
     (\<forall>c k. q_quiet A (q_set_qos A c k)) \<and>
     (\<forall>c e t. q_quiet A (q_declare_exchange A c e t)) \<and>
     (\<forall>c k d. q_quiet A (q_declare_queue A c k d)) \<and>
     (\<forall>c k e rk. q_quiet A (q_bind A c k e rk)) \<and> (\<forall>c k. q_quiet A (q_consume A c k)) \<and>
     (\<forall>c. q_quiet A (q_close A c))"

definition amqp_effect_laws :: "'q amqp \<Rightarrow> bool" where
  "amqp_effect_laws A \<longleftrightarrow>
     (\<forall>c e rk m q x q'. q_publish A c e rk m q = (x, q') \<longrightarrow>
        q_settled A q' = q_settled A q \<and>
        (let new = q_published A q @ [(e, rk, m)] in
         case x of Inr _ \<Rightarrow> q_published A q' = new
                 | Inl _ \<Rightarrow> q_published A q' = q_published A q \<or> q_published A q' = new)) \<and>
     (\<forall>t q x q'. q_ack A t q = (x, q') \<longrightarrow>
        q_published A q' = q_published A q \<and>
        (x = Inr () \<longrightarrow> q_settled A q' = (q_settled A q)(t \<mapsto> Acked))) \<and>
     (\<forall>t b q x q'. q_nack A t b q = (x, q') \<longrightarrow>
        q_published A q' = q_published A q \<and>
        (x = Inr () \<longrightarrow> q_settled A q' = (q_settled A q)(t \<mapsto> Nacked b)))"

text \<open>
  A broker that answers accepts every call; whether the expression \<open>is_closed()\<close> evaluates is
  a matter of the client library and not part of these laws.
\<close>

definition amqp_up_laws :: "'q amqp \<Rightarrow> bool" where
  "amqp_up_laws A \<longleftrightarrow>
     q_answers A (q_connect A) \<and> (\<forall>c. q_answers A (q_open_channel A c)) \<and>
     (\<forall>c k. q_answers A (q_set_qos A c k)) \<and>
     (\<forall>c e t. q_answers A (q_declare_exchange A c e t)) \<and>
     (\<forall>c k d. q_answers A (q_declare_queue A c k d)) \<and>
     (\<forall>c k e rk. q_answers A (q_bind A c k e rk)) \<and> (\<forall>c k. q_answers A (q_consume A c k)) \<and>
     (\<forall>c e rk m. q_answers A (q_publish A c e rk m)) \<and>
     (\<forall>c. q_answers A (q_close A c)) \<and>
     (\<forall>t. q_answers A (q_ack A t)) \<and> (\<forall>t b. q_answers A (q_nack A t b)) \<and>
     (\<forall>c q x q'. q_up A q \<longrightarrow> q_conn_is_closed A c q = (x, q') \<longrightarrow> q_up A q') \<and>
     (\<forall>c q x q'. q_up A q \<longrightarrow> q_chan_is_closed A c q = (x, q') \<longrightarrow> q_up A q')"

definition amqp_laws :: "'q amqp \<Rightarrow> bool" where
  "amqp_laws A \<longleftrightarrow> amqp_quiet_laws A \<and> amqp_effect_laws A \<and> amqp_up_laws A"

text \<open>
  In aio-pika 9 \<open>is_closed\<close> of a connection is a property: it yields a \<open>bool\<close>, and
  calling that raises a \<open>TypeError\<close>.
\<close>

definition is_closed_is_property :: "'q amqp \<Rightarrow> bool" where
  "is_closed_is_property A \<longleftrightarrow>
     (\<forall>c q. q_conn_is_closed A c q = (Inl TypeError, q) \<and> q_chan_is_closed A c q = (Inl TypeError, q))"

section \<open>All services\<close>

record ('d, 'r, 'q) services =
  srv_pg :: "'d pg"
  srv_redis :: "'r redis"
  srv_amqp :: "'q amqp"

definition services_laws :: "('d, 'r, 'q) services \<Rightarrow> bool" where
  "services_laws S \<longleftrightarrow> pg_laws (srv_pg S) \<and> redis_laws (srv_redis S) \<and> amqp_laws (srv_amqp S)"

section \<open>Facts about sorted sets\<close>

lemma zset_wf_add [simp]: "zset_wf z \<Longrightarrow> zset_wf (zset_add_nx m sc z)"
  by (auto simp: zset_wf_def zset_add_nx_def sorted_insort_key set_insort_key distinct_map
      distinct_insort inj_on_def image_iff)

lemma zset_wf_tl [simp]: "zset_wf z \<Longrightarrow> zset_wf (tl z)"
  by (cases z) (auto simp: zset_wf_def)

lemma zset_wf_remove [simp]: "zset_wf z \<Longrightarrow> zset_wf (zset_remove m z)"
  by (simp add: zset_wf_def zset_remove_def sorted_filter distinct_map_filter)

lemma set_zset_add_nx:
  "set (zset_add_nx m sc z) = (if m \<in> fst ` set z then set z else insert (m, sc) (set z))"
  by (simp add: zset_add_nx_def set_insort_key)

lemma zset_add_nx_present [simp]: "m \<in> fst ` set z \<Longrightarrow> zset_add_nx m sc z = z"
  by (simp add: zset_add_nx_def)

lemma zset_add_nx_twice [simp]: "zset_add_nx m sc' (zset_add_nx m sc z) = zset_add_nx m sc z"
  by (rule zset_add_nx_present) (auto simp: set_zset_add_nx)

lemma length_zset_add_nx:
  "length (zset_add_nx m sc z) = (if m \<in> fst ` set z then length z else Suc (length z))"
  by (simp add: zset_add_nx_def)

end
