(* ===== verification/Repository.thy ===== *)
theory Repository
  imports Services
begin

text \<open>
  \<open>app/repositories/notification_repository.py\<close>: the queries over one session, written over
  the session's operations. The locales state what the manager and the dispatcher rely on: the
  effect of each operation on the rows (\<open>notification_store\<close>), and that the operations answer
  while the database does (\<open>available_store\<close>). The repository is interpreted as both.
\<close>

section \<open>Operations\<close>

text \<open>\<open>create\<close>: add, commit, refresh.\<close>

definition repository_create :: "'d pg \<Rightarrow> notification_args \<Rightarrow> ('d, notification) io" where
  "repository_create P a = io_bind (pg_insert P a) (\<lambda>i. pg_refresh P i)"

definition get_by_id :: "'d pg \<Rightarrow> int \<Rightarrow> ('d, notification option) io" where
  "get_by_id P i = pg_select_id P i"

definition get_by_idempotency_key :: "'d pg \<Rightarrow> string \<Rightarrow> ('d, notification option) io" where
  "get_by_idempotency_key P k = pg_select_key P k"

text \<open>\<open>list\<close>: one condition per filter that is given, in the source's order.\<close>

definition where_opt :: "(int \<Rightarrow> where_clause) \<Rightarrow> int option \<Rightarrow> where_clause list \<Rightarrow> where_clause list" where
  "where_opt f v cs = (case v of None \<Rightarrow> cs | Some x \<Rightarrow> cs @ [f x])"

definition list_query ::
  "int option \<Rightarrow> int option \<Rightarrow> int option \<Rightarrow> int option \<Rightarrow> int \<Rightarrow> int \<Rightarrow> select_query"
where
  "list_query st ch src ev limit offset =
     (let q0 = [];
          q1 = where_opt Status_is st q0;
          q2 = where_opt Channel_is ch q1;
          q3 = where_opt Source_service_is src q2;
          q4 = where_opt Event_type_is ev q3
      in \<lparr>s_where = q4, s_limit = limit, s_offset = offset\<rparr>)"

definition repository_list ::
  "'d pg \<Rightarrow> int option \<Rightarrow> int option \<Rightarrow> int option \<Rightarrow> int option \<Rightarrow> int \<Rightarrow> int \<Rightarrow>
   ('d, notification list) io"
where
  "repository_list P st ch src ev limit offset = pg_select P (list_query st ch src ev limit offset)"

text \<open>
  \<open>update_status\<close>: load the object, assign the status and then each keyword argument,
  commit what changed and refresh; \<open>None\<close> when there is no such row.
\<close>

definition update_status ::
  "'d pg \<Rightarrow> int \<Rightarrow> notification_status \<Rightarrow> attr list \<Rightarrow> ('d, notification option) io"
where
  "update_status P i st kwargs =
     io_bind (get_by_id P i) (\<lambda>row.
     case row of
       None \<Rightarrow> io_return None
     | Some n \<Rightarrow>
         io_bind (pg_update P i (changes n (Status (status_value st) # kwargs))) (\<lambda>_.
         io_bind (pg_refresh P i) (\<lambda>n.
         io_return (Some n))))"

section \<open>The contract of a store of notifications\<close>

text \<open>Keys identify rows: the primary key is the index, the idempotency key is unique.\<close>

definition table_ok :: "table \<Rightarrow> bool" where
  "table_ok tbl \<longleftrightarrow>
     (\<forall>i n. tbl i = Some n \<longrightarrow> nid n = i) \<and>
     (\<forall>i j m n. tbl i = Some m \<longrightarrow> tbl j = Some n \<longrightarrow> idempotency_key m = idempotency_key n \<longrightarrow> i = j)"

lemma table_ok_empty [simp]: "table_ok (\<lambda>_. None)"
  by (simp add: table_ok_def)

lemma table_ok_nid: "table_ok tbl \<Longrightarrow> tbl i = Some n \<Longrightarrow> nid n = i"
  unfolding table_ok_def by blast

lemma table_ok_key:
  "table_ok tbl \<Longrightarrow> tbl i = Some m \<Longrightarrow> tbl j = Some n \<Longrightarrow>
   idempotency_key m = idempotency_key n \<Longrightarrow> i = j"
  unfolding table_ok_def by blast

lemma table_ok_upd:
  assumes ok: "table_ok tbl" and id: "nid n = i"
    and fresh: "\<And>j m. j \<noteq> i \<Longrightarrow> tbl j = Some m \<Longrightarrow> idempotency_key m \<noteq> idempotency_key n"
  shows "table_ok (tbl(i \<mapsto> n))"
proof -
  have "nid m = j" if "(tbl(i \<mapsto> n)) j = Some m" for j m
    using that id table_ok_nid [OF ok] by (cases "j = i") simp_all
  moreover have "j = k"
    if "(tbl(i \<mapsto> n)) j = Some m" "(tbl(i \<mapsto> n)) k = Some m'"
      "idempotency_key m = idempotency_key m'" for j k m m'
  proof (cases "j = i \<or> k = i")
    case True
    with that fresh show ?thesis by (metis fun_upd_other fun_upd_same option.inject)
  next
    case False
    with that table_ok_key [OF ok] show ?thesis by simp
  qed
  ultimately show ?thesis unfolding table_ok_def by blast
qed

lemma table_ok_inserted:
  assumes ok: "table_ok tbl" and ins: "inserted a i tbl tbl'"
  shows "table_ok tbl'"
proof -
  from ins obtain now r where fresh: "\<not> key_taken tbl (a_idempotency_key a)"
    and tbl': "tbl' = tbl(i \<mapsto> row_of_args i now r a)"
    unfolding inserted_def by blast
  from fresh have "idempotency_key m \<noteq> idempotency_key (row_of_args i now r a)"
    if "tbl j = Some m" for j m
    using that unfolding key_taken_def row_of_args_def by auto
  then show ?thesis
    unfolding tbl' by (intro table_ok_upd [OF ok]) (simp_all add: row_of_args_def)
qed

lemma table_ok_updated:
  assumes ok: "table_ok tbl" and upd: "updated i as tbl tbl'"
  shows "table_ok tbl'"
proof -
  from upd obtain n t where n: "tbl i = Some n" and tbl': "tbl' = tbl(i \<mapsto> (set_attrs as n)\<lparr>mtime := t\<rparr>)"
    unfolding updated_def by blast
  have "idempotency_key m \<noteq> idempotency_key ((set_attrs as n)\<lparr>mtime := t\<rparr>)"
    if "j \<noteq> i" "tbl j = Some m" for j m
    using that n table_ok_key [OF ok] by auto
  with n show ?thesis
    unfolding tbl' by (intro table_ok_upd [OF ok]) (simp_all add: table_ok_nid [OF ok])
qed

text \<open>What every operation of a store does to the table: nothing, one insert or one update.\<close>

inductive table_step :: "table \<Rightarrow> table \<Rightarrow> bool" where
  idle: "table_step tbl tbl"
| insert: "inserted a i tbl tbl' \<Longrightarrow> table_step tbl tbl'"
| update: "updated i as tbl tbl' \<Longrightarrow> table_step tbl tbl'"

lemma table_step_ok: "table_step tbl tbl' \<Longrightarrow> table_ok tbl \<Longrightarrow> table_ok tbl'"
  by (induction rule: table_step.induct) (auto intro: table_ok_inserted table_ok_updated)

lemma table_step_dom: "table_step tbl tbl' \<Longrightarrow> dom tbl \<subseteq> dom tbl'"
  by (induction rule: table_step.induct) (auto simp: inserted_def updated_def)

locale notification_store =
  fixes good :: "'h \<Rightarrow> bool" and rows :: "'h \<Rightarrow> 's \<Rightarrow> table"
    and get :: "'h \<Rightarrow> int \<Rightarrow> ('s, notification option) io"
    and set_status :: "'h \<Rightarrow> int \<Rightarrow> notification_status \<Rightarrow> attr list \<Rightarrow> ('s, notification option) io"
    and create :: "'h \<Rightarrow> notification_args \<Rightarrow> ('s, notification) io"
  assumes get_pure: "good h \<Longrightarrow> get h i s = (x, s') \<Longrightarrow> rows h s' = rows h s"
    and get_result: "good h \<Longrightarrow> get h i s = (Inr row, s') \<Longrightarrow> row = rows h s i"
    and set_rows: "good h \<Longrightarrow> set_status h i st as s = (x, s') \<Longrightarrow>
      rows h s' = rows h s \<or> updated i (Status (status_value st) # as) (rows h s) (rows h s')"
    and set_some: "good h \<Longrightarrow> set_status h i st as s = (Inr (Some n), s') \<Longrightarrow>
      updated i (Status (status_value st) # as) (rows h s) (rows h s') \<and> rows h s' i = Some n"
    and set_none: "good h \<Longrightarrow> set_status h i st as s = (Inr None, s') \<Longrightarrow>
      rows h s i = None \<and> rows h s' = rows h s"
    and create_rows: "good h \<Longrightarrow> create h a s = (y, s') \<Longrightarrow>
      rows h s' = rows h s \<or> (\<exists>i. inserted a i (rows h s) (rows h s'))"
    and create_result: "good h \<Longrightarrow> create h a s = (Inr n, s') \<Longrightarrow>
      \<exists>i. inserted a i (rows h s) (rows h s') \<and> rows h s' i = Some n"
begin

lemma get_unchanged: "good h \<Longrightarrow> evolves (same (rows h)) (get h i)"
  by (rule evolvesI) (simp add: same_def get_pure)

lemma set_step: "good h \<Longrightarrow> evolves (\<lambda>s s'. table_step (rows h s) (rows h s')) (set_status h i st as)"
  by (rule evolvesI) (metis set_rows table_step.intros)

lemma create_step: "good h \<Longrightarrow> evolves (\<lambda>s s'. table_step (rows h s) (rows h s')) (create h a)"
  by (rule evolvesI) (metis create_rows table_step.intros)

text \<open>Partial failure isolation: an update of one row leaves every other row as it was.\<close>

lemma set_isolated: "good h \<Longrightarrow> evolves (same (\<lambda>s. (rows h s)(i := None))) (set_status h i st as)"
proof (rule evolvesI)
  fix s x s'
  assume "good h" "set_status h i st as s = (x, s')"
  then show "same (\<lambda>s. (rows h s)(i := None)) s s'"
    using set_rows [of h i st as s x s'] unfolding same_def updated_def by fastforce
qed

lemma set_then_row:
  assumes "good h" and "set_status h i st as s = (Inr (Some n), s')"
  obtains m t where "rows h s i = Some m"
    "n = (set_attrs (Status (status_value st) # as) m)\<lparr>mtime := t\<rparr>"
    "rows h s' = (rows h s)(i \<mapsto> n)"
proof -
  from set_some [OF assms] obtain m t where "rows h s i = Some m" "rows h s' i = Some n"
    "rows h s' = (rows h s)(i \<mapsto> (set_attrs (Status (status_value st) # as) m)\<lparr>mtime := t\<rparr>)"
    unfolding updated_def by blast
  then show thesis by (intro that [of m t]) simp_all
qed

text \<open>An existing row is never lost and keeps its identity.\<close>

lemma create_keeps_rows:
  assumes "good h" and "create h a s = (x, s')" and "rows h s j = Some m"
  shows "rows h s' j = Some m"
  using create_rows [OF assms(1,2)] assms(3) by (auto simp: inserted_def)

end

locale available_store = notification_store +
  fixes up :: "'h \<Rightarrow> 's \<Rightarrow> bool"
  assumes get_up: "good h \<Longrightarrow> up h s \<Longrightarrow> get h i s = (x, s') \<Longrightarrow> up h s' \<and> x = Inr (rows h s i)"
    and set_up: "good h \<Longrightarrow> up h s \<Longrightarrow> set_status h i st as s = (x, s') \<Longrightarrow> rows h s i = Some n \<Longrightarrow>
      storable (set_attrs (Status (status_value st) # as) n) \<Longrightarrow> up h s' \<and> (\<exists>m. x = Inr (Some m))"
    and create_up: "good h \<Longrightarrow> up h s \<Longrightarrow> create h a s = (y, s') \<Longrightarrow> a_recipient a = Some r \<Longrightarrow>
      storable (row_of_args 0 0 r a) \<Longrightarrow>
      up h s' \<and> (if key_taken (rows h s) (a_idempotency_key a) then y = Inl IntegrityError
                 else \<exists>n. y = Inr n)"
begin

text \<open>While the store answers, an update of an existing row is carried out.\<close>

lemma set_available:
  assumes "good h" "up h s" "rows h s i = Some m"
    and "storable (set_attrs (Status (status_value st) # as) m)"
  obtains n t s' where "set_status h i st as s = (Inr (Some n), s')" "up h s'"
    "n = (set_attrs (Status (status_value st) # as) m)\<lparr>mtime := t\<rparr>"
    "rows h s' = (rows h s)(i \<mapsto> n)"
proof -
  obtain x s' where run: "set_status h i st as s = (x, s')" by (cases "set_status h i st as s")
  from set_up [OF assms(1,2) run assms(3,4)] obtain n where "up h s'" "x = Inr (Some n)" by blast
  with run have "set_status h i st as s = (Inr (Some n), s')" by simp
  then obtain m' t where "rows h s i = Some m'"
    "n = (set_attrs (Status (status_value st) # as) m')\<lparr>mtime := t\<rparr>"
    "rows h s' = (rows h s)(i \<mapsto> n)"
    by (rule set_then_row [OF assms(1)])
  with assms(3) run \<open>x = Inr (Some n)\<close> \<open>up h s'\<close> show thesis
    by (intro that [of n s' t]) simp_all
qed

end

section \<open>The repository meets it\<close>

lemma pg_laws_parts:
  assumes "pg_laws P"
  shows "pg_write_laws P" and "pg_read_laws P" and "pg_up_laws P"
  using assms by (simp_all add: pg_laws_def)

lemma pg_insert_law:
  "pg_laws P \<Longrightarrow> pg_insert P a d = (Inr i, d') \<Longrightarrow> inserted a i (pg_rows P d) (pg_rows P d')"
  "pg_laws P \<Longrightarrow> pg_insert P a d = (Inl e, d') \<Longrightarrow>
     pg_rows P d' = pg_rows P d \<or> (e \<noteq> IntegrityError \<and> (\<exists>i. inserted a i (pg_rows P d) (pg_rows P d')))"
  by (drule pg_laws_parts(1), simp add: pg_write_laws_def, drule conjunct1,
      drule spec2 [of _ a d], simp)+

lemma pg_update_law:
  "pg_laws P \<Longrightarrow> pg_update P i as d = (Inr u, d') \<Longrightarrow> updated i as (pg_rows P d) (pg_rows P d')"
  "pg_laws P \<Longrightarrow> pg_update P i as d = (Inl e, d') \<Longrightarrow>
     pg_rows P d' = pg_rows P d \<or> updated i as (pg_rows P d) (pg_rows P d')"
  by (drule pg_laws_parts(1), simp add: pg_write_laws_def, drule conjunct2,
      drule spec [of _ i], drule spec2 [of _ as d], simp)+

lemma pg_read_law:
  assumes "pg_laws P"
  shows "pg_select_id P i d = (x, d') \<Longrightarrow> pg_rows P d' = pg_rows P d \<and> (\<forall>n. x = Inr n \<longrightarrow> n = pg_rows P d i)"
    and "pg_select_key P k d = (x, d') \<Longrightarrow> pg_rows P d' = pg_rows P d \<and>
      (\<forall>n. x = Inr (Some n) \<longrightarrow> n \<in> ran (pg_rows P d) \<and> idempotency_key n = k) \<and>
      (x = Inr None \<longrightarrow> \<not> key_taken (pg_rows P d) k)"
    and "pg_refresh P i d = (y, d') \<Longrightarrow> pg_rows P d' = pg_rows P d \<and> (\<forall>n. y = Inr n \<longrightarrow> pg_rows P d i = Some n)"
    and "pg_select P q d = (z, d') \<Longrightarrow> pg_rows P d' = pg_rows P d \<and> (\<forall>ns. z = Inr ns \<longrightarrow> page_of (pg_rows P d) q ns)"
    and "pg_rollback P d = (w, d') \<Longrightarrow> pg_rows P d' = pg_rows P d"
proof -
  note laws = pg_laws_parts(2) [OF assms, unfolded pg_read_laws_def]
  show "pg_select_id P i d = (x, d') \<Longrightarrow> pg_rows P d' = pg_rows P d \<and> (\<forall>n. x = Inr n \<longrightarrow> n = pg_rows P d i)"
    by (rule laws [THEN conjunct1, rule_format])
  show "pg_select_key P k d = (x, d') \<Longrightarrow> pg_rows P d' = pg_rows P d \<and>
      (\<forall>n. x = Inr (Some n) \<longrightarrow> n \<in> ran (pg_rows P d) \<and> idempotency_key n = k) \<and>
      (x = Inr None \<longrightarrow> \<not> key_taken (pg_rows P d) k)"
    by (rule laws [THEN conjunct2, THEN conjunct1, rule_format (no_asm)])
  show "pg_refresh P i d = (y, d') \<Longrightarrow> pg_rows P d' = pg_rows P d \<and> (\<forall>n. y = Inr n \<longrightarrow> pg_rows P d i = Some n)"
    by (rule laws [THEN conjunct2, THEN conjunct2, THEN conjunct1, rule_format (no_asm)])
  show "pg_select P q d = (z, d') \<Longrightarrow> pg_rows P d' = pg_rows P d \<and> (\<forall>ns. z = Inr ns \<longrightarrow> page_of (pg_rows P d) q ns)"
    by (rule laws [THEN conjunct2, THEN conjunct2, THEN conjunct2, THEN conjunct1, rule_format (no_asm)])
  show "pg_rollback P d = (w, d') \<Longrightarrow> pg_rows P d' = pg_rows P d"
    by (rule laws [THEN conjunct2, THEN conjunct2, THEN conjunct2, THEN conjunct2, rule_format])
qed

lemma pg_up_law:
  assumes "pg_laws P" and "pg_up P d"
  shows "pg_insert P a d = (x, d') \<Longrightarrow> pg_up P d' \<and>
        (a_recipient a = Some r \<longrightarrow> storable (row_of_args 0 0 r a) \<longrightarrow>
           (if key_taken (pg_rows P d) (a_idempotency_key a) then x = Inl IntegrityError
            else \<exists>i. x = Inr i))"
    and "pg_update P i as d = (u, d') \<Longrightarrow> pg_up P d' \<and>
        (\<forall>n. pg_rows P d i = Some n \<longrightarrow> storable (set_attrs as n) \<longrightarrow> u = Inr ())"
    and "pg_select_id P i d = (y, d') \<Longrightarrow> pg_up P d' \<and> (\<exists>n. y = Inr n)"
    and "pg_refresh P i d = (z, d') \<Longrightarrow> pg_up P d' \<and> (pg_rows P d i \<noteq> None \<longrightarrow> (\<exists>n. z = Inr n))"
    and "pg_rollback P d = (u, d') \<Longrightarrow> pg_up P d' \<and> u = Inr ()"
proof -
  note laws = pg_laws_parts(3) [OF assms(1), unfolded pg_up_laws_def, THEN spec, THEN mp, OF assms(2)]
  note rest = laws [THEN conjunct2, THEN conjunct2]
  show "pg_insert P a d = (x, d') \<Longrightarrow> pg_up P d' \<and>
        (a_recipient a = Some r \<longrightarrow> storable (row_of_args 0 0 r a) \<longrightarrow>
           (if key_taken (pg_rows P d) (a_idempotency_key a) then x = Inl IntegrityError
            else \<exists>i. x = Inr i))"
    by (rule laws [THEN conjunct1, THEN spec, THEN spec, THEN spec, THEN spec, THEN mp])
  show "pg_update P i as d = (u, d') \<Longrightarrow> pg_up P d' \<and>
        (\<forall>n. pg_rows P d i = Some n \<longrightarrow> storable (set_attrs as n) \<longrightarrow> u = Inr ())"
    by (rule laws [THEN conjunct2, THEN conjunct1, THEN spec, THEN spec, THEN spec, THEN spec, THEN mp])
  show "pg_select_id P i d = (y, d') \<Longrightarrow> pg_up P d' \<and> (\<exists>n. y = Inr n)"
    by (rule rest [THEN conjunct1, rule_format])
  show "pg_refresh P i d = (z, d') \<Longrightarrow> pg_up P d' \<and> (pg_rows P d i \<noteq> None \<longrightarrow> (\<exists>n. z = Inr n))"
    by (rule rest [THEN conjunct2, THEN conjunct2, THEN conjunct1, THEN spec, THEN spec, THEN spec, THEN mp])
  show "pg_rollback P d = (u, d') \<Longrightarrow> pg_up P d' \<and> u = Inr ()"
    by (rule rest [THEN conjunct2, THEN conjunct2, THEN conjunct2, THEN conjunct2, rule_format])
qed

lemma updated_changes: "tbl i = Some n \<Longrightarrow> updated i (changes n as) tbl tbl' = updated i as tbl tbl'"
  by (simp add: updated_def)

lemma update_status_cases:
  assumes laws: "pg_laws P" and run: "update_status P i st as s = (x, s')"
  obtains (failed) e where "x = Inl e"
      "pg_rows P s' = pg_rows P s \<or> updated i (Status (status_value st) # as) (pg_rows P s) (pg_rows P s')"
    | (missing) "x = Inr None" "pg_rows P s i = None" "pg_rows P s' = pg_rows P s"
    | (stored) n where "x = Inr (Some n)" "pg_rows P s' i = Some n"
      "updated i (Status (status_value st) # as) (pg_rows P s) (pg_rows P s')"
  using run unfolding update_status_def get_by_id_def
proof (cases rule: io_bind_cases)
  case (raised e)
  with pg_read_law(1) [OF laws raised(1)] show ?thesis by (intro failed) simp_all
next
  case (returned row s1)
  note sel = pg_read_law(1) [OF laws returned(1)]
  show ?thesis
  proof (cases row)
    case None
    with sel returned(2) show ?thesis by (intro missing) (simp_all add: io_return_run)
  next
    case (Some n0)
    let ?as = "Status (status_value st) # as"
    have chg: "updated i (changes n0 ?as) (pg_rows P s) tbl = updated i ?as (pg_rows P s) tbl" for tbl
      using sel Some by (intro updated_changes) simp
    from returned(2) Some have "io_bind (pg_update P i (changes n0 ?as)) (\<lambda>_.
      io_bind (pg_refresh P i) (\<lambda>n. io_return (Some n))) s1 = (x, s')" by (simp del: changes.simps)
    then show ?thesis
    proof (cases rule: io_bind_cases)
      case (raised e)
      with pg_update_law(2) [OF laws raised(1)] sel chg show ?thesis
        by (intro failed) (simp_all del: changes.simps)
    next
      case (returned u s2)
      from pg_update_law(1) [OF laws returned(1)] sel chg
      have upd: "updated i ?as (pg_rows P s) (pg_rows P s2)" by (simp del: changes.simps)
      from returned(2) show ?thesis
      proof (cases rule: io_bind_cases)
        case (raised e)
        with pg_read_law(3) [OF laws raised(1)] upd show ?thesis by (intro failed) simp_all
      next
        case (returned n s3)
        with pg_read_law(3) [OF laws returned(1)] upd show ?thesis
          by (intro stored) (auto simp: io_return_run)
      qed
    qed
  qed
qed

lemma repository_create_cases:
  assumes laws: "pg_laws P" and run: "repository_create P a s = (x, s')"
  obtains (failed) e where "x = Inl e"
      "pg_rows P s' = pg_rows P s \<or> (\<exists>i. inserted a i (pg_rows P s) (pg_rows P s'))"
    | (stored) i n where "x = Inr n" "pg_rows P s' i = Some n" "inserted a i (pg_rows P s) (pg_rows P s')"
  using run unfolding repository_create_def
proof (cases rule: io_bind_cases)
  case (raised e)
  with pg_insert_law(2) [OF laws raised(1)] show ?thesis by (intro failed) auto
next
  case (returned i s1)
  note ins = pg_insert_law(1) [OF laws returned(1)]
    and ref = pg_read_law(3) [OF laws returned(2)]
  show ?thesis
  proof (cases x)
    case (Inl e)
    with ins ref show ?thesis by (intro failed) auto
  next
    case (Inr n)
    with ins ref show ?thesis by (intro stored) auto
  qed
qed

lemma update_status_up:
  assumes laws: "pg_laws P" and up: "pg_up P s" and run: "update_status P i st as s = (x, s')"
    and row: "pg_rows P s i = Some n" and ok: "storable (set_attrs (Status (status_value st) # as) n)"
  shows "pg_up P s' \<and> (\<exists>m. x = Inr (Some m))"
proof -
  obtain y s1 where sel: "pg_select_id P i s = (y, s1)" by (cases "pg_select_id P i s")
  from pg_up_law(3) [OF laws up sel] pg_read_law(1) [OF laws sel] row
  have s1: "pg_up P s1" "y = Inr (Some n)" "pg_rows P s1 i = Some n" by auto
  let ?as = "changes n (Status (status_value st) # as)"
  obtain u s2 where upd: "pg_update P i ?as s1 = (u, s2)" by (cases "pg_update P i ?as s1")
  from pg_up_law(2) [OF laws s1(1) upd] s1(3) ok have s2: "pg_up P s2" "u = Inr ()"
    by (simp_all del: changes.simps)
  have "pg_rows P s2 i \<noteq> None"
    using pg_update_law(1) [OF laws upd [unfolded s2(2)]] unfolding updated_def by auto
  obtain z s3 where ref: "pg_refresh P i s2 = (z, s3)" by (cases "pg_refresh P i s2")
  from pg_up_law(4) [OF laws s2(1) ref] \<open>pg_rows P s2 i \<noteq> None\<close>
  obtain m where s3: "pg_up P s3" "z = Inr m" by auto
  from run sel upd ref s1(2) s2(2) s3 show ?thesis
    by (auto simp: update_status_def get_by_id_def io_simps)
qed

lemma repository_create_up:
  assumes laws: "pg_laws P" and up: "pg_up P s" and run: "repository_create P a s = (x, s')"
    and args: "a_recipient a = Some r" "storable (row_of_args 0 0 r a)"
  shows "pg_up P s' \<and> (if key_taken (pg_rows P s) (a_idempotency_key a) then x = Inl IntegrityError
    else \<exists>n. x = Inr n)"
proof -
  obtain y s1 where ins: "pg_insert P a s = (y, s1)" by (cases "pg_insert P a s")
  note law = pg_up_law(1) [OF laws up ins, of r]
  show ?thesis
  proof (cases "key_taken (pg_rows P s) (a_idempotency_key a)")
    case True
    with law args have "pg_up P s1" "y = Inl IntegrityError" by simp_all
    with True run ins show ?thesis by (simp add: repository_create_def io_simps)
  next
    case False
    with law args obtain i where s1: "pg_up P s1" "y = Inr i" by auto
    have "pg_rows P s1 i \<noteq> None"
      using pg_insert_law(1) [OF laws ins [unfolded s1(2)]] unfolding inserted_def by auto
    moreover from run ins s1(2) have "pg_refresh P i s1 = (x, s')"
      by (simp add: repository_create_def io_simps)
    ultimately show ?thesis
      using pg_up_law(4) [OF laws s1(1)] False by auto
  qed
qed

interpretation repo: available_store pg_laws pg_rows get_by_id update_status repository_create pg_up
proof unfold_locales
  fix h :: "'d pg" and i s x s'
  assume "pg_laws h" "get_by_id h i s = (x, s')"
  then show "pg_rows h s' = pg_rows h s"
    unfolding get_by_id_def by (blast dest: pg_read_law(1))
next
  fix h :: "'d pg" and i s row s'
  assume "pg_laws h" "get_by_id h i s = (Inr row, s')"
  then show "row = pg_rows h s i"
    unfolding get_by_id_def by (blast dest: pg_read_law(1))
next
  fix h :: "'d pg" and i s x s'
  assume "pg_laws h" "pg_up h s" "get_by_id h i s = (x, s')"
  then show "pg_up h s' \<and> x = Inr (pg_rows h s i)"
    unfolding get_by_id_def by (blast dest: pg_read_law(1) pg_up_law(3))
qed (erule (1) update_status_cases repository_create_cases update_status_up repository_create_up; simp; fail |
     blast elim: update_status_cases repository_create_cases dest: update_status_up repository_create_up)+
section \<open>Pages\<close>

lemma list_query_fields [simp]:
  "s_limit (list_query st ch src ev limit offset) = limit"
  "s_offset (list_query st ch src ev limit offset) = offset"
  by (simp_all add: list_query_def)

lemma list_query_where:
  "(\<forall>c \<in> set (s_where (list_query st ch src ev limit offset)). clause_holds c n) \<longleftrightarrow>
   (st = None \<or> st = Some (status n)) \<and> (ch = None \<or> ch = Some (channel n)) \<and>
   (src = None \<or> src = Some (source_service n)) \<and> (ev = None \<or> ev = Some (event_type n))"
  by (cases st; cases ch; cases src; cases ev) (auto simp: list_query_def where_opt_def)

lemma page_of_bounds:
  assumes "page_of tbl q ns"
  shows "length ns \<le> nat (s_limit q)" and "sorted_wrt (\<lambda>m n. ctime n \<le> ctime m) ns" and "distinct ns"
    and "set ns \<subseteq> {n \<in> ran tbl. \<forall>c \<in> set (s_where q). clause_holds c n}"
  using assms by (auto simp: page_of_def sorted_wrt_take sorted_wrt_drop
      dest!: in_set_takeD in_set_dropD)

end
