(* ===== verification/Channel_Map.thy ===== *)
theory Channel_Map
  imports Notification_Model
begin

text \<open>
  \<open>app/event_channel_map.py\<close>: which channels an event notifies, and which recipient field
  a channel needs. A dict literal is an association list in the order of the source;
  \<open>event_channels\<close> is the look-up \<open>EVENT_CHANNEL_MAP.get(event, [])\<close> its two callers
  make.
\<close>

definition EVENT_CHANNEL_MAP :: "(event_type_t \<times> notification_channel list) list" where
  "EVENT_CHANNEL_MAP =
     [(ORDER_CREATED,         [EMAIL, PUSH]),
      (ORDER_CANCELLED,       [EMAIL, PUSH]),
      (PAYMENT_CONFIRMED,     [EMAIL, PUSH]),
      (PAYMENT_FAILED,        [EMAIL, SMS, PUSH]),
      (PAYMENT_OTP_REQUESTED, [SMS]),
      (SHIPMENT_DISPATCHED,   [EMAIL, PUSH]),
      (SHIPMENT_DELIVERED,    [EMAIL, PUSH]),
      (SHIPMENT_DELAYED,      [EMAIL, SMS])]"

definition event_channels :: "event_type_t \<Rightarrow> notification_channel list" where
  "event_channels ev = (case map_of EVENT_CHANNEL_MAP ev of None \<Rightarrow> [] | Some cs \<Rightarrow> cs)"

text \<open>The recipient fields are attribute names of \<open>RecipientInfo\<close>.\<close>

datatype recipient_field = Email_field | Phone_field | Device_token_field

fun CHANNEL_RECIPIENT_FIELD :: "notification_channel \<Rightarrow> recipient_field" where
  "CHANNEL_RECIPIENT_FIELD EMAIL = Email_field"
| "CHANNEL_RECIPIENT_FIELD SMS = Phone_field"
| "CHANNEL_RECIPIENT_FIELD PUSH = Device_token_field"

text \<open>The key of a channel in the content dict, \<open>channel.name.lower()\<close>.\<close>

definition channel_key :: "notification_channel \<Rightarrow> string" where
  "channel_key c = str_lower (channel_name c)"

lemma channel_key_simps [simp]:
  "channel_key EMAIL = ''email''" "channel_key SMS = ''sms''" "channel_key PUSH = ''push''"
  by code_simp+

lemma event_channels_simps [simp]:
  "event_channels ORDER_CREATED = [EMAIL, PUSH]"
  "event_channels ORDER_CANCELLED = [EMAIL, PUSH]"
  "event_channels PAYMENT_CONFIRMED = [EMAIL, PUSH]"
  "event_channels PAYMENT_FAILED = [EMAIL, SMS, PUSH]"
  "event_channels PAYMENT_OTP_REQUESTED = [SMS]"
  "event_channels SHIPMENT_DISPATCHED = [EMAIL, PUSH]"
  "event_channels SHIPMENT_DELIVERED = [EMAIL, PUSH]"
  "event_channels SHIPMENT_DELAYED = [EMAIL, SMS]"
  by (simp_all add: event_channels_def EVENT_CHANNEL_MAP_def)

lemma distinct_event_channels [simp]: "distinct (event_channels ev)"
  by (cases ev) simp_all

lemma event_channels_not_Nil [simp]: "event_channels ev \<noteq> []"
  by (cases ev) simp_all

text \<open>
  The key of the row of one channel, \<open>f"{key}-{channel.name.lower()}"\<close>. Different base
  keys, or different channels, never give the same row key.
\<close>

definition channel_idem_key :: "string \<Rightarrow> notification_channel \<Rightarrow> string" where
  "channel_idem_key key c = key @ ''-'' @ channel_key c"

lemma channel_idem_key_inj:
  "channel_idem_key k c = channel_idem_key k' c' \<longleftrightarrow> k = k' \<and> c = c'"
proof -
  have "c = c'" if "channel_idem_key k c = channel_idem_key k' c'"
  proof -
    from that have "last (channel_key c) = last (channel_key c')"
      unfolding channel_idem_key_def by (cases c; cases c') (auto dest: arg_cong [where f = last])
    then show ?thesis by (cases c; cases c') simp_all
  qed
  then show ?thesis by (auto simp: channel_idem_key_def)
qed

end
