(* ===== verification/Lifecycle.thy ===== *)
theory Lifecycle
  imports Repository Channel_Map
begin

text \<open>
  The abstract specification of the notifications table: the writes a notification goes through
  in its life, and the invariant they keep. The handlers are shown to refine it: whatever a handler
  does, and wherever it raises, the table changes by a sequence of these writes.
\<close>

section \<open>Writes\<close>

text \<open>The arguments of a row that a validated event gives rise to.\<close>

definition event_args :: "notification_args \<Rightarrow> bool" where
  "event_args a \<longleftrightarrow>
     (\<exists>key src ev c prio r.
        c \<in> set (event_channels ev) \<and> r \<noteq> [] \<and>
        a_idempotency_key a = channel_idem_key key c \<and> a_source_service a = source_value src \<and>
        a_event_type a = event_value ev \<and> a_channel a = channel_value c \<and>
        a_recipient a = Some r \<and> a_priority a = priority_value prio \<and>
        a_status a = status_value PENDING)"

text \<open>
  A notification is created pending. A worker queues it and then records the result of the send:
  sent, failed, or retrying, the last only while its retry count is below the limit of three, and
  with a retryable error. A manual retry makes it pending again and counts as a retry.
\<close>

inductive life_write :: "table \<Rightarrow> table \<Rightarrow> bool" where
  created: "event_args a \<Longrightarrow> inserted a i tbl tbl' \<Longrightarrow> life_write tbl tbl'"
| queued: "updated i [Status (status_value QUEUED)] tbl tbl' \<Longrightarrow> life_write tbl tbl'"
| sent: "updated i [Status (status_value SENT), External_id (Some x), Stime (Some t)] tbl tbl' \<Longrightarrow>
    life_write tbl tbl'"
| failed: "updated i [Status (status_value FAILED), Error_code (Some (error_value e))] tbl tbl' \<Longrightarrow>
    life_write tbl tbl'"
| retrying: "tbl i = Some n \<Longrightarrow> retry_count n < 3 \<Longrightarrow> e \<in> RETRYABLE_ERROR_CODES \<Longrightarrow>
    updated i [Status (status_value RETRYING), Retry_count (retry_count n + 1),
               Error_code (Some (error_value e))] tbl tbl' \<Longrightarrow>
    life_write tbl tbl'"
| requeued: "tbl i = Some n \<Longrightarrow> status n \<noteq> status_value SENT \<Longrightarrow> status n \<noteq> status_value QUEUED \<Longrightarrow>
    updated i [Status (status_value PENDING), Retry_count (retry_count n + 1), Error_code None,
               Next_retry_time None] tbl tbl' \<Longrightarrow>
    life_write tbl tbl'"

inductive_cases life_writeE: "life_write tbl tbl'"

text \<open>Writes to one row only.\<close>

definition life_write_at :: "int \<Rightarrow> table \<Rightarrow> table \<Rightarrow> bool" where
  "life_write_at i tbl tbl' \<longleftrightarrow> life_write tbl tbl' \<and> tbl'(i := None) = tbl(i := None)"

section \<open>The invariant\<close>

text \<open>What a row is given when it is created, and what the results of sends make of it.\<close>

definition row_origin :: "notification \<Rightarrow> bool" where
  "row_origin n \<longleftrightarrow>
     source_service n \<in> range source_value \<and> priority n \<in> range priority_value \<and>
     recipient n \<noteq> [] \<and>
     (\<exists>key ev c. idempotency_key n = channel_idem_key key c \<and> event_type n = event_value ev \<and>
        channel n = channel_value c \<and> c \<in> set (event_channels ev))"

definition row_progress :: "notification \<Rightarrow> bool" where
  "row_progress n \<longleftrightarrow>
     status n \<in> range status_value \<and> (\<forall>e. error_code n = Some e \<longrightarrow> e \<in> range error_value) \<and>
     0 \<le> retry_count n \<and> next_retry_time n = None \<and>
     (status n = status_value SENT \<longrightarrow> stime n \<noteq> None \<and> external_id n \<noteq> None) \<and>
     (status n = status_value FAILED \<longrightarrow> error_code n \<noteq> None) \<and>
     (status n = status_value RETRYING \<longrightarrow> 1 \<le> retry_count n \<and> retry_count n \<le> 3 \<and>
        (\<exists>e \<in> RETRYABLE_ERROR_CODES. error_code n = Some (error_value e)))"

definition row_inv :: "notification \<Rightarrow> bool" where
  "row_inv n \<longleftrightarrow> row_origin n \<and> row_progress n \<and> storable n"

definition life_inv :: "table \<Rightarrow> bool" where
  "life_inv tbl \<longleftrightarrow> table_ok tbl \<and> (\<forall>i n. tbl i = Some n \<longrightarrow> row_inv n)"

lemma life_inv_row: "life_inv tbl \<Longrightarrow> tbl i = Some n \<Longrightarrow> row_inv n \<and> nid n = i"
  by (auto simp: life_inv_def table_ok_nid)

lemma life_inv_empty [simp]: "life_inv (\<lambda>_. None)"
  by (simp add: life_inv_def)

lemma row_inv_valid_codes: "row_inv n \<Longrightarrow> valid_codes n"
  by (auto simp: row_inv_def row_origin_def row_progress_def valid_codes_def)

lemma row_origin_kept [simp]:
  "row_origin (set_attrs as n) = row_origin n" "row_origin (n\<lparr>mtime := t\<rparr>) = row_origin n"
  by (simp_all add: row_origin_def)

lemma storable_mtime [simp]: "storable (n\<lparr>mtime := t\<rparr>) = storable n"
  by (simp add: storable_def)

lemma row_progress_mtime [simp]: "row_progress (n\<lparr>mtime := t\<rparr>) = row_progress n"
  by (simp add: row_progress_def)

lemma row_inv_created:
  assumes "event_args a" "a_recipient a = Some r" "storable (row_of_args i now r a)"
  shows "row_inv (row_of_args i now r a)"
proof -
  from assms(1,2) have "row_origin (row_of_args i now r a)"
    unfolding event_args_def row_origin_def row_of_args_def by fastforce
  moreover from assms(1) have "row_progress (row_of_args i now r a)"
    unfolding event_args_def
    by (auto simp: row_progress_def row_of_args_def status_enum.value_inject
        simp del: status_value.simps)
  ultimately show ?thesis using assms(3) by (simp add: row_inv_def)
qed

lemma life_inv_inserted:
  assumes inv: "life_inv tbl" and a: "event_args a" and ins: "inserted a i tbl tbl'"
  shows "life_inv tbl'"
proof -
  from ins obtain now r where r: "a_recipient a = Some r" "storable (row_of_args i now r a)"
    and tbl': "tbl' = tbl(i \<mapsto> row_of_args i now r a)"
    unfolding inserted_def by blast
  have "row_inv n" if "tbl' j = Some n" for j n
    using that inv row_inv_created [OF a r] unfolding tbl' life_inv_def
    by (auto split: if_splits)
  with inv ins show ?thesis by (auto simp: life_inv_def intro: table_ok_inserted)
qed

lemma life_inv_updated:
  assumes inv: "life_inv tbl" and upd: "updated i as tbl tbl'"
    and keep: "\<And>n. tbl i = Some n \<Longrightarrow> row_progress n \<Longrightarrow> row_progress (set_attrs as n)"
  shows "life_inv tbl'"
proof -
  from upd obtain n t where n: "tbl i = Some n" "storable (set_attrs as n)"
    and tbl': "tbl' = tbl(i \<mapsto> (set_attrs as n)\<lparr>mtime := t\<rparr>)"
    unfolding updated_def by blast
  from inv n(1) have "row_inv n" by (simp add: life_inv_def)
  then have "row_progress (set_attrs as n)" "row_origin n"
    by (auto simp: row_inv_def intro: keep [OF n(1)])
  with n(2) have "row_inv ((set_attrs as n)\<lparr>mtime := t\<rparr>)"
    by (simp add: row_inv_def)
  then have "row_inv m" if "tbl' j = Some m" for j m
    using that inv unfolding tbl' life_inv_def by (auto split: if_splits)
  with inv upd show ?thesis by (auto simp: life_inv_def intro: table_ok_updated)
qed

text \<open>Every write of the life cycle keeps the invariant.\<close>

lemma row_progress_queued:
  "row_progress n \<Longrightarrow> row_progress (set_attrs [Status (status_value QUEUED)] n)"
  unfolding row_progress_def
  by (simp add: status_enum.value_inject del: status_value.simps)

lemma row_progress_sent:
  "row_progress n \<Longrightarrow>
   row_progress (set_attrs [Status (status_value SENT), External_id (Some x), Stime (Some t)] n)"
  unfolding row_progress_def
  by (simp add: status_enum.value_inject del: status_value.simps)

lemma row_progress_failed:
  "row_progress n \<Longrightarrow>
   row_progress (set_attrs [Status (status_value FAILED), Error_code (Some (error_value e))] n)"
  unfolding row_progress_def
  by (simp add: status_enum.value_inject del: status_value.simps error_value.simps)

lemma row_progress_retrying:
  "row_progress n \<Longrightarrow> retry_count n < 3 \<Longrightarrow> e \<in> RETRYABLE_ERROR_CODES \<Longrightarrow>
   row_progress (set_attrs [Status (status_value RETRYING), Retry_count (retry_count n + 1),
     Error_code (Some (error_value e))] n)"
  unfolding row_progress_def
  by (simp add: status_enum.value_inject error_enum.value_inject
      del: status_value.simps error_value.simps)

lemma row_progress_requeued:
  "row_progress n \<Longrightarrow>
   row_progress (set_attrs [Status (status_value PENDING), Retry_count (retry_count n + 1),
     Error_code None, Next_retry_time None] n)"
  unfolding row_progress_def
  by (simp add: status_enum.value_inject del: status_value.simps error_value.simps)

lemma life_write_inv:
  assumes "life_write tbl tbl'" "life_inv tbl"
  shows "life_inv tbl'"
  using assms(1)
proof cases
  case (created a i)
  then show ?thesis by (rule life_inv_inserted [OF assms(2)])
next
  case (queued i)
  then show ?thesis
    by (rule life_inv_updated [OF assms(2)]) (rule row_progress_queued)
next
  case (sent i x t)
  then show ?thesis
    by (rule life_inv_updated [OF assms(2)]) (rule row_progress_sent)
next
  case (failed i e)
  then show ?thesis
    by (rule life_inv_updated [OF assms(2)]) (rule row_progress_failed)
next
  case (retrying i n e)
  have "row_progress m \<Longrightarrow> row_progress (set_attrs [Status (status_value RETRYING),
      Retry_count (retry_count n + 1), Error_code (Some (error_value e))] m)"
    if "tbl i = Some m" for m
    using that retrying(1) row_progress_retrying [OF _ retrying(2,3)] by simp
  with retrying(4) show ?thesis by (rule life_inv_updated [OF assms(2)])
next
  case (requeued i n)
  have "row_progress m \<Longrightarrow> row_progress (set_attrs [Status (status_value PENDING),
      Retry_count (retry_count n + 1), Error_code None, Next_retry_time None] m)"
    if "tbl i = Some m" for m
    using that requeued(1) row_progress_requeued [of n] by simp
  with requeued(4) show ?thesis by (rule life_inv_updated [OF assms(2)])
qed

lemma life_writes_inv: "life_write\<^sup>*\<^sup>* tbl tbl' \<Longrightarrow> life_inv tbl \<Longrightarrow> life_inv tbl'"
  by (induction rule: rtranclp_induct) (auto intro: life_write_inv)

text \<open>What never changes in a row once it is there, and that no row is ever lost.\<close>

definition same_origin :: "notification \<Rightarrow> notification \<Rightarrow> bool" where
  "same_origin m n \<longleftrightarrow>
     nid n = nid m \<and> idempotency_key n = idempotency_key m \<and> source_service n = source_service m \<and>
     event_type n = event_type m \<and> channel n = channel m \<and> recipient n = recipient m \<and>
     priority n = priority m \<and> content n = content m \<and> ctime n = ctime m \<and>
     retry_count m \<le> retry_count n"

lemma same_origin_refl [simp]: "same_origin n n"
  by (simp add: same_origin_def)

lemma same_origin_trans: "same_origin l m \<Longrightarrow> same_origin m n \<Longrightarrow> same_origin l n"
  by (simp add: same_origin_def)

lemma updated_origin:
  assumes "updated i as tbl tbl'" "tbl j = Some m"
    and "\<And>n. tbl i = Some n \<Longrightarrow> retry_count n \<le> retry_count (set_attrs as n)"
  shows "\<exists>n. tbl' j = Some n \<and> same_origin m n"
  using assms by (cases "j = i") (auto simp: updated_def same_origin_def)

lemma life_write_origin:
  assumes "life_write tbl tbl'" "tbl j = Some m"
  shows "\<exists>n. tbl' j = Some n \<and> same_origin m n"
proof -
  from assms(1) consider (new) a i where "inserted a i tbl tbl'"
    | (upd) i as where "updated i as tbl tbl'"
      "\<And>n. tbl i = Some n \<Longrightarrow> retry_count n \<le> retry_count (set_attrs as n)"
    by cases (fastforce+)
  then show ?thesis
  proof cases
    case new
    with assms(2) show ?thesis by (auto simp: inserted_def)
  next
    case upd
    from upd(1) assms(2) upd(2) show ?thesis by (rule updated_origin)
  qed
qed

lemma life_writes_origin:
  "life_write\<^sup>*\<^sup>* tbl tbl' \<Longrightarrow> tbl j = Some m \<Longrightarrow> \<exists>n. tbl' j = Some n \<and> same_origin m n"
proof (induction rule: rtranclp_induct)
  case (step y z)
  then show ?case by (meson life_write_origin same_origin_trans)
qed simp

end
