(* ===== verification/Queue_Service.thy ===== *)
theory Queue_Service
  imports Services
begin

text \<open>
  \<open>app/services/queue_service.py\<close>: the priority queue over a Redis sorted set, and the
  publication of retries to RabbitMQ over a cached connection and channel. A
  \<open>QueueService\<close> object is its state \<open>qsvc\<close>: what its Redis client and its AMQP client
  talk to, the two cached handles, and the host's clock. The locale \<open>work_queue\<close> states what
  producers and workers rely on and is interpreted on the queue's operations.
\<close>

section \<open>The object and its parts\<close>

record ('r, 'q) qsvc =
  svc_redis :: 'r
  svc_amqp :: 'q
  rmq_connection :: "nat option"
  rmq_channel :: "nat option"
  svc_host :: host

definition on_redis :: "('r, 'a) io \<Rightarrow> (('r, 'q) qsvc, 'a) io" where
  "on_redis = io_zoom svc_redis (\<lambda>r s. s\<lparr>svc_redis := r\<rparr>)"

definition on_amqp :: "('q, 'a) io \<Rightarrow> (('r, 'q) qsvc, 'a) io" where
  "on_amqp = io_zoom svc_amqp (\<lambda>q s. s\<lparr>svc_amqp := q\<rparr>)"

definition on_host :: "(host, 'a) io \<Rightarrow> (('r, 'q) qsvc, 'a) io" where
  "on_host = io_zoom svc_host (\<lambda>h s. s\<lparr>svc_host := h\<rparr>)"

definition QUEUE_KEY :: string where
  "QUEUE_KEY = ''notification:queue''"

definition RETRY_QUEUE :: string where
  "RETRY_QUEUE = ''notification.retry''"

definition RETRY_EXCHANGE :: string where
  "RETRY_EXCHANGE = ''notification.retry.exchange''"

section \<open>Publishing retries\<close>

text \<open>
  \<open>get_rabbitmq_channel\<close>: a new connection and channel when there is none or it is closed, a
  new channel when only that is missing, else the cached one. Any exception drops both handles and
  is raised again.
\<close>

definition connect_and_open :: "'q amqp \<Rightarrow> (('r, 'q) qsvc, unit) io" where
  "connect_and_open A =
     io_bind (on_amqp (q_connect A)) (\<lambda>c.
     io_bind (io_modify (\<lambda>s. s\<lparr>rmq_connection := Some c\<rparr>)) (\<lambda>_.
     io_bind (on_amqp (q_open_channel A c)) (\<lambda>ch.
     io_modify (\<lambda>s. s\<lparr>rmq_channel := Some ch\<rparr>))))"

definition reopen_channel :: "'q amqp \<Rightarrow> nat \<Rightarrow> (('r, 'q) qsvc, unit) io" where
  "reopen_channel A c =
     io_bind (on_amqp (q_open_channel A c)) (\<lambda>ch.
     io_modify (\<lambda>s. s\<lparr>rmq_channel := Some ch\<rparr>))"

definition get_rabbitmq_channel :: "'q amqp \<Rightarrow> (('r, 'q) qsvc, nat option) io" where
  "get_rabbitmq_channel A =
     io_try
       (io_bind (io_gets rmq_connection) (\<lambda>conn.
        io_bind
          (case conn of
             None \<Rightarrow> connect_and_open A
           | Some c \<Rightarrow>
               io_bind (on_amqp (q_conn_is_closed A c)) (\<lambda>closed.
               if closed then connect_and_open A
               else
                 io_bind (io_gets rmq_channel) (\<lambda>chan.
                 case chan of
                   None \<Rightarrow> reopen_channel A c
                 | Some ch \<Rightarrow>
                     io_bind (on_amqp (q_chan_is_closed A ch)) (\<lambda>chan_closed.
                     if chan_closed then reopen_channel A c else io_return ()))))
          (\<lambda>_. io_gets rmq_channel)))
       (\<lambda>e. io_bind (io_modify (\<lambda>s. s\<lparr>rmq_connection := None, rmq_channel := None\<rparr>)) (\<lambda>_.
             io_raise e))"

definition retry_message :: "int \<Rightarrow> int \<Rightarrow> amqp_message" where
  "retry_message i delay_seconds =
     \<lparr>m_body = Body_text (str_of_int i), m_persistent = True,
      m_expiration = Some delay_seconds, m_content_type = None\<rparr>"

text \<open>\<open>publish_retry\<close>: declare the retry queue, then publish through the default exchange.\<close>

definition publish_on :: "'q amqp \<Rightarrow> nat \<Rightarrow> int \<Rightarrow> int \<Rightarrow> (('r, 'q) qsvc, bool) io" where
  "publish_on A ch i delay_seconds =
     io_bind (on_amqp (q_declare_queue A ch RETRY_QUEUE (Some RETRY_EXCHANGE))) (\<lambda>_.
     io_bind (on_amqp (q_publish A ch '''' RETRY_QUEUE (retry_message i delay_seconds))) (\<lambda>_.
     io_return True))"

definition publish_retry :: "'q amqp \<Rightarrow> int \<Rightarrow> int \<Rightarrow> (('r, 'q) qsvc, bool) io" where
  "publish_retry A i delay_seconds =
     io_try
       (io_bind (get_rabbitmq_channel A) (\<lambda>channel_obj.
        case channel_obj of
          None \<Rightarrow> io_raise AttributeError
        | Some ch \<Rightarrow> publish_on A ch i delay_seconds))
       (\<lambda>_. io_return False)"

definition close_rabbitmq :: "'q amqp \<Rightarrow> (('r, 'q) qsvc, unit) io" where
  "close_rabbitmq A =
     io_try
       (io_bind (io_gets rmq_connection) (\<lambda>conn.
        case conn of
          None \<Rightarrow> io_return ()
        | Some c \<Rightarrow>
            io_bind (on_amqp (q_conn_is_closed A c)) (\<lambda>closed.
            if closed then io_return ()
            else
              io_bind (on_amqp (q_close A c)) (\<lambda>_.
              io_modify (\<lambda>s. s\<lparr>rmq_connection := None, rmq_channel := None\<rparr>)))))
       (\<lambda>_. io_return ())"

section \<open>The priority queue\<close>

definition queue_score :: "int \<Rightarrow> int \<Rightarrow> int" where
  "queue_score p timestamp_ms = p * 10 ^ 12 + timestamp_ms"

definition enqueue :: "'r redis \<Rightarrow> int \<Rightarrow> int \<Rightarrow> (('r, 'q) qsvc, bool) io" where
  "enqueue R i p =
     io_try
       (io_bind (on_host host_timestamp_ms) (\<lambda>timestamp_ms.
        io_bind (on_redis (r_zadd_nx R QUEUE_KEY (str_of_int i) (queue_score p timestamp_ms))) (\<lambda>_.
        io_return True)))
       (\<lambda>_. io_return False)"

text \<open>
  \<open>dequeue\<close>: \<open>BZPOPMIN\<close> with one second of waiting. A member that is no number raises,
  after it was popped, and is dropped like a failed command.
\<close>

definition dequeue :: "'r redis \<Rightarrow> (('r, 'q) qsvc, int option) io" where
  "dequeue R =
     io_try
       (io_bind (on_redis (r_bzpopmin R QUEUE_KEY 1)) (\<lambda>result.
        case result of
          None \<Rightarrow> io_return None
        | Some (_, member, _) \<Rightarrow>
            (case int_of_str member of
               None \<Rightarrow> io_raise ValueError
             | Some i \<Rightarrow> io_return (Some i))))
       (\<lambda>_. io_return None)"

definition queue_depth :: "'r redis \<Rightarrow> (('r, 'q) qsvc, int) io" where
  "queue_depth R = io_try (on_redis (r_zcard R QUEUE_KEY)) (\<lambda>_. io_return 0)"

definition queue_remove :: "'r redis \<Rightarrow> int \<Rightarrow> (('r, 'q) qsvc, unit) io" where
  "queue_remove R i =
     io_try (on_redis (r_zrem R QUEUE_KEY (str_of_int i))) (\<lambda>_. io_return ())"

section \<open>The order the scores induce\<close>

text \<open>
  Between two times less than \<open>10 ^ 12\<close> milliseconds (31 years) apart, the score orders by
  priority first and by time second.
\<close>

lemma queue_score_less:
  assumes "\<bar>t - u\<bar> < 10 ^ 12"
  shows "queue_score p t < queue_score q u \<longleftrightarrow> p < q \<or> (p = q \<and> t < u)"
proof -
  consider "p + 1 \<le> q" | "p = q" | "q + 1 \<le> p" by linarith
  then show ?thesis
  proof cases
    case 1
    then have "(p + 1) * 10 ^ 12 \<le> q * 10 ^ 12" by simp
    with assms 1 show ?thesis by (simp add: queue_score_def algebra_simps)
  next
    case 3
    then have "(q + 1) * 10 ^ 12 \<le> p * 10 ^ 12" by simp
    with assms 3 show ?thesis by (simp add: queue_score_def algebra_simps)
  qed (simp add: queue_score_def)
qed

lemma queue_score_exact:
  assumes "0 \<le> p" "p \<le> 4" "0 \<le> t" "t < 10 ^ 15"
  shows "exact_score (queue_score p t)"
proof -
  have "0 \<le> p * 10 ^ 12" "p * 10 ^ 12 \<le> 4 * 10 ^ 12" using assms(1,2) by simp_all
  with assms(3,4) show ?thesis by (simp add: exact_score_def queue_score_def)
qed

section \<open>The contract of a work queue\<close>

text \<open>The results of taking from a queue \<open>n\<close> times in a row.\<close>

fun drain :: "('s, int option) io \<Rightarrow> nat \<Rightarrow> 's \<Rightarrow> int option list" where
  "drain take_one 0 s = []"
| "drain take_one (Suc n) s =
     (case take_one s of
        (Inr r, s') \<Rightarrow> r # drain take_one n s'
      | (Inl _, s') \<Rightarrow> drain take_one n s')"

text \<open>
  \<open>entries\<close> lists what is queued, an id with its score, in the order it is handed out.
  \<open>stamp\<close> is the score the next \<open>enq\<close> with a priority gets. While the queue answers
  (\<open>ready\<close>), \<open>enq\<close> adds an id unless it is there, and \<open>deq\<close> hands out the first entry;
  when it does not, an operation still never raises and at most its own effect has happened.
\<close>

locale work_queue =
  fixes good :: "'h \<Rightarrow> bool"
    and enq :: "'h \<Rightarrow> int \<Rightarrow> int \<Rightarrow> ('s, bool) io"
    and deq :: "'h \<Rightarrow> ('s, int option) io"
    and depth :: "'h \<Rightarrow> ('s, int) io"
    and entries :: "'h \<Rightarrow> 's \<Rightarrow> (int \<times> int) list"
    and stamp :: "'s \<Rightarrow> int \<Rightarrow> int"
    and ready :: "'h \<Rightarrow> 's \<Rightarrow> bool"
    and invar :: "'h \<Rightarrow> 's \<Rightarrow> bool"
  assumes entries_ordered: "good h \<Longrightarrow> invar h s \<Longrightarrow>
      sorted (map snd (entries h s)) \<and> distinct (map fst (entries h s))"
    and enq_effect: "good h \<Longrightarrow> invar h s \<Longrightarrow> exact_score (stamp s p) \<Longrightarrow> enq h i p s = (x, s') \<Longrightarrow>
      invar h s' \<and> (\<exists>b. x = Inr b) \<and>
      (entries h s' = entries h s \<or>
       i \<notin> fst ` set (entries h s) \<and> set (entries h s') = insert (i, stamp s p) (set (entries h s)))"
    and enq_ready: "good h \<Longrightarrow> invar h s \<Longrightarrow> ready h s \<Longrightarrow> exact_score (stamp s p) \<Longrightarrow>
      enq h i p s = (x, s') \<Longrightarrow> ready h s' \<and> x = Inr True \<and>
      set (entries h s') =
        (if i \<in> fst ` set (entries h s) then set (entries h s)
         else insert (i, stamp s p) (set (entries h s)))"
    and deq_effect: "good h \<Longrightarrow> invar h s \<Longrightarrow> deq h s = (y, s') \<Longrightarrow>
      invar h s' \<and> (\<exists>r. y = Inr r) \<and>
      (entries h s' = entries h s \<or> entries h s' = tl (entries h s))"
    and deq_ready: "good h \<Longrightarrow> invar h s \<Longrightarrow> ready h s \<Longrightarrow> deq h s = (y, s') \<Longrightarrow>
      ready h s' \<and> entries h s' = tl (entries h s) \<and>
      y = Inr (case entries h s of [] \<Rightarrow> None | e # _ \<Rightarrow> Some (fst e))"
    and depth_ready: "good h \<Longrightarrow> invar h s \<Longrightarrow> ready h s \<Longrightarrow> depth h s = (z, s') \<Longrightarrow>
      z = Inr (int (length (entries h s))) \<and> entries h s' = entries h s"
begin

text \<open>The id handed out has the least score of all queued ids.\<close>

lemma deq_least:
  assumes "good h" "invar h s" "ready h s" "deq h s = (Inr (Some i), s')"
  obtains sc where "(i, sc) \<in> set (entries h s)"
    "\<And>j sc'. (j, sc') \<in> set (entries h s) \<Longrightarrow> sc \<le> sc'"
    "set (entries h s') = set (entries h s) - {(i, sc)}"
proof -
  from deq_ready [OF assms] obtain e es where e: "entries h s = e # es" "i = fst e"
    and s': "entries h s' = es"
    by (cases "entries h s") auto
  from entries_ordered [OF assms(1,2)] e have "e \<notin> set es" "\<forall>f \<in> set es. snd e \<le> snd f"
    by auto
  with e s' show thesis by (intro that [of "snd e"]) auto
qed

text \<open>An id that is queued already keeps its place.\<close>

lemma enq_idempotent:
  assumes "good h" "invar h s" "exact_score (stamp s p)" "i \<in> fst ` set (entries h s)"
    "enq h i p s = (x, s')"
  shows "entries h s' = entries h s"
  using enq_effect [OF assms(1,2,3,5)] assms(4) by blast

text \<open>Nothing that is queued disappears but by being handed out.\<close>

lemma enq_keeps:
  assumes "good h" "invar h s" "exact_score (stamp s p)" "enq h i p s = (x, s')"
  shows "set (entries h s) \<subseteq> set (entries h s')"
  using enq_effect [OF assms] by auto

text \<open>Taking as many as there are hands out every queued id once, in the order of the scores.\<close>

lemma drain_entries:
  assumes "good h" "invar h s" "ready h s"
  shows "drain (deq h) (length (entries h s)) s = map (\<lambda>e. Some (fst e)) (entries h s)"
  using assms(2,3)
proof (induction "entries h s" arbitrary: s)
  case Nil
  from Nil(1) [symmetric] show ?case by simp
next
  case (Cons e es)
  obtain y s' where run: "deq h s = (y, s')" by (cases "deq h s")
  note entries = Cons.hyps(2) [symmetric]
  from deq_ready [OF assms(1) Cons.prems run] entries
  have s': "ready h s'" "entries h s' = es" "y = Inr (Some (fst e))" by simp_all
  moreover have "invar h s'" using deq_effect [OF assms(1) Cons.prems(1) run] by blast
  ultimately have "drain (deq h) (length es) s' = map (\<lambda>e. Some (fst e)) es"
    using Cons.hyps(1) [of s'] by simp
  with run s' entries show ?case by simp
qed

end

section \<open>The queue service meets it\<close>

definition queue_entries :: "'r redis \<Rightarrow> ('r, 'q) qsvc \<Rightarrow> (int \<times> int) list" where
  "queue_entries R s =
     map (\<lambda>e. (the (int_of_str (fst e)), snd e)) (r_zset R (svc_redis s) QUEUE_KEY)"

definition queue_stamp :: "('r, 'q) qsvc \<Rightarrow> int \<Rightarrow> int" where
  "queue_stamp s p = queue_score p (h_clock (svc_host s) (h_tick (svc_host s)) div 1000)"

definition queue_ready :: "'r redis \<Rightarrow> ('r, 'q) qsvc \<Rightarrow> bool" where
  "queue_ready R s \<longleftrightarrow> r_up R (svc_redis s)"

definition queue_ids_ok :: "'r redis \<Rightarrow> ('r, 'q) qsvc \<Rightarrow> bool" where
  "queue_ids_ok R s \<longleftrightarrow> fst ` set (r_zset R (svc_redis s) QUEUE_KEY) \<subseteq> range str_of_int"

subsection \<open>Each operation is one command\<close>

definition tick_host :: "('r, 'q) qsvc \<Rightarrow> ('r, 'q) qsvc" where
  "tick_host s = s\<lparr>svc_host := (svc_host s)\<lparr>h_tick := Suc (h_tick (svc_host s))\<rparr>\<rparr>"

lemma tick_host_fields [simp]:
  "svc_redis (tick_host s) = svc_redis s" "svc_amqp (tick_host s) = svc_amqp s"
  "rmq_connection (tick_host s) = rmq_connection s" "rmq_channel (tick_host s) = rmq_channel s"
  by (simp_all add: tick_host_def)

lemma enqueue_run:
  "enqueue R i p s =
   (case r_zadd_nx R QUEUE_KEY (str_of_int i) (queue_stamp s p) (svc_redis s) of
      (y, r) \<Rightarrow> (Inr (\<not> isl y), (tick_host s)\<lparr>svc_redis := r\<rparr>))"
  by (cases "r_zadd_nx R QUEUE_KEY (str_of_int i) (queue_stamp s p) (svc_redis s)")
    (auto simp: enqueue_def io_try_def io_bind_def on_host_def on_redis_def io_zoom_def
      host_timestamp_ms_def queue_stamp_def tick_host_def io_return_def split: sum.splits)

lemma dequeue_run:
  "dequeue R s =
   (case r_bzpopmin R QUEUE_KEY 1 (svc_redis s) of
      (y, r) \<Rightarrow>
        (Inr (case y of Inr (Some e) \<Rightarrow> int_of_str (fst (snd e)) | _ \<Rightarrow> None),
         s\<lparr>svc_redis := r\<rparr>))"
  by (cases "r_bzpopmin R QUEUE_KEY 1 (svc_redis s)")
    (auto simp: dequeue_def io_try_def io_bind_def on_redis_def io_zoom_def io_return_def
      io_raise_def split: sum.splits option.splits)

lemma queue_depth_run:
  "queue_depth R s =
   (case r_zcard R QUEUE_KEY (svc_redis s) of
      (y, r) \<Rightarrow> (Inr (case y of Inr n \<Rightarrow> n | Inl _ \<Rightarrow> 0), s\<lparr>svc_redis := r\<rparr>))"
  by (cases "r_zcard R QUEUE_KEY (svc_redis s)")
    (auto simp: queue_depth_def io_try_def on_redis_def io_zoom_def io_return_def split: sum.splits)

lemma queue_remove_run:
  "queue_remove R i s =
   (case r_zrem R QUEUE_KEY (str_of_int i) (svc_redis s) of
      (y, r) \<Rightarrow> (Inr (case y of Inr u \<Rightarrow> u | Inl _ \<Rightarrow> ()), s\<lparr>svc_redis := r\<rparr>))"
  by (cases "r_zrem R QUEUE_KEY (str_of_int i) (svc_redis s)")
    (auto simp: queue_remove_def io_try_def on_redis_def io_zoom_def io_return_def split: sum.splits)

subsection \<open>The commands' laws, one at a time\<close>

lemma redis_laws_parts:
  assumes "redis_laws R"
  shows "redis_string_laws R" and "redis_zset_laws R" and "redis_up_laws R"
  using assms by (simp_all add: redis_laws_def)

lemma zset_law_wf: "redis_laws R \<Longrightarrow> zset_wf (r_zset R r k)"
  by (rule redis_laws_parts(2) [unfolded redis_zset_laws_def, THEN conjunct1, rule_format])

lemma zadd_law:
  assumes "redis_laws R" "r_zadd_nx R k m sc r = (x, r')"
  defines "new \<equiv> (r_zset R r)(k := zset_add_nx m sc (r_zset R r k))"
  shows "r_kv R r' = r_kv R r"
    and "exact_score sc \<Longrightarrow> r_zset R r' = new \<or> (isl x \<and> r_zset R r' = r_zset R r)"
proof -
  note law = redis_laws_parts(2) [OF assms(1), unfolded redis_zset_laws_def,
      THEN conjunct2, THEN conjunct1, THEN spec, THEN spec, THEN spec, THEN spec, THEN spec,
      THEN spec, THEN mp, OF assms(2)]
  show "r_kv R r' = r_kv R r" by (rule law [THEN conjunct1])
  show "r_zset R r' = new \<or> (isl x \<and> r_zset R r' = r_zset R r)" if "exact_score sc"
    using law [THEN conjunct2, THEN mp, OF that] unfolding new_def Let_def by (cases x) auto
qed

lemma bzpopmin_law:
  assumes "redis_laws R" "r_bzpopmin R k t r = (x, r')"
  defines "new \<equiv> (r_zset R r)(k := tl (r_zset R r k))"
  shows "r_kv R r' = r_kv R r"
    and "x = Inr None \<Longrightarrow> r_zset R r k = [] \<and> r_zset R r' = r_zset R r"
    and "x = Inr (Some e) \<Longrightarrow> r_zset R r k \<noteq> [] \<and> e = (k, hd (r_zset R r k)) \<and> r_zset R r' = new"
    and "r_zset R r' = r_zset R r \<or> r_zset R r' = new"
proof -
  note law = redis_laws_parts(2) [OF assms(1), unfolded redis_zset_laws_def,
      THEN conjunct2, THEN conjunct2, THEN conjunct1, THEN spec, THEN spec, THEN spec, THEN spec,
      THEN spec, THEN mp, OF assms(2)]
  show "r_kv R r' = r_kv R r" by (rule law [THEN conjunct1])
  show "x = Inr None \<Longrightarrow> r_zset R r k = [] \<and> r_zset R r' = r_zset R r"
    using law [THEN conjunct2] by (simp add: Let_def)
  show "x = Inr (Some e) \<Longrightarrow> r_zset R r k \<noteq> [] \<and> e = (k, hd (r_zset R r k)) \<and> r_zset R r' = new"
    using law [THEN conjunct2] unfolding new_def by (simp add: Let_def)
  show "r_zset R r' = r_zset R r \<or> r_zset R r' = new"
    using law [THEN conjunct2] unfolding new_def Let_def by (auto split: sum.splits option.splits)
qed

lemma zcard_law:
  assumes "redis_laws R" "r_zcard R k r = (x, r')"
  shows "r_zset R r' = r_zset R r" and "x = Inr n \<Longrightarrow> n = int (length (r_zset R r k))"
proof -
  note law = redis_laws_parts(2) [OF assms(1), unfolded redis_zset_laws_def,
      THEN conjunct2, THEN conjunct2, THEN conjunct2, THEN conjunct1, THEN spec, THEN spec,
      THEN spec, THEN spec, THEN mp, OF assms(2)]
  show "r_zset R r' = r_zset R r" by (rule law [THEN conjunct2, THEN conjunct1])
  show "x = Inr n \<Longrightarrow> n = int (length (r_zset R r k))"
    by (rule law [THEN conjunct2, THEN conjunct2, rule_format])
qed

lemma redis_up_law:
  assumes "redis_laws R" "r_up R r"
  shows "r_setnx R k v r = (x, r') \<Longrightarrow> r_up R r' \<and> (\<exists>b. x = Inr b)"
    and "0 < t \<Longrightarrow> r_expire R k t r = (y, r') \<Longrightarrow> r_up R r' \<and> y = Inr ()"
    and "r_zadd_nx R k m sc r = (y, r') \<Longrightarrow> r_up R r' \<and> y = Inr ()"
    and "r_bzpopmin R k t r = (z, r') \<Longrightarrow> r_up R r' \<and> (\<exists>e. z = Inr e)"
    and "r_zcard R k r = (w, r') \<Longrightarrow> r_up R r' \<and> (\<exists>n. w = Inr n)"
    and "r_zrem R k m r = (y, r') \<Longrightarrow> r_up R r' \<and> y = Inr ()"
proof -
  note law = redis_laws_parts(3) [OF assms(1), unfolded redis_up_laws_def, THEN spec, THEN mp, OF assms(2)]
  note law3 = law [THEN conjunct2, THEN conjunct2]
  note law5 = law3 [THEN conjunct2, THEN conjunct2]
  show "r_setnx R k v r = (x, r') \<Longrightarrow> r_up R r' \<and> (\<exists>b. x = Inr b)"
    by (rule law [THEN conjunct1, rule_format])
  show "0 < t \<Longrightarrow> r_expire R k t r = (y, r') \<Longrightarrow> r_up R r' \<and> y = Inr ()"
    by (rule law [THEN conjunct2, THEN conjunct1, rule_format])
  show "r_zadd_nx R k m sc r = (y, r') \<Longrightarrow> r_up R r' \<and> y = Inr ()"
    by (rule law3 [THEN conjunct1, rule_format])
  show "r_bzpopmin R k t r = (z, r') \<Longrightarrow> r_up R r' \<and> (\<exists>e. z = Inr e)"
    by (rule law3 [THEN conjunct2, THEN conjunct1, rule_format])
  show "r_zcard R k r = (w, r') \<Longrightarrow> r_up R r' \<and> (\<exists>n. w = Inr n)"
    by (rule law5 [THEN conjunct1, rule_format])
  show "r_zrem R k m r = (y, r') \<Longrightarrow> r_up R r' \<and> y = Inr ()"
    by (rule law5 [THEN conjunct2, rule_format])
qed

subsection \<open>Members and ids\<close>

lemma queue_entries_add:
  assumes "redis_laws R" "queue_ids_ok R s"
    "r_zset R r QUEUE_KEY = zset_add_nx (str_of_int i) sc (r_zset R (svc_redis s) QUEUE_KEY)"
    "svc_redis s' = r"
  shows "queue_ids_ok R s' \<and>
    (if i \<in> fst ` set (queue_entries R s) then queue_entries R s' = queue_entries R s
     else set (queue_entries R s') = insert (i, sc) (set (queue_entries R s)))"
proof -
  let ?z = "r_zset R (svc_redis s) QUEUE_KEY"
  have "str_of_int i \<in> fst ` set ?z \<longleftrightarrow> i \<in> fst ` set (queue_entries R s)"
    using assms(2) by (force simp: queue_ids_ok_def queue_entries_def image_iff subset_iff)
  moreover have "queue_ids_ok R s'"
    using assms(2-4) by (auto simp: queue_ids_ok_def set_zset_add_nx)
  ultimately show ?thesis
    using assms(3,4) by (auto simp: queue_entries_def set_zset_add_nx)
qed

lemma queue_entries_tl:
  assumes "queue_ids_ok R s" "r_zset R r QUEUE_KEY = tl (r_zset R (svc_redis s) QUEUE_KEY)"
    "svc_redis s' = r"
  shows "queue_ids_ok R s' \<and> queue_entries R s' = tl (queue_entries R s)"
  using assms by (cases "r_zset R (svc_redis s) QUEUE_KEY") (auto simp: queue_ids_ok_def queue_entries_def)

lemma queue_entries_same:
  assumes "queue_ids_ok R s" "r_zset R (svc_redis s') QUEUE_KEY = r_zset R (svc_redis s) QUEUE_KEY"
  shows "queue_ids_ok R s' \<and> queue_entries R s' = queue_entries R s"
  using assms by (simp add: queue_ids_ok_def queue_entries_def)
subsection \<open>The interpretation\<close>

lemma queue_entries_ordered:
  assumes "redis_laws R" "queue_ids_ok R s"
  shows "sorted (map snd (queue_entries R s)) \<and> distinct (map fst (queue_entries R s))"
proof -
  let ?z = "r_zset R (svc_redis s) QUEUE_KEY"
  have wf: "zset_wf ?z" by (rule zset_law_wf [OF assms(1)])
  then have "sorted_wrt (\<lambda>x y. zset_key x \<le> zset_key y) ?z"
    by (simp add: zset_wf_def sorted_map)
  then have "sorted_wrt (\<lambda>x y. snd x \<le> snd y) ?z"
    by (rule sorted_wrt_mono_rel [rotated]) (auto simp: zset_key_def less_eq_prod_def)
  then have sorted: "sorted (map snd (queue_entries R s))"
    by (simp add: queue_entries_def sorted_map sorted_wrt_map)
  have "inj_on (\<lambda>m. the (int_of_str m)) (range str_of_int)"
    by (rule inj_onI) auto
  then have "inj_on (\<lambda>m. the (int_of_str m)) (fst ` set ?z)"
    by (rule inj_on_subset) (rule assms(2) [unfolded queue_ids_ok_def])
  moreover have "distinct (map fst ?z)" using wf by (simp add: zset_wf_def)
  ultimately have "distinct (map (\<lambda>m. the (int_of_str m)) (map fst ?z))"
    by - (rule distinct_map [THEN iffD2, OF conjI], simp_all)
  then have "distinct (map fst (queue_entries R s))"
    by (simp add: queue_entries_def comp_def)
  with sorted show ?thesis ..
qed

lemma enqueue_effect:
  assumes "redis_laws R" "queue_ids_ok R s" "exact_score (queue_stamp s p)" "enqueue R i p s = (x, s')"
  shows "queue_ids_ok R s' \<and> (\<exists>b. x = Inr b) \<and>
      (queue_entries R s' = queue_entries R s \<or>
       i \<notin> fst ` set (queue_entries R s) \<and>
       set (queue_entries R s') = insert (i, queue_stamp s p) (set (queue_entries R s)))"
proof -
  obtain y r where run: "r_zadd_nx R QUEUE_KEY (str_of_int i) (queue_stamp s p) (svc_redis s) = (y, r)"
    by fastforce
  with assms(4) have x: "x = Inr (\<not> isl y)" and r: "svc_redis s' = r"
    by (auto simp: enqueue_run)
  from zadd_law(2) [OF assms(1) run assms(3)] show ?thesis
  proof
    assume "r_zset R r = (r_zset R (svc_redis s))(QUEUE_KEY :=
      zset_add_nx (str_of_int i) (queue_stamp s p) (r_zset R (svc_redis s) QUEUE_KEY))"
    then have "r_zset R r QUEUE_KEY =
      zset_add_nx (str_of_int i) (queue_stamp s p) (r_zset R (svc_redis s) QUEUE_KEY)" by simp
    from queue_entries_add [OF assms(1,2) this r] x show ?thesis by (auto split: if_splits)
  next
    assume "isl y \<and> r_zset R r = r_zset R (svc_redis s)"
    with r have "r_zset R (svc_redis s') QUEUE_KEY = r_zset R (svc_redis s) QUEUE_KEY" by simp
    from queue_entries_same [OF assms(2) this] x show ?thesis by auto
  qed
qed

lemma enqueue_ready:
  assumes "redis_laws R" "queue_ids_ok R s" "queue_ready R s" "exact_score (queue_stamp s p)"
    "enqueue R i p s = (x, s')"
  shows "queue_ready R s' \<and> x = Inr True \<and>
    set (queue_entries R s') =
      (if i \<in> fst ` set (queue_entries R s) then set (queue_entries R s)
       else insert (i, queue_stamp s p) (set (queue_entries R s)))"
proof -
  obtain y r where run: "r_zadd_nx R QUEUE_KEY (str_of_int i) (queue_stamp s p) (svc_redis s) = (y, r)"
    by fastforce
  from redis_up_law(3) [OF assms(1) assms(3) [unfolded queue_ready_def] run]
  have y: "r_up R r" "y = Inr ()" by simp_all
  from run assms(5) y have x: "x = Inr True" and r: "svc_redis s' = r"
    by (auto simp: enqueue_run)
  from zadd_law(2) [OF assms(1) run assms(4)] y have "r_zset R r QUEUE_KEY =
      zset_add_nx (str_of_int i) (queue_stamp s p) (r_zset R (svc_redis s) QUEUE_KEY)" by simp
  from queue_entries_add [OF assms(1,2) this r] x y r show ?thesis
    by (simp add: queue_ready_def split: if_splits)
qed

lemma dequeue_effect:
  assumes "redis_laws R" "queue_ids_ok R s" "dequeue R s = (x, s')"
  shows "queue_ids_ok R s' \<and> (\<exists>r. x = Inr r) \<and>
    (queue_entries R s' = queue_entries R s \<or> queue_entries R s' = tl (queue_entries R s))"
proof -
  obtain y r where run: "r_bzpopmin R QUEUE_KEY 1 (svc_redis s) = (y, r)" by fastforce
  with assms(3) have x: "\<exists>r. x = Inr r" and r: "svc_redis s' = r"
    by (auto simp: dequeue_run)
  from bzpopmin_law(4) [OF assms(1) run] r show ?thesis
    using queue_entries_tl [OF assms(2), of r s'] queue_entries_same [OF assms(2), of s'] x
    by auto
qed

lemma dequeue_ready:
  assumes "redis_laws R" "queue_ids_ok R s" "queue_ready R s" "dequeue R s = (x, s')"
  shows "queue_ready R s' \<and> queue_entries R s' = tl (queue_entries R s) \<and>
    x = Inr (case queue_entries R s of [] \<Rightarrow> None | e # _ \<Rightarrow> Some (fst e))"
proof -
  let ?z = "r_zset R (svc_redis s) QUEUE_KEY"
  obtain y r where run: "r_bzpopmin R QUEUE_KEY 1 (svc_redis s) = (y, r)" by fastforce
  from redis_up_law(4) [OF assms(1) assms(3) [unfolded queue_ready_def] run]
  obtain e where y: "r_up R r" "y = Inr e" by blast
  from run assms(4) y have x: "x = Inr (case e of None \<Rightarrow> None | Some e \<Rightarrow> int_of_str (fst (snd e)))"
    and r: "svc_redis s' = r" by (auto simp: dequeue_run split: option.splits)
  show ?thesis
  proof (cases e)
    case None
    with bzpopmin_law(2) [OF assms(1) run] y have "?z = []" "r_zset R r QUEUE_KEY = []" by simp_all
    with x r y None show ?thesis by (simp add: queue_ready_def queue_entries_def)
  next
    case (Some e')
    with bzpopmin_law(3) [OF assms(1) run] y
    have z: "?z \<noteq> []" "e' = (QUEUE_KEY, hd ?z)" "r_zset R r QUEUE_KEY = tl ?z" by simp_all
    then obtain m sc zs where cons: "?z = (m, sc) # zs" by (cases ?z) auto
    with assms(2) obtain i where "m = str_of_int i" by (auto simp: queue_ids_ok_def)
    with x r y z cons Some show ?thesis by (simp add: queue_ready_def queue_entries_def)
  qed
qed

lemma queue_depth_ready:
  assumes "redis_laws R" "queue_ready R s" "queue_depth R s = (x, s')"
  shows "x = Inr (int (length (queue_entries R s))) \<and> queue_entries R s' = queue_entries R s"
proof -
  obtain y r where run: "r_zcard R QUEUE_KEY (svc_redis s) = (y, r)" by fastforce
  from redis_up_law(5) [OF assms(1) assms(2) [unfolded queue_ready_def] run]
  obtain n where y: "y = Inr n" by blast
  from run assms(3) y zcard_law [OF assms(1) run] show ?thesis
    by (auto simp: queue_depth_run queue_entries_def)
qed

interpretation wq: work_queue redis_laws enqueue dequeue queue_depth queue_entries queue_stamp
    queue_ready queue_ids_ok
  by unfold_locales
    (rule queue_entries_ordered enqueue_effect enqueue_ready dequeue_effect dequeue_ready
      queue_depth_ready; assumption)+

subsection \<open>What the queue leaves alone\<close>

lemma enqueue_frame:
  assumes "redis_laws R" "enqueue R i p s = (x, s')"
  shows "r_kv R (svc_redis s') = r_kv R (svc_redis s) \<and> svc_amqp s' = svc_amqp s \<and>
    rmq_connection s' = rmq_connection s \<and> rmq_channel s' = rmq_channel s"
    and "r_up R (svc_redis s) \<Longrightarrow> r_up R (svc_redis s')"
proof -
  obtain y r where run: "r_zadd_nx R QUEUE_KEY (str_of_int i) (queue_stamp s p) (svc_redis s) = (y, r)"
    by fastforce
  with assms(2) zadd_law(1) [OF assms(1) run]
  show "r_kv R (svc_redis s') = r_kv R (svc_redis s) \<and> svc_amqp s' = svc_amqp s \<and>
    rmq_connection s' = rmq_connection s \<and> rmq_channel s' = rmq_channel s"
    by (auto simp: enqueue_run)
  show "r_up R (svc_redis s) \<Longrightarrow> r_up R (svc_redis s')"
    using assms(2) run redis_up_law(3) [OF assms(1) _ run] by (auto simp: enqueue_run)
qed

lemma dequeue_frame:
  assumes "redis_laws R" "dequeue R s = (x, s')"
  shows "r_kv R (svc_redis s') = r_kv R (svc_redis s) \<and> svc_amqp s' = svc_amqp s \<and>
    svc_host s' = svc_host s \<and> (\<exists>i. x = Inr i)"
proof -
  obtain y r where run: "r_bzpopmin R QUEUE_KEY 1 (svc_redis s) = (y, r)" by fastforce
  with assms(2) bzpopmin_law(1) [OF assms(1) run] show ?thesis by (auto simp: dequeue_run)
qed

end
