(* ===== verification/Providers.thy ===== *)
theory Providers
  imports Services
begin

text \<open>
  \<open>app/providers\<close>: the provider interface and its three mock implementations. A provider is
  a record of functions on a state \<open>'p\<close>; the locale \<open>provider_contract\<close> is what the
  abstract base class promises, and each mock is interpreted as one. The text of
  \<open>error_message\<close>, which no code reads, is left out of the results.
\<close>

section \<open>The interface\<close>

record provider_result =
  pr_success :: bool
  pr_external_id :: "string option"
  pr_error_code :: "int option"

record 'p provider =
  p_channel :: notification_channel
  p_send :: "string \<Rightarrow> json \<Rightarrow> ('p, provider_result) io"
  p_health_check :: "('p, bool) io"

text \<open>
  \<open>send\<close> never raises; a success carries the provider's id and a failure one of the error
  codes. The health check only looks.
\<close>

locale provider_contract =
  fixes send :: "string \<Rightarrow> json \<Rightarrow> ('p, provider_result) io"
    and health_check :: "('p, bool) io"
  assumes send_returns: "\<exists>r s'. send rcpt c s = (Inr r, s')"
    and failure_code: "send rcpt c s = (Inr r, s') \<Longrightarrow> \<not> pr_success r \<Longrightarrow>
      \<exists>e. pr_error_code r = Some (error_value e)"
    and success_id: "send rcpt c s = (Inr r, s') \<Longrightarrow> pr_success r \<Longrightarrow> \<exists>x. pr_external_id r = Some x"
    and health_looks: "\<exists>b. health_check s = (Inr b, s)"

definition provider_ok :: "'p provider \<Rightarrow> bool" where
  "provider_ok p \<longleftrightarrow> provider_contract (p_send p) (p_health_check p)"

definition providers_ok :: "(notification_channel \<Rightarrow> 'p provider option) \<Rightarrow> bool" where
  "providers_ok providers \<longleftrightarrow> (\<forall>c p. providers c = Some p \<longrightarrow> provider_ok p)"

lemma providers_okD: "providers_ok providers \<Longrightarrow> providers c = Some p \<Longrightarrow> provider_ok p"
  by (simp add: providers_ok_def)

section \<open>The mock providers\<close>

text \<open>
  The state the mocks run on: the \<open>_healthy\<close> flag of each, the host they draw random numbers
  from, and what they log as sent (channel, recipient, external id).
\<close>

record mock_state =
  mk_healthy :: "notification_channel \<Rightarrow> bool"
  mk_host :: host
  mk_sent :: "(notification_channel \<times> string \<times> string) list"

definition mk_on_host :: "(host, 'a) io \<Rightarrow> (mock_state, 'a) io" where
  "mk_on_host = io_zoom mk_host (\<lambda>h s. s\<lparr>mk_host := h\<rparr>)"

definition sent_result :: "string \<Rightarrow> provider_result" where
  "sent_result ext_id = \<lparr>pr_success = True, pr_external_id = Some ext_id, pr_error_code = None\<rparr>"

definition failed_result :: "notification_error_code \<Rightarrow> provider_result" where
  "failed_result e = \<lparr>pr_success = False, pr_external_id = None, pr_error_code = Some (error_value e)\<rparr>"

text \<open>The except clauses every mock ends with.\<close>

definition mock_except :: "py_exn \<Rightarrow> (mock_state, provider_result) io" where
  "mock_except e =
     (if e = TimeoutError then io_return (failed_result TIMEOUT)
      else if e = ConnectionError then io_return (failed_result PROVIDER_DOWN)
      else io_return (failed_result UNKNOWN))"

definition log_sent :: "notification_channel \<Rightarrow> string \<Rightarrow> string \<Rightarrow> (mock_state, unit) io" where
  "log_sent c rcpt ext_id =
     io_modify (\<lambda>s. s\<lparr>mk_sent := mk_sent s @ [(c, rcpt, ext_id)]\<rparr>)"

definition email_send :: "real \<Rightarrow> string \<Rightarrow> json \<Rightarrow> (mock_state, provider_result) io" where
  "email_send failure_rate rcpt body =
     io_try
       (io_bind (io_gets (\<lambda>s. mk_healthy s EMAIL)) (\<lambda>healthy.
        if \<not> healthy then io_raise ConnectionError
        else
          io_bind (mk_on_host host_random_unit) (\<lambda>u.
          if u < failure_rate then io_raise TimeoutError
          else
            io_bind (mk_on_host host_uuid8) (\<lambda>hex.
            let ext_id = ''mock-email-'' @ hex in
            io_bind (log_sent EMAIL rcpt ext_id) (\<lambda>_.
            io_return (sent_result ext_id))))))
       mock_except"

definition sms_send :: "real \<Rightarrow> string \<Rightarrow> json \<Rightarrow> (mock_state, provider_result) io" where
  "sms_send failure_rate rcpt body =
     io_try
       (io_bind (io_gets (\<lambda>s. mk_healthy s SMS)) (\<lambda>healthy.
        if \<not> healthy then io_raise ConnectionError
        else if take 1 rcpt \<noteq> ''+'' then io_return (failed_result INVALID_RECIPIENT)
        else
          io_bind (mk_on_host host_random_unit) (\<lambda>u.
          if u < failure_rate then io_raise TimeoutError
          else
            io_bind (mk_on_host host_uuid8) (\<lambda>hex.
            let ext_id = ''mock-sms-'' @ hex in
            io_bind (log_sent SMS rcpt ext_id) (\<lambda>_.
            io_return (sent_result ext_id))))))
       mock_except"

definition push_send :: "real \<Rightarrow> string \<Rightarrow> json \<Rightarrow> (mock_state, provider_result) io" where
  "push_send failure_rate rcpt body =
     io_try
       (io_bind (io_gets (\<lambda>s. mk_healthy s PUSH)) (\<lambda>healthy.
        if \<not> healthy then io_raise ConnectionError
        else
          io_bind (mk_on_host host_random_unit) (\<lambda>u.
          if u < 5 / 100 then io_return (failed_result INVALID_TOKEN)
          else
            io_bind (mk_on_host host_random_unit) (\<lambda>v.
            if v < failure_rate then io_raise TimeoutError
            else
              io_bind (mk_on_host host_uuid8) (\<lambda>hex.
              let ext_id = ''mock-push-'' @ hex in
              io_bind (log_sent PUSH rcpt ext_id) (\<lambda>_.
              io_return (sent_result ext_id)))))))
       mock_except"

definition mock_health_check :: "notification_channel \<Rightarrow> (mock_state, bool) io" where
  "mock_health_check c = io_gets (\<lambda>s. mk_healthy s c)"

definition simulate_downtime :: "notification_channel \<Rightarrow> (mock_state, unit) io" where
  "simulate_downtime c = io_modify (\<lambda>s. s\<lparr>mk_healthy := (mk_healthy s)(c := False)\<rparr>)"

definition simulate_recovery :: "notification_channel \<Rightarrow> (mock_state, unit) io" where
  "simulate_recovery c = io_modify (\<lambda>s. s\<lparr>mk_healthy := (mk_healthy s)(c := True)\<rparr>)"

text \<open>The classes for SMS and push repeat the three methods.\<close>

definition sms_health_check :: "(mock_state, bool) io" where
  [simp]: "sms_health_check = mock_health_check SMS"

definition sms_simulate_downtime :: "(mock_state, unit) io" where
  [simp]: "sms_simulate_downtime = simulate_downtime SMS"

definition sms_simulate_recovery :: "(mock_state, unit) io" where
  [simp]: "sms_simulate_recovery = simulate_recovery SMS"

definition push_health_check :: "(mock_state, bool) io" where
  [simp]: "push_health_check = mock_health_check PUSH"

definition push_simulate_downtime :: "(mock_state, unit) io" where
  [simp]: "push_simulate_downtime = simulate_downtime PUSH"

definition push_simulate_recovery :: "(mock_state, unit) io" where
  [simp]: "push_simulate_recovery = simulate_recovery PUSH"

text \<open>The \<open>providers\<close> dict of \<open>app/main.py\<close>.\<close>

definition mock_email_provider :: "real \<Rightarrow> mock_state provider" where
  "mock_email_provider rate =
     \<lparr>p_channel = EMAIL, p_send = email_send rate, p_health_check = mock_health_check EMAIL\<rparr>"

definition mock_sms_provider :: "real \<Rightarrow> mock_state provider" where
  "mock_sms_provider rate =
     \<lparr>p_channel = SMS, p_send = sms_send rate, p_health_check = sms_health_check\<rparr>"

definition mock_push_provider :: "real \<Rightarrow> mock_state provider" where
  "mock_push_provider rate =
     \<lparr>p_channel = PUSH, p_send = push_send rate, p_health_check = push_health_check\<rparr>"

definition main_providers :: "notification_channel \<Rightarrow> mock_state provider option" where
  "main_providers =
     map_of [(EMAIL, mock_email_provider (1 / 10)),
             (SMS,   mock_sms_provider (1 / 10)),
             (PUSH,  mock_push_provider (1 / 10))]"

section \<open>The mocks keep the contract\<close>

text \<open>
  Every outcome of a mock: a failure with a code, and nothing logged; or a success under a new
  id, logged once under the mock's channel.
\<close>

definition mock_outcome ::
  "notification_channel \<Rightarrow> string \<Rightarrow> mock_state \<Rightarrow> provider_result \<Rightarrow> mock_state \<Rightarrow> bool"
where
  "mock_outcome c rcpt s r s' \<longleftrightarrow>
     mk_healthy s' = mk_healthy s \<and>
     ((\<exists>e. r = failed_result e \<and> mk_sent s' = mk_sent s) \<or>
      (\<exists>x. mk_healthy s c \<and> r = sent_result x \<and> mk_sent s' = mk_sent s @ [(c, rcpt, x)]))"

lemmas mock_run_defs =
  io_try_def io_bind_def io_gets_def io_raise_def io_return_def io_modify_def io_zoom_def
  mk_on_host_def host_random_unit_def host_uuid8_def log_sent_def mock_except_def Let_def

lemma email_send_outcome: "\<exists>r s'. email_send rate rcpt c s = (Inr r, s') \<and> mock_outcome EMAIL rcpt s r s'"
  by (auto simp: email_send_def mock_run_defs mock_outcome_def)

lemma sms_send_outcome: "\<exists>r s'. sms_send rate rcpt c s = (Inr r, s') \<and> mock_outcome SMS rcpt s r s'"
  by (auto simp: sms_send_def mock_run_defs mock_outcome_def)

lemma push_send_outcome: "\<exists>r s'. push_send rate rcpt c s = (Inr r, s') \<and> mock_outcome PUSH rcpt s r s'"
  by (auto simp: push_send_def mock_run_defs mock_outcome_def)

lemma mock_contract:
  assumes "\<And>rcpt c s. \<exists>r s'. send rcpt c s = (Inr r, s') \<and> mock_outcome ch rcpt s r s'"
  shows "provider_contract send (mock_health_check ch)"
proof
  fix rcpt c s
  from assms [of rcpt c s] show "\<exists>r s'. send rcpt c s = (Inr r, s')" by blast
next
  fix rcpt c s r s'
  assume "send rcpt c s = (Inr r, s')"
  with assms [of rcpt c s] have out: "mock_outcome ch rcpt s r s'" by auto
  then show "\<exists>e. pr_error_code r = Some (error_value e)" if "\<not> pr_success r"
    using that by (auto simp: mock_outcome_def failed_result_def sent_result_def)
  from out show "\<exists>x. pr_external_id r = Some x" if "pr_success r"
    using that by (auto simp: mock_outcome_def failed_result_def sent_result_def)
qed (simp add: mock_health_check_def io_gets_def)

interpretation email_mock: provider_contract "email_send rate" "mock_health_check EMAIL" for rate
  by (rule mock_contract) (rule email_send_outcome)

interpretation sms_mock: provider_contract "sms_send rate" "mock_health_check SMS" for rate
  by (rule mock_contract) (rule sms_send_outcome)

interpretation push_mock: provider_contract "push_send rate" "mock_health_check PUSH" for rate
  by (rule mock_contract) (rule push_send_outcome)

lemma main_providers_simps [simp]:
  "main_providers EMAIL = Some (mock_email_provider (1 / 10))"
  "main_providers SMS = Some (mock_sms_provider (1 / 10))"
  "main_providers PUSH = Some (mock_push_provider (1 / 10))"
  by (simp_all add: main_providers_def)

lemma main_providers_ok: "main_providers c = Some p \<Longrightarrow> provider_ok p \<and> p_channel p = c"
  using email_mock.provider_contract_axioms sms_mock.provider_contract_axioms
    push_mock.provider_contract_axioms
  by (cases c)
    (auto simp: provider_ok_def mock_email_provider_def mock_sms_provider_def mock_push_provider_def)

lemma main_providers_contract: "providers_ok main_providers"
  using main_providers_ok by (auto simp: providers_ok_def)

text \<open>A mock that is down says so, and its \<open>send\<close> reports the provider down.\<close>

lemma mock_down:
  assumes "\<not> mk_healthy s c" "main_providers c = Some p"
  shows "p_health_check p s = (Inr False, s)"
    and "p_send p rcpt body s = (Inr (failed_result PROVIDER_DOWN), s)"
  using assms
  by (cases c; auto simp: mock_email_provider_def mock_sms_provider_def mock_push_provider_def
      mock_health_check_def email_send_def sms_send_def push_send_def mock_run_defs)+

text \<open>
  The switches of the mocks: from an outage until the recovery of its channel every health check
  says down and every send reports it, and the other channels do not notice.
\<close>

lemma simulated_outage:
  assumes "simulate_downtime c s = (x, s')" "main_providers d = Some p"
  shows "x = Inr ()" and "c = d \<Longrightarrow> p_health_check p s' = (Inr False, s')"
    and "c = d \<Longrightarrow> p_send p rcpt body s' = (Inr (failed_result PROVIDER_DOWN), s')"
    and "c \<noteq> d \<Longrightarrow> fst (p_health_check p s') = fst (p_health_check p s)"
    and "fst (p_health_check p (snd (simulate_recovery d s'))) = Inr True"
proof -
  from assms(1) have x: "x = Inr ()" and s': "s' = s\<lparr>mk_healthy := (mk_healthy s)(c := False)\<rparr>"
    by (simp_all add: simulate_downtime_def io_modify_def)
  have check: "fst (p_health_check p t) = Inr (mk_healthy t d)" for t
    using assms(2)
    by (cases d) (auto simp: mock_email_provider_def mock_sms_provider_def mock_push_provider_def
        mock_health_check_def io_gets_def)
  show "x = Inr ()" by (rule x)
  show "c = d \<Longrightarrow> p_health_check p s' = (Inr False, s')"
    and "c = d \<Longrightarrow> p_send p rcpt body s' = (Inr (failed_result PROVIDER_DOWN), s')"
    using mock_down [OF _ assms(2), of s'] by (simp_all add: s')
  show "c \<noteq> d \<Longrightarrow> fst (p_health_check p s') = fst (p_health_check p s)" by (simp add: check s')
  show "fst (p_health_check p (snd (simulate_recovery d s'))) = Inr True"
    by (simp add: check simulate_recovery_def io_modify_def)
qed

end
