(* ===== verification/Notification_World.thy ===== *)
theory Notification_World
  imports Lifecycle Queue_Service Providers
begin

text \<open>
  The state the handlers share: the database, the queue service of \<open>app/main.py\<close> (with
  the Redis and AMQP servers behind it and the host's clock), and the providers' state. The
  \<open>QueueService\<close> of \<open>app/managers\<close> is a second object, of which only \<open>enqueue\<close>
  is called: it reads and writes the shared Redis server and never the cached AMQP handles,
  so it runs on the same state here.
\<close>

record ('d, 'r, 'q, 'p) world =
  w_db :: 'd
  w_svc :: "('r, 'q) qsvc"
  w_prov :: 'p

definition on_db :: "('d, 'a) io \<Rightarrow> (('d, 'r, 'q, 'p) world, 'a) io" where
  "on_db = io_zoom w_db (\<lambda>d w. w\<lparr>w_db := d\<rparr>)"

definition on_svc :: "(('r, 'q) qsvc, 'a) io \<Rightarrow> (('d, 'r, 'q, 'p) world, 'a) io" where
  "on_svc = io_zoom w_svc (\<lambda>s w. w\<lparr>w_svc := s\<rparr>)"

definition on_prov :: "('p, 'a) io \<Rightarrow> (('d, 'r, 'q, 'p) world, 'a) io" where
  "on_prov = io_zoom w_prov (\<lambda>p w. w\<lparr>w_prov := p\<rparr>)"

text \<open>What statements observe: the committed rows, the queued ids with their scores.\<close>

abbreviation w_rows :: "('d, 'r, 'q) services \<Rightarrow> ('d, 'r, 'q, 'p) world \<Rightarrow> table" where
  "w_rows S w \<equiv> pg_rows (srv_pg S) (w_db w)"

abbreviation w_entries :: "('d, 'r, 'q) services \<Rightarrow> ('d, 'r, 'q, 'p) world \<Rightarrow> (int \<times> int) list" where
  "w_entries S w \<equiv> queue_entries (srv_redis S) (w_svc w)"

abbreviation w_kv :: "('d, 'r, 'q) services \<Rightarrow> ('d, 'r, 'q, 'p) world \<Rightarrow> string \<Rightarrow> string option" where
  "w_kv S w \<equiv> r_kv (srv_redis S) (svc_redis (w_svc w))"

abbreviation w_published :: "('d, 'r, 'q) services \<Rightarrow> ('d, 'r, 'q, 'p) world \<Rightarrow> publication list" where
  "w_published S w \<equiv> q_published (srv_amqp S) (svc_amqp (w_svc w))"

abbreviation w_settled :: "('d, 'r, 'q) services \<Rightarrow> ('d, 'r, 'q, 'p) world \<Rightarrow> nat \<Rightarrow> settlement option" where
  "w_settled S w \<equiv> q_settled (srv_amqp S) (svc_amqp (w_svc w))"

definition db_up :: "('d, 'r, 'q) services \<Rightarrow> ('d, 'r, 'q, 'p) world \<Rightarrow> bool" where
  "db_up S w \<longleftrightarrow> pg_up (srv_pg S) (w_db w)"

definition redis_up :: "('d, 'r, 'q) services \<Rightarrow> ('d, 'r, 'q, 'p) world \<Rightarrow> bool" where
  "redis_up S w \<longleftrightarrow> r_up (srv_redis S) (svc_redis (w_svc w))"

definition amqp_up :: "('d, 'r, 'q) services \<Rightarrow> ('d, 'r, 'q, 'p) world \<Rightarrow> bool" where
  "amqp_up S w \<longleftrightarrow> q_up (srv_amqp S) (svc_amqp (w_svc w))"

text \<open>
  A clock between 1970 and the year 33658, whose scores are exact. Every member of the queue is an
  id in decimal, since only \<open>enqueue\<close> writes it.
\<close>

definition clock_ok :: "('d, 'r, 'q, 'p) world \<Rightarrow> bool" where
  "clock_ok w \<longleftrightarrow> (\<forall>k. 0 \<le> h_clock (svc_host (w_svc w)) k \<and> h_clock (svc_host (w_svc w)) k < 10 ^ 18)"

definition queue_ok :: "('d, 'r, 'q) services \<Rightarrow> ('d, 'r, 'q, 'p) world \<Rightarrow> bool" where
  "queue_ok S w \<longleftrightarrow> queue_ids_ok (srv_redis S) (w_svc w) \<and> clock_ok w"

lemma services_laws_parts:
  assumes "services_laws S"
  shows "pg_laws (srv_pg S)" and "redis_laws (srv_redis S)" and "amqp_laws (srv_amqp S)"
  using assms by (simp_all add: services_laws_def)

section \<open>Lifted operations\<close>

lemma on_db_run [io_simps]: "m (w_db w) = (x, d) \<Longrightarrow> on_db m w = (x, w\<lparr>w_db := d\<rparr>)"
  by (simp add: on_db_def io_zoom_def)

lemma on_svc_run [io_simps]: "m (w_svc w) = (x, s) \<Longrightarrow> on_svc m w = (x, w\<lparr>w_svc := s\<rparr>)"
  by (simp add: on_svc_def io_zoom_def)

lemma on_prov_run [io_simps]: "m (w_prov w) = (x, p) \<Longrightarrow> on_prov m w = (x, w\<lparr>w_prov := p\<rparr>)"
  by (simp add: on_prov_def io_zoom_def)

lemma on_db_cases:
  assumes "on_db m w = (x, w')"
  obtains d where "m (w_db w) = (x, d)" "w' = w\<lparr>w_db := d\<rparr>"
  using assms by (auto simp: on_db_def elim: io_zoom_cases)

lemma on_svc_cases:
  assumes "on_svc m w = (x, w')"
  obtains s where "m (w_svc w) = (x, s)" "w' = w\<lparr>w_svc := s\<rparr>"
  using assms by (auto simp: on_svc_def elim: io_zoom_cases)

lemma on_prov_cases:
  assumes "on_prov m w = (x, w')"
  obtains p where "m (w_prov w) = (x, p)" "w' = w\<lparr>w_prov := p\<rparr>"
  using assms by (auto simp: on_prov_def elim: io_zoom_cases)

text \<open>Each works on its own part.\<close>

lemma on_parts_frame [evolve_intros]:
  "evolves (same w_svc) (on_db m)" "evolves (same w_prov) (on_db m)"
  "evolves (same w_db) (on_svc n)" "evolves (same w_prov) (on_svc n)"
  "evolves (same w_db) (on_prov k)" "evolves (same w_svc) (on_prov k)"
  by (auto simp: evolves_def same_def on_db_def on_svc_def on_prov_def io_zoom_def split: prod.splits)

lemma same_rows: "evolves (same w_db) m \<Longrightarrow> m w = (x, w') \<Longrightarrow> w_rows S w' = w_rows S w"
  by (drule evolvesD) (auto simp: same_def)

section \<open>The queue, seen from the world\<close>

lemma clock_exact:
  assumes "clock_ok w" "1 \<le> p" "p \<le> 4"
  shows "exact_score (queue_stamp (w_svc w) p)"
proof -
  let ?t = "h_clock (svc_host (w_svc w)) (h_tick (svc_host (w_svc w)))"
  from assms(1) have "0 \<le> ?t" "?t < 10 ^ 18" unfolding clock_ok_def by blast+
  then have t: "0 \<le> ?t" "?t < 1000000000000000000" by simp_all
  then have "?t div 1000 < 1000000000000000" by linarith
  with t(1) have "0 \<le> ?t div 1000" "?t div 1000 < 10 ^ 15" by simp_all
  with assms(2,3) show ?thesis unfolding queue_stamp_def by (intro queue_score_exact) simp_all
qed

text \<open>What enqueueing does to the world, whatever its outcome, and when Redis answers.\<close>

lemma enqueue_clock: "enqueue R i p s = (x, s') \<Longrightarrow> h_clock (svc_host s') = h_clock (svc_host s)"
  by (auto simp: enqueue_run tick_host_def split: prod.splits)

lemma world_enqueue:
  assumes laws: "services_laws S" and ok: "queue_ok S w" and p: "1 \<le> p" "p \<le> 4"
    and run: "on_svc (enqueue (srv_redis S) i p) w = (x, w')"
  shows "queue_ok S w' \<and> (\<exists>b. x = Inr b) \<and> w_db w' = w_db w \<and> w_prov w' = w_prov w \<and>
    w_kv S w' = w_kv S w \<and> svc_amqp (w_svc w') = svc_amqp (w_svc w) \<and>
    (w_entries S w' = w_entries S w \<or>
     set (w_entries S w') = insert (i, queue_stamp (w_svc w) p) (set (w_entries S w)))"
proof -
  from run obtain s where enq: "enqueue (srv_redis S) i p (w_svc w) = (x, s)"
    and w': "w' = w\<lparr>w_svc := s\<rparr>" by (rule on_svc_cases)
  note laws' = services_laws_parts(2) [OF laws]
  from ok have ids: "queue_ids_ok (srv_redis S) (w_svc w)" and clock: "clock_ok w"
    by (simp_all add: queue_ok_def)
  note exact = clock_exact [OF clock p]
  from enqueue_clock [OF enq] clock have "clock_ok w'" by (simp add: clock_ok_def w')
  with wq.enq_effect [OF laws' ids exact enq] enqueue_frame(1) [OF laws' enq] show ?thesis
    by (auto simp: w' queue_ok_def)
qed

lemma world_enqueue_up:
  assumes laws: "services_laws S" and ok: "queue_ok S w" and p: "1 \<le> p" "p \<le> 4"
    and up: "redis_up S w" and run: "on_svc (enqueue (srv_redis S) i p) w = (x, w')"
  shows "redis_up S w' \<and> x = Inr True \<and> i \<in> fst ` set (w_entries S w') \<and>
    set (w_entries S w) \<subseteq> set (w_entries S w')"
proof -
  from run obtain s where enq: "enqueue (srv_redis S) i p (w_svc w) = (x, s)"
    and w': "w' = w\<lparr>w_svc := s\<rparr>" by (rule on_svc_cases)
  from ok have ids: "queue_ids_ok (srv_redis S) (w_svc w)" and clock: "clock_ok w"
    by (simp_all add: queue_ok_def)
  from up have "queue_ready (srv_redis S) (w_svc w)" by (simp add: queue_ready_def redis_up_def)
  from wq.enq_ready [OF services_laws_parts(2) [OF laws] ids this clock_exact [OF clock p] enq]
  show ?thesis by (auto simp: w' queue_ready_def redis_up_def split: if_splits)
qed

section \<open>The table, whatever happens\<close>

definition life_steps ::
  "('d, 'r, 'q) services \<Rightarrow> ('d, 'r, 'q, 'p) world \<Rightarrow> ('d, 'r, 'q, 'p) world \<Rightarrow> bool"
where
  "life_steps S w w' \<longleftrightarrow> life_write\<^sup>*\<^sup>* (w_rows S w) (w_rows S w')"

interpretation life: io_preorder "life_steps S" for S
  by unfold_locales (auto simp: life_steps_def)

lemma life_steps_same: "w_rows S w' = w_rows S w \<Longrightarrow> life_steps S w w'"
  by (simp add: life_steps_def)

lemma life_steps_write: "life_write (w_rows S w) (w_rows S w') \<Longrightarrow> life_steps S w w'"
  unfolding life_steps_def by (rule r_into_rtranclp)

lemma evolves_life_same: "evolves (same w_db) m \<Longrightarrow> evolves (life_steps S) m"
  by (auto simp: evolves_def same_def intro!: life_steps_same)

section \<open>The repository, seen from the world\<close>

lemma on_db_get_cases:
  assumes laws: "services_laws S" and run: "on_db (get_by_id (srv_pg S) i) w = (x, w')"
  shows "w_rows S w' = w_rows S w" and "w_svc w' = w_svc w" and "w_prov w' = w_prov w"
    and "x = Inr row \<Longrightarrow> row = w_rows S w i"
    and "db_up S w \<Longrightarrow> db_up S w' \<and> x = Inr (w_rows S w i)"
proof -
  note pg = services_laws_parts(1) [OF laws]
  from run obtain d where get: "get_by_id (srv_pg S) i (w_db w) = (x, d)" and w': "w' = w\<lparr>w_db := d\<rparr>"
    by (rule on_db_cases)
  show "w_rows S w' = w_rows S w" "w_svc w' = w_svc w" "w_prov w' = w_prov w"
    by (simp_all add: w' repo.get_pure [OF pg get])
  show "x = Inr row \<Longrightarrow> row = w_rows S w i"
    using repo.get_result [OF pg] get by blast
  show "db_up S w \<Longrightarrow> db_up S w' \<and> x = Inr (w_rows S w i)"
    using repo.get_up [OF pg _ get] by (simp add: db_up_def w')
qed

lemma on_db_update_cases:
  assumes laws: "services_laws S" and run: "on_db (update_status (srv_pg S) i st as) w = (x, w')"
  shows "w_svc w' = w_svc w" and "w_prov w' = w_prov w"
    and "w_rows S w' = w_rows S w \<or> updated i (Status (status_value st) # as) (w_rows S w) (w_rows S w')"
    and "x = Inr (Some m) \<Longrightarrow> w_rows S w' i = Some m"
    and "x = Inr None \<Longrightarrow> w_rows S w i = None"
proof -
  note pg = services_laws_parts(1) [OF laws]
  from run obtain d where upd: "update_status (srv_pg S) i st as (w_db w) = (x, d)" and w': "w' = w\<lparr>w_db := d\<rparr>"
    by (rule on_db_cases)
  show "w_svc w' = w_svc w" "w_prov w' = w_prov w" by (simp_all add: w')
  show "w_rows S w' = w_rows S w \<or> updated i (Status (status_value st) # as) (w_rows S w) (w_rows S w')"
    using repo.set_rows [OF pg upd] by (simp add: w')
  show "x = Inr (Some m) \<Longrightarrow> w_rows S w' i = Some m"
    using repo.set_some [OF pg] upd by (auto simp: w')
  show "x = Inr None \<Longrightarrow> w_rows S w i = None"
    using repo.set_none [OF pg] upd by blast
qed

lemma on_db_update_up:
  assumes laws: "services_laws S" and up: "db_up S w" and row: "w_rows S w i = Some n"
    and ok: "storable (set_attrs (Status (status_value st) # as) n)"
  obtains m t w' where "on_db (update_status (srv_pg S) i st as) w = (Inr (Some m), w')" "db_up S w'"
    "m = (set_attrs (Status (status_value st) # as) n)\<lparr>mtime := t\<rparr>"
    "w_rows S w' = (w_rows S w)(i \<mapsto> m)" "w_svc w' = w_svc w" "w_prov w' = w_prov w"
proof -
  note pg = services_laws_parts(1) [OF laws]
  obtain m t d where "update_status (srv_pg S) i st as (w_db w) = (Inr (Some m), d)" "pg_up (srv_pg S) d"
    "m = (set_attrs (Status (status_value st) # as) n)\<lparr>mtime := t\<rparr>"
    "pg_rows (srv_pg S) d = (w_rows S w)(i \<mapsto> m)"
    using repo.set_available [OF pg up [unfolded db_up_def] row ok] by blast
  then show thesis by (intro that [of m "w\<lparr>w_db := d\<rparr>" t]) (simp_all add: on_db_run db_up_def)
qed

end
