(* ===== verification/Request_Schema.thy ===== *)
theory Request_Schema
  imports Channel_Map
begin

text \<open>
  \<open>app/schemas/notification_request.py\<close>: the request model and its validators. Pydantic
  runs each field validator on its field, and the \<open>mode="after"\<close> validator on the model
  when all fields passed; a \<open>ValueError\<close> of any of them comes out as a
  \<open>ValidationError\<close>, which is a \<open>ValueError\<close>. Labels are ASCII.
\<close>

section \<open>The models\<close>

record recipient_info =
  email :: "string option"
  phone :: "string option"
  device_token :: "string option"

record notification_create =
  req_idempotency_key :: string
  req_source_service :: string
  req_event_type :: string
  req_priority :: string
  req_recipient :: recipient_info
  req_content :: "(string \<times> json) list"

text \<open>\<open>getattr(self.recipient, field, None)\<close>\<close>

fun recipient_value :: "recipient_info \<Rightarrow> recipient_field \<Rightarrow> string option" where
  "recipient_value r Email_field = email r"
| "recipient_value r Phone_field = phone r"
| "recipient_value r Device_token_field = device_token r"

section \<open>Validators\<close>

definition validate_source_service :: "string \<Rightarrow> py_exn + string" where
  "validate_source_service v =
     (if str_lower v \<notin> lower_names source_members source_name then Inl ValueError
      else Inr (str_lower v))"

definition validate_event_type :: "string \<Rightarrow> py_exn + string" where
  "validate_event_type v =
     (if str_lower v \<notin> lower_names event_members event_name then Inl ValueError
      else Inr (str_lower v))"

definition validate_priority :: "string \<Rightarrow> py_exn + string" where
  "validate_priority v =
     (if str_lower v \<notin> lower_names priority_members priority_name then Inl ValueError
      else Inr (str_lower v))"

text \<open>
  The loop of the model validator: for each channel first the recipient field, which must be
  neither \<open>None\<close> nor empty, then the content key.
\<close>

fun check_channels ::
  "recipient_info \<Rightarrow> (string \<times> json) list \<Rightarrow> notification_channel list \<Rightarrow> py_exn + unit"
where
  "check_channels r cont [] = Inr ()"
| "check_channels r cont (c # cs) =
     (let value = recipient_value r (CHANNEL_RECIPIENT_FIELD c) in
      if value = None \<or> value = Some [] then Inl ValueError
      else if channel_key c \<notin> fst ` set cont then Inl ValueError
      else check_channels r cont cs)"

definition validate_recipient_and_content :: "notification_create \<Rightarrow> py_exn + notification_create" where
  "validate_recipient_and_content p =
     (case enum_of_name event_members event_name (str_upper (req_event_type p)) of
        Inl e \<Rightarrow> Inl e
      | Inr event \<Rightarrow>
          (case check_channels (req_recipient p) (req_content p) (event_channels event) of
             Inl e \<Rightarrow> Inl e
           | Inr _ \<Rightarrow> Inr p))"

text \<open>\<open>NotificationCreate(...)\<close> on fields of the declared types.\<close>

definition notification_create_init :: "notification_create \<Rightarrow> py_exn + notification_create" where
  "notification_create_init p =
     (case validate_source_service (req_source_service p) of Inl e \<Rightarrow> Inl e | Inr src \<Rightarrow>
      case validate_event_type (req_event_type p) of Inl e \<Rightarrow> Inl e | Inr ev \<Rightarrow>
      case validate_priority (req_priority p) of Inl e \<Rightarrow> Inl e | Inr prio \<Rightarrow>
      validate_recipient_and_content
        (p\<lparr>req_source_service := src, req_event_type := ev, req_priority := prio\<rparr>))"

section \<open>Integer values of the labels\<close>

definition source_service_as_int :: "notification_create \<Rightarrow> py_exn + int" where
  "source_service_as_int p =
     (case enum_of_name source_members source_name (str_upper (req_source_service p)) of
        Inl e \<Rightarrow> Inl e | Inr x \<Rightarrow> Inr (source_value x))"

definition event_type_as_int :: "notification_create \<Rightarrow> py_exn + int" where
  "event_type_as_int p =
     (case enum_of_name event_members event_name (str_upper (req_event_type p)) of
        Inl e \<Rightarrow> Inl e | Inr x \<Rightarrow> Inr (event_value x))"

definition priority_as_int :: "notification_create \<Rightarrow> py_exn + int" where
  "priority_as_int p =
     (case enum_of_name priority_members priority_name (str_upper (req_priority p)) of
        Inl e \<Rightarrow> Inl e | Inr x \<Rightarrow> Inr (priority_value x))"

section \<open>Values of the declared types from JSON\<close>

text \<open>
  The field annotations: a \<open>str\<close> field takes a string and nothing else, an
  \<open>Optional[str]\<close> field also null, absent fields take their default, unknown keys are
  ignored. \<open>RecipientInfo(**d)\<close> needs a mapping, anything else is a \<open>TypeError\<close>.
\<close>

fun str_field :: "json \<Rightarrow> py_exn + string" where
  "str_field (JStr s) = Inr s"
| "str_field _ = Inl ValueError"

fun optional_str_field :: "json option \<Rightarrow> py_exn + string option" where
  "optional_str_field None = Inr None"
| "optional_str_field (Some JNull) = Inr None"
| "optional_str_field (Some (JStr s)) = Inr (Some s)"
| "optional_str_field (Some _) = Inl ValueError"

fun dict_field :: "json \<Rightarrow> py_exn + (string \<times> json) list" where
  "dict_field (JObj kvs) = Inr kvs"
| "dict_field _ = Inl ValueError"

fun recipient_info_of_json :: "json \<Rightarrow> py_exn + recipient_info" where
  "recipient_info_of_json (JObj kvs) =
     (case optional_str_field (map_of kvs ''email'') of Inl e \<Rightarrow> Inl e | Inr em \<Rightarrow>
      case optional_str_field (map_of kvs ''phone'') of Inl e \<Rightarrow> Inl e | Inr ph \<Rightarrow>
      case optional_str_field (map_of kvs ''device_token'') of Inl e \<Rightarrow> Inl e | Inr dt \<Rightarrow>
      Inr \<lparr>email = em, phone = ph, device_token = dt\<rparr>)"
| "recipient_info_of_json _ = Inl TypeError"

text \<open>\<open>NotificationCreate(...)\<close> on decoded JSON values.\<close>

definition notification_create_of_json ::
  "json \<Rightarrow> json \<Rightarrow> json \<Rightarrow> json \<Rightarrow> recipient_info \<Rightarrow> json \<Rightarrow> py_exn + notification_create"
where
  "notification_create_of_json key src ev prio r cont =
     (case str_field key of Inl e \<Rightarrow> Inl e | Inr key' \<Rightarrow>
      case str_field src of Inl e \<Rightarrow> Inl e | Inr src' \<Rightarrow>
      case str_field ev of Inl e \<Rightarrow> Inl e | Inr ev' \<Rightarrow>
      case str_field prio of Inl e \<Rightarrow> Inl e | Inr prio' \<Rightarrow>
      case dict_field cont of Inl e \<Rightarrow> Inl e | Inr cont' \<Rightarrow>
      notification_create_init
        \<lparr>req_idempotency_key = key', req_source_service = src', req_event_type = ev',
         req_priority = prio', req_recipient = r, req_content = cont'\<rparr>)"

section \<open>What validation guarantees\<close>

text \<open>The channel of an event can be served: its recipient is there and its content too.\<close>

definition serves :: "notification_create \<Rightarrow> notification_channel \<Rightarrow> bool" where
  "serves p c \<longleftrightarrow>
     (\<exists>v. recipient_value (req_recipient p) (CHANNEL_RECIPIENT_FIELD c) = Some v \<and> v \<noteq> []) \<and>
     channel_key c \<in> fst ` set (req_content p)"

lemma check_channels_Inr:
  "check_channels (req_recipient p) (req_content p) cs = Inr () \<longleftrightarrow> (\<forall>c \<in> set cs. serves p c)"
  by (induction cs) (auto simp: serves_def Let_def)

lemma check_channels_Inl: "check_channels r cont cs = Inl e \<Longrightarrow> e = ValueError"
  by (induction cs) (auto simp: Let_def split: if_splits)

text \<open>
  A validated request, as its labels: the three are members' names in lower case, and every
  channel of the event can be served.
\<close>

definition validated ::
  "notification_create \<Rightarrow> source_service_t \<Rightarrow> event_type_t \<Rightarrow> notification_priority \<Rightarrow> bool"
where
  "validated p src ev prio \<longleftrightarrow>
     req_source_service p = str_lower (source_name src) \<and>
     req_event_type p = str_lower (event_name ev) \<and>
     req_priority p = str_lower (priority_name prio) \<and>
     (\<forall>c \<in> set (event_channels ev). serves p c)"

lemma validate_Inr_iff:
  "validate_source_service v = Inr s \<longleftrightarrow> s = str_lower v \<and> (\<exists>x. str_lower v = str_lower (source_name x))"
  "validate_event_type v = Inr s \<longleftrightarrow> s = str_lower v \<and> (\<exists>x. str_lower v = str_lower (event_name x))"
  "validate_priority v = Inr s \<longleftrightarrow> s = str_lower v \<and> (\<exists>x. str_lower v = str_lower (priority_name x))"
  by (auto simp: validate_source_service_def validate_event_type_def validate_priority_def
      source_enum.mem_lower_names event_enum.mem_lower_names priority_enum.mem_lower_names)

lemma validate_Inl:
  "validate_source_service v = Inl e \<Longrightarrow> e = ValueError"
  "validate_event_type v = Inl e \<Longrightarrow> e = ValueError"
  "validate_priority v = Inl e \<Longrightarrow> e = ValueError"
  by (auto simp: validate_source_service_def validate_event_type_def validate_priority_def
      split: if_splits)

lemma validate_recipient_and_content_lower:
  assumes "req_event_type p = str_lower (event_name ev)"
  shows "validate_recipient_and_content p =
    (if \<forall>c \<in> set (event_channels ev). serves p c then Inr p else Inl ValueError)"
proof (cases "check_channels (req_recipient p) (req_content p) (event_channels ev)")
  case (Inl e)
  then have "\<not> (\<forall>c \<in> set (event_channels ev). serves p c)"
    using check_channels_Inr [of p "event_channels ev"] by simp
  then have eq: "(if \<forall>c \<in> set (event_channels ev). serves p c then Inr p else Inl ValueError)
    = (Inl ValueError :: py_exn + notification_create)"
    by (rule if_not_P)
  from Inl have "e = ValueError" by (rule check_channels_Inl)
  with Inl assms show ?thesis
    unfolding eq by (simp add: validate_recipient_and_content_def)
next
  case (Inr u)
  then have "\<forall>c \<in> set (event_channels ev). serves p c"
    using check_channels_Inr [of p "event_channels ev"] by simp
  then have eq: "(if \<forall>c \<in> set (event_channels ev). serves p c then Inr p else Inl ValueError)
    = (Inr p :: py_exn + notification_create)"
    by (rule if_P)
  from Inr assms show ?thesis
    unfolding eq by (simp add: validate_recipient_and_content_def)
qed

subsection \<open>Acceptance\<close>

definition acceptable :: "notification_create \<Rightarrow> bool" where
  "acceptable p \<longleftrightarrow>
     (\<exists>src ev prio.
        str_lower (req_source_service p) = str_lower (source_name src) \<and>
        str_lower (req_event_type p) = str_lower (event_name ev) \<and>
        str_lower (req_priority p) = str_lower (priority_name prio) \<and>
        (\<forall>c \<in> set (event_channels ev). serves p c))"

definition lowered :: "notification_create \<Rightarrow> notification_create" where
  "lowered p =
     p\<lparr>req_source_service := str_lower (req_source_service p),
       req_event_type := str_lower (req_event_type p),
       req_priority := str_lower (req_priority p)\<rparr>"

lemma serves_lowered [simp]: "serves (lowered p) c = serves p c"
  by (simp add: serves_def lowered_def)

lemma lowered_fields [simp]:
  "req_source_service (lowered p) = str_lower (req_source_service p)"
  "req_event_type (lowered p) = str_lower (req_event_type p)"
  "req_priority (lowered p) = str_lower (req_priority p)"
  "req_idempotency_key (lowered p) = req_idempotency_key p"
  "req_recipient (lowered p) = req_recipient p"
  "req_content (lowered p) = req_content p"
  by (simp_all add: lowered_def)

lemma init_on_labels:
  assumes "str_lower (req_source_service p) = str_lower (source_name src)"
    and "str_lower (req_event_type p) = str_lower (event_name ev)"
    and "str_lower (req_priority p) = str_lower (priority_name prio)"
  shows "notification_create_init p = validate_recipient_and_content (lowered p)"
proof -
  have "validate_source_service (req_source_service p) = Inr (str_lower (req_source_service p))"
    "validate_event_type (req_event_type p) = Inr (str_lower (req_event_type p))"
    "validate_priority (req_priority p) = Inr (str_lower (req_priority p))"
    using assms by (auto simp: validate_Inr_iff)
  then show ?thesis by (simp add: notification_create_init_def lowered_def)
qed

lemma init_Inl: "notification_create_init p = Inl e \<Longrightarrow> e = ValueError"
proof (cases "validate_event_type (req_event_type p)")
  case (Inr ev)
  then obtain x where x: "ev = str_lower (event_name x)"
    by (auto simp: validate_Inr_iff)
  assume "notification_create_init p = Inl e"
  with Inr x show ?thesis
    by (auto simp: notification_create_init_def validate_recipient_and_content_lower
        dest: validate_Inl split: sum.splits if_splits)
qed (auto simp: notification_create_init_def dest: validate_Inl split: sum.splits)

lemma init_Inr_iff: "notification_create_init p = Inr q \<longleftrightarrow> q = lowered p \<and> acceptable p"
proof
  assume acc: "notification_create_init p = Inr q"
  then obtain src ev prio where labels:
    "str_lower (req_source_service p) = str_lower (source_name src)"
    "str_lower (req_event_type p) = str_lower (event_name ev)"
    "str_lower (req_priority p) = str_lower (priority_name prio)"
    by (auto simp: notification_create_init_def validate_Inr_iff split: sum.splits)
  from acc have "validate_recipient_and_content (lowered p) = Inr q"
    by (simp add: init_on_labels [OF labels])
  with labels show "q = lowered p \<and> acceptable p"
    by (auto simp: validate_recipient_and_content_lower [of _ ev] acceptable_def split: if_splits)
next
  assume "q = lowered p \<and> acceptable p"
  then show "notification_create_init p = Inr q"
    by (auto simp: acceptable_def init_on_labels validate_recipient_and_content_lower)
qed

lemma init_validated:
  "notification_create_init p = Inr q \<Longrightarrow> \<exists>src ev prio. validated q src ev prio"
  by (auto simp: init_Inr_iff acceptable_def validated_def)

lemma validated_as_int [simp]:
  assumes "validated p src ev prio"
  shows "source_service_as_int p = Inr (source_value src)"
    and "event_type_as_int p = Inr (event_value ev)"
    and "priority_as_int p = Inr (priority_value prio)"
    and "enum_of_name event_members event_name (str_upper (req_event_type p)) = Inr ev"
  using assms
  by (simp_all add: validated_def source_service_as_int_def event_type_as_int_def priority_as_int_def)

end
