(* ===== verification/Manager.thy ===== *)
theory Manager
  imports Notification_World Request_Schema
begin

text \<open>
  \<open>app/managers/notification_manager.py\<close>: creation of one notification per channel behind
  the Redis idempotency key, the look-ups, and the manual retry. The handlers run the whole of
  each operation on the world; the records of the log are left out.
\<close>

section \<open>Operations\<close>

definition IDEMPOTENCY_EXPIRY :: int where
  "IDEMPOTENCY_EXPIRY = 86400"

definition redis_idem_key :: "string \<Rightarrow> string" where
  "redis_idem_key key = ''idem:'' @ key"

text \<open>The manager's own Redis client talks to the server of the queue.\<close>

definition on_client :: "('r, 'a) io \<Rightarrow> (('d, 'r, 'q, 'p) world, 'a) io" where
  "on_client m = on_svc (on_redis m)"

text \<open>The keyword arguments of \<open>Notification(...)\<close> for one channel.\<close>

definition channel_args :: "notification_create \<Rightarrow> notification_channel \<Rightarrow> py_exn + notification_args" where
  "channel_args p c =
     (let idem_key = channel_idem_key (req_idempotency_key p) c;
          rcpt = recipient_value (req_recipient p) (CHANNEL_RECIPIENT_FIELD c);
          channel_content =
            (case map_of (req_content p) (channel_key c) of None \<Rightarrow> JObj [] | Some j \<Rightarrow> j)
      in
        case source_service_as_int p of Inl e \<Rightarrow> Inl e | Inr src \<Rightarrow>
        case event_type_as_int p of Inl e \<Rightarrow> Inl e | Inr ev \<Rightarrow>
        case priority_as_int p of Inl e \<Rightarrow> Inl e | Inr prio \<Rightarrow>
        Inr \<lparr>a_idempotency_key = idem_key, a_source_service = src, a_event_type = ev,
             a_channel = channel_value c, a_recipient = rcpt, a_priority = prio,
             a_status = status_value PENDING, a_content = channel_content\<rparr>)"

text \<open>The body of the loop. The result of \<open>enqueue\<close> is ignored; only an
  \<open>IntegrityError\<close> is caught.\<close>

definition create_one ::
  "('d, 'r, 'q) services \<Rightarrow> notification_create \<Rightarrow> notification_channel \<Rightarrow> notification list \<Rightarrow>
   (('d, 'r, 'q, 'p) world, notification list) io"
where
  "create_one S p c created_list =
     io_bind (io_of (channel_args p c)) (\<lambda>a.
     io_try
       (io_bind (on_db (repository_create (srv_pg S) a)) (\<lambda>saved.
        io_bind (on_svc (enqueue (srv_redis S) (nid saved) (priority saved))) (\<lambda>_.
        io_return (created_list @ [saved]))))
       (\<lambda>e. if e = IntegrityError
             then io_bind (on_db (pg_rollback (srv_pg S))) (\<lambda>_. io_return created_list)
             else io_raise e))"

definition create_notification ::
  "('d, 'r, 'q) services \<Rightarrow> notification_create \<Rightarrow>
   (('d, 'r, 'q, 'p) world, notification list \<times> bool) io"
where
  "create_notification S p =
     (let redis_key = redis_idem_key (req_idempotency_key p) in
      io_bind (on_client (r_setnx (srv_redis S) redis_key ''1'')) (\<lambda>is_new.
      if \<not> is_new then io_return ([], True)
      else
        io_bind (on_client (r_expire (srv_redis S) redis_key IDEMPOTENCY_EXPIRY)) (\<lambda>_.
        io_bind (io_of (enum_of_name event_members event_name (str_upper (req_event_type p)))) (\<lambda>event.
        io_bind (io_foreach (create_one S p) (event_channels event) []) (\<lambda>created_list.
        io_return (created_list, False))))))"

definition get_notification ::
  "('d, 'r, 'q) services \<Rightarrow> int \<Rightarrow> (('d, 'r, 'q, 'p) world, notification option) io"
where
  "get_notification S i = on_db (get_by_id (srv_pg S) i)"

text \<open>\<open>Enum[label.upper()].value if label else None\<close>\<close>

definition filter_value ::
  "'e list \<Rightarrow> ('e \<Rightarrow> string) \<Rightarrow> ('e \<Rightarrow> int) \<Rightarrow> string option \<Rightarrow> py_exn + int option"
where
  "filter_value ms nm val label =
     (case label of
        None \<Rightarrow> Inr None
      | Some s \<Rightarrow>
          if s = [] then Inr None
          else (case enum_of_name ms nm (str_upper s) of Inl e \<Rightarrow> Inl e | Inr x \<Rightarrow> Inr (Some (val x))))"

definition list_notifications ::
  "('d, 'r, 'q) services \<Rightarrow> string option \<Rightarrow> string option \<Rightarrow> string option \<Rightarrow> string option \<Rightarrow>
   int \<Rightarrow> int \<Rightarrow> (('d, 'r, 'q, 'p) world, notification list) io"
where
  "list_notifications S st ch src ev limit offset =
     io_bind (io_of (filter_value status_members status_name status_value st)) (\<lambda>status_int.
     io_bind (io_of (filter_value channel_members channel_name channel_value ch)) (\<lambda>channel_int.
     io_bind (io_of (filter_value source_members source_name source_value src)) (\<lambda>source_int.
     io_bind (io_of (filter_value event_members event_name event_value ev)) (\<lambda>event_int.
     on_db (repository_list (srv_pg S) status_int channel_int source_int event_int limit offset)))))"

text \<open>The second component of the result is the error text, empty when there is none.\<close>

definition retry_notification ::
  "('d, 'r, 'q) services \<Rightarrow> int \<Rightarrow> (('d, 'r, 'q, 'p) world, notification option \<times> string) io"
where
  "retry_notification S i =
     io_bind (on_db (get_by_id (srv_pg S) i)) (\<lambda>row.
     case row of
       None \<Rightarrow> io_return (None, ''Notification not found'')
     | Some n \<Rightarrow>
         if status n = status_value SENT
         then io_return (None, ''Cannot retry a notification with status sent'')
         else if status n = status_value QUEUED
         then io_return (None, ''Notification is already queued'')
         else
           io_bind (on_db (update_status (srv_pg S) i PENDING
             [Retry_count (retry_count n + 1), Error_code None, Next_retry_time None])) (\<lambda>upd.
           io_bind (on_svc (enqueue (srv_redis S) i (priority n))) (\<lambda>_.
           io_return (upd, ''''))))"

section \<open>Rows of a validated request\<close>

definition request_args ::
  "notification_create \<Rightarrow> source_service_t \<Rightarrow> event_type_t \<Rightarrow> notification_priority \<Rightarrow>
   notification_channel \<Rightarrow> notification_args"
where
  "request_args p src ev prio c =
     \<lparr>a_idempotency_key = channel_idem_key (req_idempotency_key p) c,
      a_source_service = source_value src, a_event_type = event_value ev,
      a_channel = channel_value c,
      a_recipient = recipient_value (req_recipient p) (CHANNEL_RECIPIENT_FIELD c),
      a_priority = priority_value prio, a_status = status_value PENDING,
      a_content = the (map_of (req_content p) (channel_key c))\<rparr>"

lemma channel_args_validated:
  assumes "validated p src ev prio" "c \<in> set (event_channels ev)"
  shows "channel_args p c = Inr (request_args p src ev prio c)"
proof -
  from assms have "serves p c" by (simp add: validated_def)
  then obtain j where "map_of (req_content p) (channel_key c) = Some j"
    unfolding serves_def by (metis map_of_eq_None_iff not_None_eq)
  with assms(1) show ?thesis by (simp add: channel_args_def request_args_def Let_def)
qed

lemma request_args_event:
  assumes "validated p src ev prio" "c \<in> set (event_channels ev)"
  shows "event_args (request_args p src ev prio c)"
    and "\<exists>r. a_recipient (request_args p src ev prio c) = Some r \<and> r \<noteq> []"
proof -
  from assms have "serves p c" by (simp add: validated_def)
  then show ex: "\<exists>r. a_recipient (request_args p src ev prio c) = Some r \<and> r \<noteq> []"
    by (simp add: serves_def request_args_def)
  then obtain r where "a_recipient (request_args p src ev prio c) = Some r" "r \<noteq> []" by blast
  with assms(2) show "event_args (request_args p src ev prio c)"
    unfolding event_args_def
    by (intro exI [of _ "req_idempotency_key p"] exI [of _ src] exI [of _ ev] exI [of _ c]
        exI [of _ prio] exI [of _ r]) (simp add: request_args_def)
qed

lemma request_args_fields [simp]:
  "a_idempotency_key (request_args p src ev prio c) = channel_idem_key (req_idempotency_key p) c"
  "a_priority (request_args p src ev prio c) = priority_value prio"
  "a_channel (request_args p src ev prio c) = channel_value c"
  "a_status (request_args p src ev prio c) = status_value PENDING"
  by (simp_all add: request_args_def)

lemma storable_row_of_args: "storable (row_of_args i now r a) = storable (row_of_args 0 0 r a)"
  by (simp add: storable_def row_of_args_def)

lemma row_of_args_fields [simp]:
  "nid (row_of_args i now r a) = i" "idempotency_key (row_of_args i now r a) = a_idempotency_key a"
  "priority (row_of_args i now r a) = a_priority a" "channel (row_of_args i now r a) = a_channel a"
  "status (row_of_args i now r a) = a_status a" "content (row_of_args i now r a) = a_content a"
  "retry_count (row_of_args i now r a) = 0" "recipient (row_of_args i now r a) = r"
  by (simp_all add: row_of_args_def)

section \<open>The client's commands\<close>

lemma on_client_run [io_simps]:
  "m (svc_redis (w_svc w)) = (x, r) \<Longrightarrow> on_client m w = (x, w\<lparr>w_svc := (w_svc w)\<lparr>svc_redis := r\<rparr>\<rparr>)"
  by (simp add: on_client_def on_svc_def on_redis_def io_zoom_def)

lemma on_client_cases:
  assumes "on_client m w = (x, w')"
  obtains r where "m (svc_redis (w_svc w)) = (x, r)" "w' = w\<lparr>w_svc := (w_svc w)\<lparr>svc_redis := r\<rparr>\<rparr>"
  using assms by (auto simp: on_client_def on_svc_def on_redis_def io_zoom_def split: prod.splits)

lemma on_client_db [evolve_intros]: "evolves (same w_db) (on_client m)"
  unfolding on_client_def by (rule on_parts_frame)

lemma setnx_law:
  assumes "redis_laws R" "r_setnx R k v r = (x, r')"
  defines "new \<equiv> (if r_kv R r k = None then (r_kv R r)(k \<mapsto> v) else r_kv R r)"
  shows "r_zset R r' = r_zset R r"
    and "x = Inr b \<Longrightarrow> b = (r_kv R r k = None) \<and> r_kv R r' = new"
    and "r_kv R r' = r_kv R r \<or> r_kv R r' = new"
proof -
  note law = redis_laws_parts(1) [OF assms(1), unfolded redis_string_laws_def,
      THEN conjunct1, THEN spec, THEN spec, THEN spec, THEN spec, THEN spec, THEN mp, OF assms(2)]
  show "r_zset R r' = r_zset R r" by (rule law [THEN conjunct1])
  show "x = Inr b \<Longrightarrow> b = (r_kv R r k = None) \<and> r_kv R r' = new"
    using law [THEN conjunct2] unfolding new_def by (simp add: Let_def)
  show "r_kv R r' = r_kv R r \<or> r_kv R r' = new"
    using law [THEN conjunct2] unfolding new_def Let_def by (cases x) auto
qed

lemma expire_law:
  assumes "redis_laws R" "0 < t" "r_expire R k t r = (x, r')"
  shows "r_zset R r' = r_zset R r \<and> r_kv R r' = r_kv R r"
  by (rule redis_laws_parts(1) [OF assms(1), unfolded redis_string_laws_def,
      THEN conjunct2, THEN spec, THEN spec, THEN spec, THEN spec, THEN spec, THEN mp, OF assms(2),
      THEN mp, OF assms(3)])

text \<open>Both commands leave the queue, the rows and the broker alone.\<close>

definition client_frame ::
  "('d, 'r, 'q) services \<Rightarrow> ('d, 'r, 'q, 'p) world \<Rightarrow> ('d, 'r, 'q, 'p) world \<Rightarrow> bool"
where
  "client_frame S w w' \<longleftrightarrow>
     w_db w' = w_db w \<and> w_prov w' = w_prov w \<and> w_entries S w' = w_entries S w \<and>
     svc_amqp (w_svc w') = svc_amqp (w_svc w) \<and> svc_host (w_svc w') = svc_host (w_svc w) \<and>
     (queue_ok S w \<longrightarrow> queue_ok S w')"

lemma client_frameI:
  assumes "w' = w\<lparr>w_svc := (w_svc w)\<lparr>svc_redis := r\<rparr>\<rparr>"
    and "r_zset (srv_redis S) r = r_zset (srv_redis S) (svc_redis (w_svc w))"
  shows "client_frame S w w'"
  using assms by (simp add: client_frame_def queue_entries_def queue_ok_def queue_ids_ok_def clock_ok_def)

lemma client_setnx:
  assumes laws: "services_laws S" and run: "on_client (r_setnx (srv_redis S) k v) w = (x, w')"
  shows "client_frame S w w'"
    and "x = Inr b \<Longrightarrow> b = (w_kv S w k = None) \<and>
      w_kv S w' = (if w_kv S w k = None then (w_kv S w)(k \<mapsto> v) else w_kv S w)"
    and "redis_up S w \<Longrightarrow> redis_up S w' \<and> (\<exists>b. x = Inr b)"
proof -
  from run obtain r where r: "r_setnx (srv_redis S) k v (svc_redis (w_svc w)) = (x, r)"
    and w': "w' = w\<lparr>w_svc := (w_svc w)\<lparr>svc_redis := r\<rparr>\<rparr>" by (rule on_client_cases)
  note laws' = services_laws_parts(2) [OF laws]
  show "client_frame S w w'" by (rule client_frameI [OF w' setnx_law(1) [OF laws' r]])
  show "x = Inr b \<Longrightarrow> b = (w_kv S w k = None) \<and>
      w_kv S w' = (if w_kv S w k = None then (w_kv S w)(k \<mapsto> v) else w_kv S w)"
    using setnx_law(2) [OF laws' r] by (simp add: w')
  show "redis_up S w \<Longrightarrow> redis_up S w' \<and> (\<exists>b. x = Inr b)"
    using redis_up_law(1) [OF laws' _ r] by (simp add: redis_up_def w')
qed

lemma client_expire:
  assumes laws: "services_laws S" and run: "on_client (r_expire (srv_redis S) k t) w = (x, w')"
    and t: "0 < t"
  shows "client_frame S w w'" and "w_kv S w' = w_kv S w"
    and "redis_up S w \<Longrightarrow> redis_up S w' \<and> x = Inr ()"
proof -
  from run obtain r where r: "r_expire (srv_redis S) k t (svc_redis (w_svc w)) = (x, r)"
    and w': "w' = w\<lparr>w_svc := (w_svc w)\<lparr>svc_redis := r\<rparr>\<rparr>" by (rule on_client_cases)
  note laws' = services_laws_parts(2) [OF laws]
  note law = expire_law [OF laws' t r]
  show "client_frame S w w'" by (rule client_frameI [OF w' law [THEN conjunct1]])
  show "w_kv S w' = w_kv S w" using law by (simp add: w')
  show "redis_up S w \<Longrightarrow> redis_up S w' \<and> x = Inr ()"
    using redis_up_law(2) [OF laws' _ t r] by (simp add: redis_up_def w')
qed

section \<open>The table, whatever happens\<close>

lemma life_rollback:
  assumes "services_laws S"
  shows "evolves (life_steps S) (on_db (pg_rollback (srv_pg S)))"
proof (rule evolvesI)
  fix w :: "('a, 'b, 'c, 'd) world" and x w'
  assume "on_db (pg_rollback (srv_pg S)) w = (x, w')"
  then obtain d where "pg_rollback (srv_pg S) (w_db w) = (x, d)" "w' = w\<lparr>w_db := d\<rparr>"
    by (rule on_db_cases)
  with pg_read_law(5) [OF services_laws_parts(1) [OF assms], of "w_db w" x d]
  show "life_steps S w w'" by (intro life_steps_same) simp
qed

lemma life_create:
  assumes laws: "services_laws S" and a: "event_args a"
  shows "evolves (life_steps S) (on_db (repository_create (srv_pg S) a))"
proof (rule evolvesI)
  fix w :: "('a, 'b, 'c, 'd) world" and x w'
  assume "on_db (repository_create (srv_pg S) a) w = (x, w')"
  then obtain d where run: "repository_create (srv_pg S) a (w_db w) = (x, d)" and w': "w' = w\<lparr>w_db := d\<rparr>"
    by (rule on_db_cases)
  from repo.create_rows [OF services_laws_parts(1) [OF laws] run]
  show "life_steps S w w'"
  proof
    assume "pg_rows (srv_pg S) d = w_rows S w"
    then show ?thesis by (intro life_steps_same) (simp add: w')
  next
    assume "\<exists>i. inserted a i (w_rows S w) (pg_rows (srv_pg S) d)"
    then show ?thesis
      by (intro life_steps_write) (auto simp: w' intro: life_write.created [OF a])
  qed
qed

lemma life_create_one:
  assumes "services_laws S" "validated p src ev prio" "c \<in> set (event_channels ev)"
  shows "evolves (life_steps S) (create_one S p c acc)"
  unfolding create_one_def channel_args_validated [OF assms(2,3)] io_of_simps io_return_bind
  by (intro life.evolves_bind life.evolves_try life.evolves_return life.evolves_raise
      evolves_if life_rollback life_create assms(1) request_args_event(1) [OF assms(2,3)]
      evolves_life_same [OF on_parts_frame(3)])

lemma life_create_notification:
  assumes "services_laws S" "validated p src ev prio"
  shows "evolves (life_steps S) (create_notification S p)"
  unfolding create_notification_def Let_def validated_as_int(4) [OF assms(2)] io_of_simps io_return_bind
  by (intro life.evolves_bind life.evolves_return evolves_if life.evolves_foreach
      life_create_one [OF assms] evolves_life_same [OF on_client_db])

section \<open>Creation while the services answer\<close>

definition all_up :: "('d, 'r, 'q) services \<Rightarrow> ('d, 'r, 'q, 'p) world \<Rightarrow> bool" where
  "all_up S w \<longleftrightarrow> db_up S w \<and> redis_up S w \<and> queue_ok S w"

text \<open>The row of one channel, and that it is committed and queued.\<close>

definition created_row ::
  "notification_create \<Rightarrow> source_service_t \<Rightarrow> event_type_t \<Rightarrow> notification_priority \<Rightarrow>
   notification_channel \<Rightarrow> notification \<Rightarrow> bool"
where
  "created_row p src ev prio c n \<longleftrightarrow>
     (\<exists>i now r. a_recipient (request_args p src ev prio c) = Some r \<and>
        n = row_of_args i now r (request_args p src ev prio c))"

definition stored_and_queued ::
  "('d, 'r, 'q) services \<Rightarrow> ('d, 'r, 'q, 'p) world \<Rightarrow> notification \<Rightarrow> bool"
where
  "stored_and_queued S w n \<longleftrightarrow> w_rows S w (nid n) = Some n \<and> nid n \<in> fst ` set (w_entries S w)"

text \<open>What the creation of further rows keeps.\<close>

definition grows ::
  "('d, 'r, 'q) services \<Rightarrow> ('d, 'r, 'q, 'p) world \<Rightarrow> ('d, 'r, 'q, 'p) world \<Rightarrow> bool"
where
  "grows S w w' \<longleftrightarrow>
     w_rows S w \<subseteq>\<^sub>m w_rows S w' \<and> set (w_entries S w) \<subseteq> set (w_entries S w') \<and>
     w_kv S w' = w_kv S w \<and> w_prov w' = w_prov w \<and> svc_amqp (w_svc w') = svc_amqp (w_svc w)"

lemma grows_refl [simp]: "grows S w w"
  by (simp add: grows_def)

lemma grows_trans: "grows S u v \<Longrightarrow> grows S v w \<Longrightarrow> grows S u w"
  unfolding grows_def by (auto intro: map_le_trans)

lemma stored_and_queued_grows: "stored_and_queued S w n \<Longrightarrow> grows S w w' \<Longrightarrow> stored_and_queued S w' n"
  unfolding stored_and_queued_def grows_def map_le_def by (metis domI image_mono subsetD)

text \<open>All columns of the row of a channel can hold what the request gives.\<close>

definition fits :: "notification_create \<Rightarrow> source_service_t \<Rightarrow> event_type_t \<Rightarrow> notification_priority \<Rightarrow>
  notification_channel \<Rightarrow> bool" where
  "fits p src ev prio c \<longleftrightarrow>
     (\<forall>r. a_recipient (request_args p src ev prio c) = Some r \<longrightarrow>
        storable (row_of_args 0 0 r (request_args p src ev prio c)))"

text \<open>The row is committed before its id is queued, and what comes of the queueing does not matter.\<close>

lemma create_one_stored:
  assumes laws: "services_laws S" and p: "validated p src ev prio" "c \<in> set (event_channels ev)"
    and up: "db_up S w" and fits: "fits p src ev prio c"
    and fresh: "\<not> key_taken (w_rows S w) (channel_idem_key (req_idempotency_key p) c)"
  obtains n d where "created_row p src ev prio c n" "pg_up (srv_pg S) d" "w_rows S w (nid n) = None"
    "pg_rows (srv_pg S) d = (w_rows S w)(nid n \<mapsto> n)"
    "\<And>b w'. on_svc (enqueue (srv_redis S) (nid n) (priority n)) (w\<lparr>w_db := d\<rparr>) = (Inr b, w') \<Longrightarrow>
       create_one S p c acc w = (Inr (acc @ [n]), w')"
proof -
  let ?a = "request_args p src ev prio c"
  from request_args_event(2) [OF p] obtain r where r: "a_recipient ?a = Some r" by blast
  with fits have store: "storable (row_of_args 0 0 r ?a)" by (simp add: fits_def)
  obtain y d where run: "repository_create (srv_pg S) ?a (w_db w) = (y, d)"
    by (cases "repository_create (srv_pg S) ?a (w_db w)")
  note pg = services_laws_parts(1) [OF laws]
  from repo.create_up [OF pg up [unfolded db_up_def] run r store] fresh
  obtain n where y: "y = Inr n" and d: "pg_up (srv_pg S) d" by auto
  from repo.create_result [OF pg run [unfolded y]] obtain i
    where ins: "inserted ?a i (w_rows S w) (pg_rows (srv_pg S) d)"
      and "pg_rows (srv_pg S) d i = Some n" by blast
  with r obtain now where n: "n = row_of_args i now r ?a" "w_rows S w i = None"
    and rows: "pg_rows (srv_pg S) d = (w_rows S w)(i \<mapsto> n)"
    unfolding inserted_def by auto
  show thesis
  proof (rule that [OF _ d])
    show "created_row p src ev prio c n" using r n(1) by (auto simp: created_row_def)
  qed (use n rows run y in \<open>simp_all add: create_one_def channel_args_validated [OF p] io_simps\<close>)
qed

lemma created_row_priority: "created_row p src ev prio c n \<Longrightarrow> 1 \<le> priority n \<and> priority n \<le> 4"
  using priority_value_bounds [of prio] by (auto simp: created_row_def)

lemma create_one_up:
  assumes laws: "services_laws S" and p: "validated p src ev prio" "c \<in> set (event_channels ev)"
    and up: "all_up S w" and fits: "fits p src ev prio c"
    and fresh: "\<not> key_taken (w_rows S w) (channel_idem_key (req_idempotency_key p) c)"
  obtains n w' where "create_one S p c acc w = (Inr (acc @ [n]), w')" "all_up S w'" "grows S w w'"
    "created_row p src ev prio c n" "stored_and_queued S w' n"
    "w_rows S w' = (w_rows S w)(nid n \<mapsto> n)" "w_rows S w (nid n) = None"
    "fst ` set (w_entries S w') = insert (nid n) (fst ` set (w_entries S w))"
proof -
  from up have db: "db_up S w" and redis: "redis_up S w" and ok: "queue_ok S w" by (simp_all add: all_up_def)
  obtain n d where n: "created_row p src ev prio c n" "w_rows S w (nid n) = None" and d: "pg_up (srv_pg S) d"
    "pg_rows (srv_pg S) d = (w_rows S w)(nid n \<mapsto> n)"
    and run: "\<And>b w'. on_svc (enqueue (srv_redis S) (nid n) (priority n)) (w\<lparr>w_db := d\<rparr>) = (Inr b, w') \<Longrightarrow>
      create_one S p c acc w = (Inr (acc @ [n]), w')"
    by (rule create_one_stored [OF laws p db fits fresh]) blast
  define w1 where "w1 = w\<lparr>w_db := d\<rparr>"
  have w1: "queue_ok S w1" "redis_up S w1" "db_up S w1" "w_entries S w1 = w_entries S w"
    using ok redis d(1) by (simp_all add: w1_def queue_ok_def clock_ok_def redis_up_def db_up_def)
  obtain z w' where enq: "on_svc (enqueue (srv_redis S) (nid n) (priority n)) w1 = (z, w')"
    by (cases "on_svc (enqueue (srv_redis S) (nid n) (priority n)) w1")
  note prio = created_row_priority [OF n(1), THEN conjunct1] created_row_priority [OF n(1), THEN conjunct2]
  note eff = world_enqueue [OF laws w1(1) prio enq] and eff_up = world_enqueue_up [OF laws w1(1) prio w1(2) enq]
  from eff have rows': "w_rows S w' = (w_rows S w)(nid n \<mapsto> n)" by (simp add: w1_def d(2))
  show thesis
  proof (rule that [OF run])
    show "on_svc (enqueue (srv_redis S) (nid n) (priority n)) (w\<lparr>w_db := d\<rparr>) = (Inr True, w')"
      using enq eff_up by (simp add: w1_def)
    show "all_up S w'" using eff eff_up w1(3) by (simp add: all_up_def db_up_def)
    show "grows S w w'" using eff eff_up n(2) by (auto simp: grows_def rows' w1_def map_le_def)
    show "stored_and_queued S w' n" using eff_up by (simp add: stored_and_queued_def rows')
    show "fst ` set (w_entries S w') = insert (nid n) (fst ` set (w_entries S w))"
      using w1(4) eff eff_up by (auto simp: insert_absorb)
  qed (use n rows' in simp_all)
qed

lemma created_row_key:
  "created_row p src ev prio c n \<Longrightarrow> idempotency_key n = channel_idem_key (req_idempotency_key p) c"
  by (auto simp: created_row_def)

text \<open>What a run of the loop over \<open>cs\<close> leaves behind.\<close>

definition created_all ::
  "('d, 'r, 'q) services \<Rightarrow> notification_create \<Rightarrow> source_service_t \<Rightarrow> event_type_t \<Rightarrow>
   notification_priority \<Rightarrow> notification_channel list \<Rightarrow> ('d, 'r, 'q, 'p) world \<Rightarrow>
   notification list \<Rightarrow> ('d, 'r, 'q, 'p) world \<Rightarrow> bool"
where
  "created_all S p src ev prio cs w ns w' \<longleftrightarrow>
     list_all2 (created_row p src ev prio) cs ns \<and> (\<forall>n \<in> set ns. stored_and_queued S w' n) \<and>
     distinct (map nid ns) \<and> nid ` set ns \<inter> dom (w_rows S w) = {} \<and>
     dom (w_rows S w') = dom (w_rows S w) \<union> nid ` set ns \<and>
     fst ` set (w_entries S w') = fst ` set (w_entries S w) \<union> nid ` set ns"

lemma foreach_create_up:
  assumes laws: "services_laws S" and p: "validated p src ev prio"
  shows "set cs \<subseteq> set (event_channels ev) \<Longrightarrow> distinct cs \<Longrightarrow> all_up S w \<Longrightarrow>
    \<forall>c \<in> set cs. fits p src ev prio c \<and>
      \<not> key_taken (w_rows S w) (channel_idem_key (req_idempotency_key p) c) \<Longrightarrow>
    \<exists>ns w'. io_foreach (create_one S p) cs acc w = (Inr (acc @ ns), w') \<and> all_up S w' \<and> grows S w w' \<and>
      created_all S p src ev prio cs w ns w'"
proof (induction cs arbitrary: acc w)
  case (Cons c cs)
  let ?key = "channel_idem_key (req_idempotency_key p)"
  from Cons.prems obtain n w1 where one: "create_one S p c acc w = (Inr (acc @ [n]), w1)"
    and w1: "all_up S w1" "grows S w w1" "created_row p src ev prio c n" "stored_and_queued S w1 n"
      "w_rows S w1 = (w_rows S w)(nid n \<mapsto> n)" "w_rows S w (nid n) = None"
      "fst ` set (w_entries S w1) = insert (nid n) (fst ` set (w_entries S w))"
    using create_one_up [OF laws p, of c w acc] by auto
  have "\<not> key_taken (w_rows S w1) (?key c')" if "c' \<in> set cs" for c'
    using that Cons.prems(2,4) created_row_key [OF w1(3)]
    by (auto simp: key_taken_def w1(5) channel_idem_key_inj split: if_splits)
  with Cons.prems w1(1) have "\<exists>ns w'.
      io_foreach (create_one S p) cs (acc @ [n]) w1 = (Inr ((acc @ [n]) @ ns), w') \<and>
      all_up S w' \<and> grows S w1 w' \<and> created_all S p src ev prio cs w1 ns w'"
    by (intro Cons.IH) simp_all
  then obtain ns w' where
    rest: "io_foreach (create_one S p) cs (acc @ [n]) w1 = (Inr ((acc @ [n]) @ ns), w')"
      "all_up S w'" "grows S w1 w'" "created_all S p src ev prio cs w1 ns w'" by blast
  from rest(4) w1 have "created_all S p src ev prio (c # cs) w (n # ns) w'"
    using stored_and_queued_grows [OF w1(4) rest(3)] by (auto simp: created_all_def)
  moreover have "io_foreach (create_one S p) (c # cs) acc w = (Inr (acc @ n # ns), w')"
    using one rest(1) by (simp add: io_simps)
  ultimately show ?case using rest(2) grows_trans [OF w1(2) rest(3)] by blast
qed (simp add: io_simps created_all_def)

text \<open>The whole operation on a new key.\<close>

lemma create_notification_up:
  assumes laws: "services_laws S" and p: "validated p src ev prio" and up: "all_up S w"
    and new: "w_kv S w (redis_idem_key (req_idempotency_key p)) = None"
    and chans: "\<forall>c \<in> set (event_channels ev). fits p src ev prio c \<and>
      \<not> key_taken (w_rows S w) (channel_idem_key (req_idempotency_key p) c)"
  obtains ns w' where "create_notification S p w = (Inr (ns, False), w')" "all_up S w'"
    "created_all S p src ev prio (event_channels ev) w ns w'" "w_rows S w \<subseteq>\<^sub>m w_rows S w'"
    "w_kv S w' (redis_idem_key (req_idempotency_key p)) = Some ''1''"
proof -
  let ?k = "redis_idem_key (req_idempotency_key p)"
  obtain x w1 where setnx: "on_client (r_setnx (srv_redis S) ?k ''1'') w = (x, w1)"
    by (cases "on_client (r_setnx (srv_redis S) ?k ''1'') w")
  obtain y w2 where expire: "on_client (r_expire (srv_redis S) ?k IDEMPOTENCY_EXPIRY) w1 = (y, w2)"
    by (cases "on_client (r_expire (srv_redis S) ?k IDEMPOTENCY_EXPIRY) w1")
  have pos: "0 < IDEMPOTENCY_EXPIRY" by (simp add: IDEMPOTENCY_EXPIRY_def)
  note f1 = client_setnx [OF laws setnx] and f2 = client_expire [OF laws expire pos]
  from up f1(3) have r1: "redis_up S w1" and "\<exists>b. x = Inr b" unfolding all_up_def by blast+
  then obtain b where b: "x = Inr b" by blast
  from f1(2) [OF b] new b have x: "x = Inr True" and kv: "w_kv S w1 ?k = Some ''1''" by simp_all
  from f2(3) [OF r1] have y: "y = Inr ()" and r2: "redis_up S w2" by simp_all
  have db: "w_db w2 = w_db w" using f1(1) f2(1) by (simp add: client_frame_def)
  have "queue_ok S w2" using f1(1) f2(1) up unfolding client_frame_def all_up_def by blast
  with db up r2 have w2: "all_up S w2" "w_rows S w2 = w_rows S w" "w_entries S w2 = w_entries S w"
    using f1(1) f2(1) by (simp_all add: all_up_def db_up_def client_frame_def)
  from f2(2) kv have kv2: "w_kv S w2 ?k = Some ''1''" by simp
  from foreach_create_up [OF laws p subset_refl distinct_event_channels w2(1), of "[]"] chans
  obtain ns w' where run: "io_foreach (create_one S p) (event_channels ev) [] w2 = (Inr ns, w')"
    and w': "all_up S w'" "grows S w2 w'" "created_all S p src ev prio (event_channels ev) w2 ns w'"
    by (auto simp: w2(2))
  show thesis
  proof (rule that)
    show "create_notification S p w = (Inr (ns, False), w')"
      using setnx expire x y run p by (simp add: create_notification_def Let_def io_bind_def io_return_def)
    show "created_all S p src ev prio (event_channels ev) w ns w'"
      using w'(3) by (simp add: created_all_def w2(2,3))
  qed (use w' w2 kv2 in \<open>simp_all add: grows_def\<close>)
qed

section \<open>Duplicates\<close>

lemma create_notification_duplicate:
  assumes laws: "services_laws S" and up: "redis_up S w"
    and seen: "w_kv S w (redis_idem_key (req_idempotency_key p)) \<noteq> None"
  obtains w' where "create_notification S p w = (Inr ([], True), w')" "client_frame S w w'"
    "w_kv S w' = w_kv S w" "redis_up S w'"
proof -
  let ?k = "redis_idem_key (req_idempotency_key p)"
  obtain x w' where setnx: "on_client (r_setnx (srv_redis S) ?k ''1'') w = (x, w')"
    by (cases "on_client (r_setnx (srv_redis S) ?k ''1'') w")
  note f = client_setnx [OF laws setnx]
  from f(3) [OF up] f(2) seen have "x = Inr False" "w_kv S w' = w_kv S w" "redis_up S w'" by auto
  with setnx f(1) show thesis
    by (intro that [of w']) (simp_all add: create_notification_def Let_def io_bind_def io_return_def)
qed

text \<open>
  The key is taken before anything is stored and no error path gives it back: when the first
  attempt raises, a second one is answered as a duplicate.
\<close>

definition key_held :: "('d, 'r, 'q) services \<Rightarrow> string \<Rightarrow> ('d, 'r, 'q, 'p) world \<Rightarrow> bool" where
  "key_held S k w \<longleftrightarrow> w_kv S w k \<noteq> None \<and> redis_up S w"

lemma key_held_db: "evolves (keeping (key_held S k)) (on_db m)"
  by (auto simp: evolves_def keeping_def key_held_def redis_up_def on_db_def io_zoom_def
      split: prod.splits)

lemma key_held_enqueue:
  assumes "services_laws S"
  shows "evolves (keeping (key_held S k)) (on_svc (enqueue (srv_redis S) i p))"
proof (rule evolvesI)
  fix w :: "('a, 'b, 'c, 'd) world" and x w'
  assume "on_svc (enqueue (srv_redis S) i p) w = (x, w')"
  then obtain s where "enqueue (srv_redis S) i p (w_svc w) = (x, s)" "w' = w\<lparr>w_svc := s\<rparr>"
    by (rule on_svc_cases)
  with enqueue_frame [OF services_laws_parts(2) [OF assms], of i p "w_svc w" x s]
  show "keeping (key_held S k) w w'" by (simp add: keeping_def key_held_def redis_up_def)
qed

lemma key_held_create_one:
  "services_laws S \<Longrightarrow> evolves (keeping (key_held S k)) (create_one S p c acc)"
  unfolding create_one_def
  by (intro kept.evolves_bind kept.evolves_try kept.evolves_return kept.evolves_raise kept.evolves_of
      evolves_if key_held_db key_held_enqueue)

text \<open>The operation after both commands of the key.\<close>

definition create_rows ::
  "('d, 'r, 'q) services \<Rightarrow> notification_create \<Rightarrow>
   (('d, 'r, 'q, 'p) world, notification list \<times> bool) io"
where
  "create_rows S p =
     io_bind (io_of (enum_of_name event_members event_name (str_upper (req_event_type p)))) (\<lambda>event.
     io_bind (io_foreach (create_one S p) (event_channels event) []) (\<lambda>created_list.
     io_return (created_list, False)))"

lemma create_notification_parts:
  "create_notification S p =
     io_bind (on_client (r_setnx (srv_redis S) (redis_idem_key (req_idempotency_key p)) ''1'')) (\<lambda>is_new.
     if \<not> is_new then io_return ([], True)
     else io_bind (on_client (r_expire (srv_redis S) (redis_idem_key (req_idempotency_key p))
            IDEMPOTENCY_EXPIRY)) (\<lambda>_. create_rows S p))"
  unfolding create_notification_def create_rows_def Let_def ..

lemma create_notification_raise:
  assumes laws: "services_laws S" and up: "redis_up S w"
    and run: "create_notification S p w = (Inl e, w')"
  shows "key_held S (redis_idem_key (req_idempotency_key p)) w'"
proof -
  let ?k = "redis_idem_key (req_idempotency_key p)"
  obtain x w1 where setnx: "on_client (r_setnx (srv_redis S) ?k ''1'') w = (x, w1)"
    by (cases "on_client (r_setnx (srv_redis S) ?k ''1'') w")
  from client_setnx(3) [OF laws setnx up] obtain b where r1: "redis_up S w1" and x: "x = Inr b" by blast
  from client_setnx(2) [OF laws setnx x] have held: "key_held S ?k w1"
    using r1 by (simp add: key_held_def)
  have pos: "0 < IDEMPOTENCY_EXPIRY" by (simp add: IDEMPOTENCY_EXPIRY_def)
  obtain y w2 where expire: "on_client (r_expire (srv_redis S) ?k IDEMPOTENCY_EXPIRY) w1 = (y, w2)"
    by (cases "on_client (r_expire (srv_redis S) ?k IDEMPOTENCY_EXPIRY) w1")
  from client_expire(2,3) [OF laws expire pos] held have y: "y = Inr ()" and held2: "key_held S ?k w2"
    by (simp_all add: key_held_def)
  from run setnx expire x y have "create_rows S p w2 = (Inl e, w')"
    by (simp add: create_notification_parts io_bind_def io_return_def split: if_splits)
  moreover have "evolves (keeping (key_held S ?k)) (create_rows S p)"
    unfolding create_rows_def
    by (intro kept.evolves_bind kept.evolves_return kept.evolves_of kept.evolves_foreach
        key_held_create_one laws)
  ultimately show ?thesis using held2 by (auto dest!: evolvesD simp: keeping_def)
qed

section \<open>Manual retry\<close>

text \<open>The update that a manual retry makes of a row it accepts.\<close>

abbreviation requeue_attrs :: "notification \<Rightarrow> attr list" where
  "requeue_attrs n \<equiv> [Retry_count (retry_count n + 1), Error_code None, Next_retry_time None]"

lemma life_requeue:
  assumes laws: "services_laws S" and row: "w_rows S w i = Some n"
    and st: "status n \<noteq> status_value SENT" "status n \<noteq> status_value QUEUED"
    and run: "on_db (update_status (srv_pg S) i PENDING (requeue_attrs n)) w = (x, w')"
  shows "life_steps S w w'"
proof -
  from run obtain d where "update_status (srv_pg S) i PENDING (requeue_attrs n) (w_db w) = (x, d)"
    and w': "w' = w\<lparr>w_db := d\<rparr>" by (rule on_db_cases)
  from repo.set_rows [OF services_laws_parts(1) [OF laws] this(1)] show ?thesis
  proof
    assume "pg_rows (srv_pg S) d = w_rows S w"
    then show ?thesis by (intro life_steps_same) (simp add: w')
  next
    assume "updated i (Status (status_value PENDING) # requeue_attrs n) (w_rows S w) (pg_rows (srv_pg S) d)"
    from life_write.requeued [OF row st this] show ?thesis
      by (intro life_steps_write) (simp add: w')
  qed
qed

lemma life_retry_notification:
  assumes laws: "services_laws S"
  shows "evolves (life_steps S) (retry_notification S i)"
proof (rule evolvesI)
  fix w :: "('a, 'b, 'c, 'd) world" and x w'
  assume "retry_notification S i w = (x, w')"
  then show "life_steps S w w'"
    unfolding retry_notification_def
  proof (cases rule: io_bind_cases)
    case (raised e)
    from on_db_get_cases(1) [OF laws raised(1)] show ?thesis by (rule life_steps_same)
  next
    case (returned row w1)
    note get = on_db_get_cases [OF laws returned(1)]
    then have w1: "life_steps S w w1" by (intro life_steps_same)
    show ?thesis
    proof (cases "\<exists>n. row = Some n \<and> status n \<noteq> status_value SENT \<and> status n \<noteq> status_value QUEUED")
      case False
      with returned(2) have "w' = w1"
        by (auto simp: io_return_run split: option.splits if_splits)
      with w1 show ?thesis by simp
    next
      case True
      then obtain n where n: "row = Some n" "status n \<noteq> status_value SENT" "status n \<noteq> status_value QUEUED"
        by blast
      with get(1,4) have n1: "w_rows S w1 i = Some n" by simp
      from returned(2) n have "io_bind (on_db (update_status (srv_pg S) i PENDING (requeue_attrs n))) (\<lambda>upd.
          io_bind (on_svc (enqueue (srv_redis S) i (priority n))) (\<lambda>_. io_return (upd, ''''))) w1 = (x, w')"
        by simp
      then have "life_steps S w1 w'"
      proof (cases rule: io_bind_cases)
        case (raised e)
        with life_requeue [OF laws n1 n(2,3)] show ?thesis by blast
      next
        case (returned u w2)
        have "evolves (life_steps S)
          (io_bind (on_svc (enqueue (srv_redis S) i (priority n))) (\<lambda>_. io_return (u, '''')))"
          by (intro life.evolves_bind life.evolves_return evolves_life_same [OF on_parts_frame(3)])
        from life.transitive [OF life_requeue [OF laws n1 n(2,3) returned(1)] evolvesD [OF this returned(2)]]
        show ?thesis .
      qed
      from life.transitive [OF w1 this] show ?thesis .
    qed
  qed
qed

text \<open>A row that is sent or queued already is refused, and nothing is written.\<close>

lemma retry_notification_refused:
  assumes laws: "services_laws S" and up: "db_up S w"
    and refused: "\<And>n. w_rows S w i = Some n \<Longrightarrow> status n = status_value SENT \<or> status n = status_value QUEUED"
  obtains w' err where "retry_notification S i w = (Inr (None, err), w')" "err \<noteq> ''''"
    "w_rows S w' = w_rows S w" "w_svc w' = w_svc w"
proof -
  obtain x w1 where get: "on_db (get_by_id (srv_pg S) i) w = (x, w1)"
    by (cases "on_db (get_by_id (srv_pg S) i) w")
  note f = on_db_get_cases [OF laws get]
  from f(5) [OF up] have "x = Inr (w_rows S w i)" by simp
  with get f(1,2) refused show thesis
    by (cases "w_rows S w i") (fastforce simp: retry_notification_def io_bind_def io_return_def intro: that)+
qed

text \<open>Any other row is made pending, counts one retry more and is queued.\<close>

lemma retry_notification_accepted:
  assumes laws: "services_laws S" and up: "all_up S w" and row: "w_rows S w i = Some n"
    and prio: "1 \<le> priority n" "priority n \<le> 4"
    and st: "status n \<noteq> status_value SENT" "status n \<noteq> status_value QUEUED"
    and fits: "storable (set_attrs (Status (status_value PENDING) # requeue_attrs n) n)"
  obtains m t w' where "retry_notification S i w = (Inr (Some m, ''''), w')" "all_up S w'"
    "m = n\<lparr>status := status_value PENDING, retry_count := retry_count n + 1, error_code := None,
      next_retry_time := None, mtime := t\<rparr>"
    "w_rows S w' = (w_rows S w)(i \<mapsto> m)" "fst ` set (w_entries S w') = insert i (fst ` set (w_entries S w))"
proof -
  note pg = services_laws_parts(1) [OF laws]
  from up have db: "db_up S w" and redis: "redis_up S w" and ok: "queue_ok S w"
    by (simp_all add: all_up_def)
  obtain x w1 where get: "on_db (get_by_id (srv_pg S) i) w = (x, w1)"
    by (cases "on_db (get_by_id (srv_pg S) i) w")
  note f = on_db_get_cases [OF laws get]
  from f(5) [OF db] row have x: "x = Inr (Some n)" and db1: "db_up S w1" by simp_all
  from f(1) row have row1: "pg_rows (srv_pg S) (w_db w1) i = Some n" by simp
  from db1 have up1: "pg_up (srv_pg S) (w_db w1)" by (simp add: db_up_def)
  obtain m t d where upd: "update_status (srv_pg S) i PENDING (requeue_attrs n) (w_db w1) = (Inr (Some m), d)"
    and d: "pg_up (srv_pg S) d"
      "m = (set_attrs (Status (status_value PENDING) # requeue_attrs n) n)\<lparr>mtime := t\<rparr>"
      "pg_rows (srv_pg S) d = (w_rows S w1)(i \<mapsto> m)"
    using repo.set_available [OF pg up1 row1 fits] by blast
  define w2 where "w2 = w1\<lparr>w_db := d\<rparr>"
  have w2: "queue_ok S w2" "redis_up S w2"
    using ok redis f(2) by (simp_all add: w2_def queue_ok_def clock_ok_def redis_up_def)
  obtain z w' where enq: "on_svc (enqueue (srv_redis S) i (priority n)) w2 = (z, w')"
    by (cases "on_svc (enqueue (srv_redis S) i (priority n)) w2")
  note eff = world_enqueue [OF laws w2(1) prio enq]
    and eff_up = world_enqueue_up [OF laws w2(1) prio w2(2) enq]
  show thesis
  proof (rule that)
    show "retry_notification S i w = (Inr (Some m, ''''), w')"
      using get x upd enq eff_up st
      by (simp add: retry_notification_def io_bind_def io_return_def on_db_run w2_def)
    show "all_up S w'"
      using eff eff_up d(1) by (simp add: all_up_def db_up_def w2_def)
    show "w_rows S w' = (w_rows S w)(i \<mapsto> m)"
      using eff d(3) f(1) by (simp add: w2_def)
    have "w_entries S w2 = w_entries S w" using f(2) by (simp add: w2_def)
    with eff eff_up show "fst ` set (w_entries S w') = insert i (fst ` set (w_entries S w))"
      by (auto simp: insert_absorb)
  qed (simp add: d(2))
qed

section \<open>Listing\<close>

text \<open>
  A filter is absent, or it selects the value of the member its label names in any case, or it
  names none and raises a \<open>KeyError\<close>.
\<close>

context int_enum
begin

lemma filter_absent [simp]:
  "filter_value members nm val None = Inr None" "filter_value members nm val (Some []) = Inr None"
  by (simp_all add: filter_value_def)

lemma filter_member: "s \<noteq> [] \<Longrightarrow> str_upper s = nm x \<Longrightarrow> filter_value members nm val (Some s) = Inr (Some (val x))"
  by (simp add: filter_value_def)

lemma filter_unknown:
  "s \<noteq> [] \<Longrightarrow> str_upper s \<notin> range nm \<Longrightarrow> filter_value members nm val (Some s) = Inl KeyError"
  using of_name_error [of "str_upper s" KeyError] by (simp add: filter_value_def)

end

lemma repository_list_page:
  assumes "pg_laws P" "repository_list P st ch src ev limit offset d = (x, d')"
  shows "pg_rows P d' = pg_rows P d"
    and "x = Inr ns \<Longrightarrow> page_of (pg_rows P d) (list_query st ch src ev limit offset) ns"
  using pg_read_law(4) [OF assms(1) assms(2) [unfolded repository_list_def]] by blast+

text \<open>The listing reads: it writes to no service, whatever its outcome.\<close>

lemma list_notifications_reads:
  assumes "services_laws S"
  shows "evolves (same (w_rows S)) (list_notifications S st ch src ev limit offset)"
proof -
  have "evolves (same (w_rows S)) (on_db (repository_list (srv_pg S) a b c d limit offset))" for a b c d
    by (rule evolvesI)
      (auto simp: same_def elim!: on_db_cases dest: repository_list_page(1) [OF services_laws_parts(1) [OF assms]])
  then show ?thesis
    unfolding list_notifications_def by (intro unchanged.evolves_bind unchanged.evolves_of)
qed

text \<open>A page: at most \<open>limit\<close> rows of the table that pass every filter, latest first.\<close>

lemma list_notifications_page:
  assumes laws: "services_laws S"
    and filters: "filter_value status_members status_name status_value st = Inr st'"
      "filter_value channel_members channel_name channel_value ch = Inr ch'"
      "filter_value source_members source_name source_value src = Inr src'"
      "filter_value event_members event_name event_value ev = Inr ev'"
    and run: "list_notifications S st ch src ev limit offset w = (Inr ns, w')"
  shows "page_of (w_rows S w) (list_query st' ch' src' ev' limit offset) ns"
proof -
  from run filters have "on_db (repository_list (srv_pg S) st' ch' src' ev' limit offset) w = (Inr ns, w')"
    by (simp add: list_notifications_def)
  then obtain d where "repository_list (srv_pg S) st' ch' src' ev' limit offset (w_db w) = (Inr ns, d)"
    by (rule on_db_cases)
  from repository_list_page(2) [OF services_laws_parts(1) [OF laws] this] show ?thesis by simp
qed

section \<open>Rows that are there already\<close>

text \<open>With every row of the request in the table, the loop creates nothing.\<close>

lemma create_one_taken:
  assumes laws: "services_laws S" and p: "validated p src ev prio" "c \<in> set (event_channels ev)"
    and up: "db_up S w" and fits: "fits p src ev prio c"
    and taken: "key_taken (w_rows S w) (channel_idem_key (req_idempotency_key p) c)"
  obtains w' where "create_one S p c acc w = (Inr acc, w')" "db_up S w'" "w_rows S w' = w_rows S w"
    "w_svc w' = w_svc w"
proof -
  let ?a = "request_args p src ev prio c"
  note pg = services_laws_parts(1) [OF laws]
  from request_args_event(2) [OF p] obtain r where r: "a_recipient ?a = Some r" by blast
  with fits have store: "storable (row_of_args 0 0 r ?a)" by (simp add: fits_def)
  obtain y d where run: "repository_create (srv_pg S) ?a (w_db w) = (y, d)"
    by (cases "repository_create (srv_pg S) ?a (w_db w)")
  from repo.create_up [OF pg up [unfolded db_up_def] run r store] taken
  have y: "y = Inl IntegrityError" and d: "pg_up (srv_pg S) d" by simp_all
  have "\<not> inserted ?a i (w_rows S w) tbl" for i tbl using taken by (auto simp: inserted_def)
  with repo.create_rows [OF pg run] have rows: "pg_rows (srv_pg S) d = w_rows S w" by blast
  obtain z d' where roll: "pg_rollback (srv_pg S) d = (z, d')" by (cases "pg_rollback (srv_pg S) d")
  from pg_up_law(5) [OF pg d, of z d'] roll have z: "z = Inr ()" "pg_up (srv_pg S) d'" by simp_all
  from pg_read_law(5) [OF pg roll] rows have rows': "pg_rows (srv_pg S) d' = w_rows S w" by simp
  show thesis
  proof (rule that)
    show "create_one S p c acc w = (Inr acc, w\<lparr>w_db := d'\<rparr>)"
      using run y roll z(1)
      by (simp add: create_one_def channel_args_validated [OF p] io_try_def io_bind_def io_return_def on_db_run)
  qed (use z(2) rows' in \<open>simp_all add: db_up_def\<close>)
qed

lemma foreach_create_taken:
  assumes laws: "services_laws S" and p: "validated p src ev prio"
  shows "set cs \<subseteq> set (event_channels ev) \<Longrightarrow> db_up S w \<Longrightarrow>
    \<forall>c \<in> set cs. fits p src ev prio c \<and>
      key_taken (w_rows S w) (channel_idem_key (req_idempotency_key p) c) \<Longrightarrow>
    \<exists>w'. io_foreach (create_one S p) cs acc w = (Inr acc, w') \<and> w_rows S w' = w_rows S w \<and> w_svc w' = w_svc w"
proof (induction cs arbitrary: w)
  case (Cons c cs)
  from Cons.prems obtain w1 where one: "create_one S p c acc w = (Inr acc, w1)" "db_up S w1"
    "w_rows S w1 = w_rows S w" "w_svc w1 = w_svc w"
    using create_one_taken [OF laws p, of c w acc] by auto
  with Cons.prems have "\<exists>w'. io_foreach (create_one S p) cs acc w1 = (Inr acc, w') \<and>
      w_rows S w' = w_rows S w1 \<and> w_svc w' = w_svc w1"
    by (intro Cons.IH) simp_all
  with one show ?case by (auto simp: io_bind_def)
qed (simp add: io_return_run)

lemma create_notification_taken:
  assumes laws: "services_laws S" and p: "validated p src ev prio" and up: "db_up S w" "redis_up S w"
    and new: "w_kv S w (redis_idem_key (req_idempotency_key p)) = None"
    and chans: "\<forall>c \<in> set (event_channels ev). fits p src ev prio c \<and>
      key_taken (w_rows S w) (channel_idem_key (req_idempotency_key p) c)"
  obtains w' where "create_notification S p w = (Inr ([], False), w')" "w_rows S w' = w_rows S w"
    "w_entries S w' = w_entries S w"
proof -
  let ?k = "redis_idem_key (req_idempotency_key p)"
  obtain x w1 where setnx: "on_client (r_setnx (srv_redis S) ?k ''1'') w = (x, w1)"
    by (cases "on_client (r_setnx (srv_redis S) ?k ''1'') w")
  obtain y w2 where expire: "on_client (r_expire (srv_redis S) ?k IDEMPOTENCY_EXPIRY) w1 = (y, w2)"
    by (cases "on_client (r_expire (srv_redis S) ?k IDEMPOTENCY_EXPIRY) w1")
  have pos: "0 < IDEMPOTENCY_EXPIRY" by (simp add: IDEMPOTENCY_EXPIRY_def)
  note f1 = client_setnx [OF laws setnx] and f2 = client_expire [OF laws expire pos]
  from f1(3) [OF up(2)] obtain b where b: "x = Inr b" and r1: "redis_up S w1" by blast
  from f1(2) [OF b] new b have x: "x = Inr True" by simp
  from f2(3) [OF r1] have y: "y = Inr ()" by simp
  have w2: "w_db w2 = w_db w" "w_entries S w2 = w_entries S w"
    using f1(1) f2(1) by (simp_all add: client_frame_def)
  then have "db_up S w2" "w_rows S w2 = w_rows S w" using up(1) by (simp_all add: db_up_def)
  with chans foreach_create_taken [OF laws p subset_refl, of w2 "[]"]
  obtain w' where run: "io_foreach (create_one S p) (event_channels ev) [] w2 = (Inr [], w')"
    "w_rows S w' = w_rows S w" "w_svc w' = w_svc w2" by auto
  have "create_notification S p w = (Inr ([], False), w')"
    using setnx expire x y run(1) p by (simp add: create_notification_def Let_def io_bind_def io_return_def)
  with run(2,3) w2(2) that show thesis by simp
qed

end
