(* ===== verification/Response_Schema.thy ===== *)
theory Response_Schema
  imports Request_Schema
begin

text \<open>
  \<open>app/schemas/notification_response.py\<close>: the response models, built from the ORM objects
  that the routes return, with the integer columns turned back into labels. The branch of the
  \<open>convert\<close> validators for an argument without \<open>__dict__\<close> returns it as it is; no
  caller in the code makes use of it and it is not modelled.
\<close>

text \<open>\<open>int_to_label\<close> falls back to \<open>str(value)\<close> when the value is no member's.\<close>

definition int_to_label :: "'e list \<Rightarrow> ('e \<Rightarrow> string) \<Rightarrow> ('e \<Rightarrow> int) \<Rightarrow> int \<Rightarrow> string" where
  "int_to_label ms nm val v =
     (case enum_of_value ms val v of Inr x \<Rightarrow> str_lower (nm x) | Inl _ \<Rightarrow> str_of_int v)"

record notification_channel_status =
  cs_id :: int
  cs_channel :: string
  cs_status :: string
  cs_ctime :: int

definition channel_status_convert :: "notification \<Rightarrow> notification_channel_status" where
  "channel_status_convert n =
     \<lparr>cs_id = nid n,
      cs_channel = int_to_label channel_members channel_name channel_value (channel n),
      cs_status = int_to_label status_members status_name status_value (status n),
      cs_ctime = ctime n\<rparr>"

record notification_created_response =
  cr_idempotency_key :: string
  cr_event_type :: string
  cr_notifications :: "notification_channel_status list"

record notification_detail_response =
  dr_id :: int
  dr_idempotency_key :: string
  dr_source_service :: string
  dr_event_type :: string
  dr_channel :: string
  dr_recipient :: string
  dr_priority :: string
  dr_status :: string
  dr_error_code :: "string option"
  dr_retry_count :: int
  dr_next_retry_time :: "int option"
  dr_external_id :: "string option"
  dr_content :: json
  dr_ctime :: int
  dr_mtime :: "int option"
  dr_stime :: "int option"

text \<open>\<open>... if data.error_code else None\<close>: zero and \<open>None\<close> are both false.\<close>

definition error_label :: "int option \<Rightarrow> string option" where
  "error_label e =
     (case e of None \<Rightarrow> None
      | Some v \<Rightarrow> if v = 0 then None
                  else Some (int_to_label error_members error_name error_value v))"

definition detail_convert :: "notification \<Rightarrow> notification_detail_response" where
  "detail_convert n =
     \<lparr>dr_id = nid n,
      dr_idempotency_key = idempotency_key n,
      dr_source_service = int_to_label source_members source_name source_value (source_service n),
      dr_event_type = int_to_label event_members event_name event_value (event_type n),
      dr_channel = int_to_label channel_members channel_name channel_value (channel n),
      dr_recipient = recipient n,
      dr_priority = int_to_label priority_members priority_name priority_value (priority n),
      dr_status = int_to_label status_members status_name status_value (status n),
      dr_error_code = error_label (error_code n),
      dr_retry_count = retry_count n,
      dr_next_retry_time = next_retry_time n,
      dr_external_id = external_id n,
      dr_content = content n,
      dr_ctime = ctime n,
      dr_mtime = mtime n,
      dr_stime = stime n\<rparr>"

record notification_list_response =
  lr_id :: int
  lr_source_service :: string
  lr_event_type :: string
  lr_channel :: string
  lr_status :: string
  lr_priority :: string
  lr_recipient :: string
  lr_retry_count :: int
  lr_ctime :: int
  lr_stime :: "int option"

definition list_convert :: "notification \<Rightarrow> notification_list_response" where
  "list_convert n =
     \<lparr>lr_id = nid n,
      lr_source_service = int_to_label source_members source_name source_value (source_service n),
      lr_event_type = int_to_label event_members event_name event_value (event_type n),
      lr_channel = int_to_label channel_members channel_name channel_value (channel n),
      lr_status = int_to_label status_members status_name status_value (status n),
      lr_priority = int_to_label priority_members priority_name priority_value (priority n),
      lr_recipient = recipient n,
      lr_retry_count = retry_count n,
      lr_ctime = ctime n,
      lr_stime = stime n\<rparr>"

record retry_response =
  rr_id :: int
  rr_status :: string
  rr_retry_count :: int
  rr_message :: string

section \<open>Labels read back\<close>

context int_enum
begin

lemma label_of_value [simp]: "int_to_label members nm val (val x) = str_lower (nm x)"
  by (simp add: int_to_label_def)

lemma label_fallback: "v \<notin> range val \<Longrightarrow> int_to_label members nm val v = str_of_int v"
  using of_value_error [of v ValueError] by (simp add: int_to_label_def)

text \<open>
  Among values of members, the label determines the value. A fallback label never looks like
  a member's: \<open>str_of_int\<close> starts with a digit or a minus sign.
\<close>

lemma label_inject:
  "v \<in> range val \<Longrightarrow> w \<in> range val \<Longrightarrow>
   int_to_label members nm val v = int_to_label members nm val w \<longleftrightarrow> v = w"
  by (auto simp: lower_name_inject)

end

end
