(* ===== verification/Retry_Policy.thy ===== *)
theory Retry_Policy
  imports Services
begin

text \<open>
  The retry policy of \<open>app/services/dispatch_service.py\<close>: the configuration per event type
  and the exponential backoff with a jitter window.
\<close>

record retry_config =
  max_retries :: int
  base_delay :: int
  max_delay :: int
  use_jitter :: bool

definition otp_retry_config :: retry_config where
  "otp_retry_config = \<lparr>max_retries = 3, base_delay = 5, max_delay = 30, use_jitter = False\<rparr>"

definition bulk_retry_config :: retry_config where
  "bulk_retry_config = \<lparr>max_retries = 3, base_delay = 15, max_delay = 3600, use_jitter = True\<rparr>"

definition RETRY_CONFIG :: "(event_type_t \<times> retry_config) list" where
  "RETRY_CONFIG =
     [(PAYMENT_OTP_REQUESTED, otp_retry_config),
      (PAYMENT_FAILED,        bulk_retry_config),
      (PAYMENT_CONFIRMED,     bulk_retry_config),
      (ORDER_CREATED,         bulk_retry_config),
      (ORDER_CANCELLED,       bulk_retry_config),
      (SHIPMENT_DISPATCHED,   bulk_retry_config),
      (SHIPMENT_DELIVERED,    bulk_retry_config),
      (SHIPMENT_DELAYED,      bulk_retry_config)]"

definition DEFAULT_RETRY_CONFIG :: retry_config where
  "DEFAULT_RETRY_CONFIG = \<lparr>max_retries = 3, base_delay = 15, max_delay = 3600, use_jitter = True\<rparr>"

text \<open>\<open>RETRY_CONFIG.get(event_type, DEFAULT_RETRY_CONFIG)\<close>\<close>

definition retry_config_for :: "event_type_t \<Rightarrow> retry_config" where
  "retry_config_for ev = (case map_of RETRY_CONFIG ev of None \<Rightarrow> DEFAULT_RETRY_CONFIG | Some c \<Rightarrow> c)"

text \<open>
  \<open>get_retry_delay\<close>, in seconds. For a \<open>retry_count\<close> below 1 the power is no integer any
  more: drawing from the window is then a \<open>TypeError\<close>, and without jitter the code returns a
  fraction, which the model does not follow. The callers pass a count of at least 1.
\<close>

definition get_retry_delay :: "int \<Rightarrow> int \<Rightarrow> int \<Rightarrow> bool \<Rightarrow> (host, int) io" where
  "get_retry_delay count base max_d jitter =
     (if count < 1 then io_raise TypeError
      else
        let low = min (base * 2 ^ nat (count - 1)) max_d;
            high = min (base * 2 ^ nat count) max_d
        in if jitter then host_randint low high else io_return low)"

section \<open>Windows\<close>

definition window_low :: "retry_config \<Rightarrow> int \<Rightarrow> int" where
  "window_low c k = min (base_delay c * 2 ^ nat (k - 1)) (max_delay c)"

definition window_high :: "retry_config \<Rightarrow> int \<Rightarrow> int" where
  "window_high c k = min (base_delay c * 2 ^ nat k) (max_delay c)"

lemma retry_config_for_simps:
  "retry_config_for ev = (if ev = PAYMENT_OTP_REQUESTED then otp_retry_config else bulk_retry_config)"
  by (cases ev) (simp_all add: retry_config_for_def RETRY_CONFIG_def)

lemma retry_config_fields [simp]:
  "max_retries (retry_config_for ev) = 3"
  "base_delay (retry_config_for ev) = (if ev = PAYMENT_OTP_REQUESTED then 5 else 15)"
  "max_delay (retry_config_for ev) = (if ev = PAYMENT_OTP_REQUESTED then 30 else 3600)"
  "use_jitter (retry_config_for ev) \<longleftrightarrow> ev \<noteq> PAYMENT_OTP_REQUESTED"
  by (simp_all add: retry_config_for_simps otp_retry_config_def bulk_retry_config_def)

lemma window_ordered: "0 \<le> base_delay c \<Longrightarrow> window_low c k \<le> window_high c k"
proof -
  assume "0 \<le> base_delay c"
  moreover have "(2::int) ^ nat (k - 1) \<le> 2 ^ nat k" by (rule power_increasing) auto
  ultimately have "base_delay c * 2 ^ nat (k - 1) \<le> base_delay c * 2 ^ nat k"
    by (rule mult_left_mono [rotated])
  then show ?thesis by (simp add: window_low_def window_high_def min_le_iff_disj)
qed

text \<open>The next window starts where this one ends.\<close>

lemma window_next: "1 \<le> k \<Longrightarrow> window_low c (k + 1) = window_high c k"
  by (simp add: window_low_def window_high_def)

lemma window_le_max: "window_low c k \<le> max_delay c" "window_high c k \<le> max_delay c"
  by (simp_all add: window_low_def window_high_def)

text \<open>The delay always exists, lies in its window, and is the low end without jitter.\<close>

lemma get_retry_delay_window:
  assumes "1 \<le> k" "0 \<le> base_delay c"
  obtains d h' where "get_retry_delay k (base_delay c) (max_delay c) (use_jitter c) h = (Inr d, h')"
    "window_low c k \<le> d" "d \<le> window_high c k" "\<not> use_jitter c \<Longrightarrow> d = window_low c k"
proof (cases "use_jitter c")
  case True
  from window_ordered [OF assms(2)] obtain d h' where
    "host_randint (window_low c k) (window_high c k) h = (Inr d, h')"
    "window_low c k \<le> d" "d \<le> window_high c k"
    by (rule host_randint_range)
  with True assms(1) show thesis
    by (intro that [of d h']) (simp_all add: get_retry_delay_def window_low_def window_high_def Let_def)
next
  case False
  with assms(1) window_ordered [OF assms(2), of k] show thesis
    by (intro that [of "window_low c k" h])
      (simp_all add: get_retry_delay_def window_low_def window_high_def Let_def io_return_run)
qed

end
