(* ===== verification/Retry_Publishing.thy ===== *)
theory Retry_Publishing
  imports Queue_Service
begin

text \<open>
  What \<open>publish_retry\<close> and \<open>close_rabbitmq\<close> of \<open>app/services/queue_service.py\<close> do to
  the broker, and how they depend on the cached connection: the operations of
  \<open>Queue_Service\<close> under the laws of AMQP.
\<close>

section \<open>Frames\<close>

lemma on_amqp_run [io_simps]: "m (svc_amqp s) = (x, q) \<Longrightarrow> on_amqp m s = (x, s\<lparr>svc_amqp := q\<rparr>)"
  by (simp add: on_amqp_def io_zoom_def)

lemma on_host_run [io_simps]: "m (svc_host s) = (x, h) \<Longrightarrow> on_host m s = (x, s\<lparr>svc_host := h\<rparr>)"
  by (simp add: on_host_def io_zoom_def)

lemma on_amqp_cases:
  assumes "on_amqp m s = (x, s')"
  obtains q where "m (svc_amqp s) = (x, q)" "s' = s\<lparr>svc_amqp := q\<rparr>"
  using assms by (auto simp: on_amqp_def elim: io_zoom_cases)

lemma on_host_cases:
  assumes "on_host m s = (x, s')"
  obtains h where "m (svc_host s) = (x, h)" "s' = s\<lparr>svc_host := h\<rparr>"
  using assms by (auto simp: on_host_def elim: io_zoom_cases)

lemma svc_frame:
  "evolves (same svc_redis) (on_amqp m)" "evolves (same svc_host) (on_amqp m)"
  "evolves (same svc_redis) (on_host k)" "evolves (same svc_amqp) (on_host k)"
  by (auto simp: evolves_def same_def on_amqp_def on_host_def io_zoom_def split: prod.splits)

text \<open>Both servers but AMQP, and the clock, are out of reach of the retry publisher.\<close>

definition amqp_only :: "('r, 'q) qsvc \<Rightarrow> ('r, 'q) qsvc \<Rightarrow> bool" where
  "amqp_only s s' \<longleftrightarrow> svc_redis s' = svc_redis s \<and> svc_host s' = svc_host s"

interpretation amqp_part: io_preorder amqp_only
  by unfold_locales (auto simp: amqp_only_def)

lemma amqp_only_on_amqp: "evolves amqp_only (on_amqp m)"
  by (auto simp: evolves_def amqp_only_def on_amqp_def io_zoom_def split: prod.splits)

lemmas amqp_only_intros =
  amqp_part.evolves_bind amqp_part.evolves_try amqp_part.evolves_return amqp_part.evolves_raise
  amqp_part.evolves_gets amqp_part.evolves_modify amqp_only_on_amqp evolves_case_option evolves_if

lemma get_rabbitmq_channel_amqp_only: "evolves amqp_only (get_rabbitmq_channel A)"
  unfolding get_rabbitmq_channel_def connect_and_open_def reopen_channel_def
  by (intro amqp_only_intros) (simp_all add: amqp_only_def)

lemma publish_retry_amqp_only: "evolves amqp_only (publish_retry A i d)"
  unfolding publish_retry_def publish_on_def
  by (intro amqp_only_intros get_rabbitmq_channel_amqp_only)

lemma close_rabbitmq_amqp_only: "evolves amqp_only (close_rabbitmq A)"
  unfolding close_rabbitmq_def by (intro amqp_only_intros) (simp_all add: amqp_only_def)

section \<open>What is published\<close>

abbreviation svc_published :: "'q amqp \<Rightarrow> ('r, 'q) qsvc \<Rightarrow> publication list" where
  "svc_published A s \<equiv> q_published A (svc_amqp s)"

lemma quiet_on_amqp:
  assumes "q_quiet A m"
  shows "evolves (same (svc_published A)) (on_amqp m)"
  by (rule evolvesI) (use assms in \<open>auto simp: same_def q_quiet_def elim!: on_amqp_cases\<close>)

lemma amqp_laws_parts:
  assumes "amqp_laws A"
  shows "amqp_quiet_laws A" and "amqp_effect_laws A" and "amqp_up_laws A"
  using assms by (simp_all add: amqp_laws_def)

lemma quiet_laws:
  assumes "amqp_laws A"
  shows "q_quiet A (q_connect A)" "q_quiet A (q_open_channel A c)" "q_quiet A (q_conn_is_closed A c)"
    "q_quiet A (q_chan_is_closed A c)" "q_quiet A (q_set_qos A c k)"
    "q_quiet A (q_declare_exchange A c e t)" "q_quiet A (q_declare_queue A c n d)"
    "q_quiet A (q_bind A c n e rko)" "q_quiet A (q_consume A c n)" "q_quiet A (q_close A c)"
  using amqp_laws_parts(1) [OF assms] by (simp_all add: amqp_quiet_laws_def)

lemma publish_law:
  assumes "amqp_laws A" "q_publish A c e rk m q = (x, q')"
  shows "x = Inr () \<Longrightarrow> q_published A q' = q_published A q @ [(e, rk, m)]"
    and "q_published A q' = q_published A q \<or> q_published A q' = q_published A q @ [(e, rk, m)]"
    and "q_settled A q' = q_settled A q"
proof -
  note law = amqp_laws_parts(2) [OF assms(1), unfolded amqp_effect_laws_def, THEN conjunct1,
      THEN spec, THEN spec, THEN spec, THEN spec, THEN spec, THEN spec, THEN spec, THEN mp, OF assms(2)]
  show "x = Inr () \<Longrightarrow> q_published A q' = q_published A q @ [(e, rk, m)]"
    using law by (simp add: Let_def)
  show "q_published A q' = q_published A q \<or> q_published A q' = q_published A q @ [(e, rk, m)]"
    using law by (auto simp: Let_def split: sum.splits)
  show "q_settled A q' = q_settled A q" using law by simp
qed

lemmas published_intros =
  unchanged.evolves_bind unchanged.evolves_try unchanged.evolves_return unchanged.evolves_raise
  unchanged.evolves_gets unchanged.evolves_modify evolves_case_option evolves_if

lemma get_rabbitmq_channel_quiet:
  assumes "amqp_laws A"
  shows "evolves (same (svc_published A)) (get_rabbitmq_channel A)"
  unfolding get_rabbitmq_channel_def connect_and_open_def reopen_channel_def
  by (intro published_intros quiet_on_amqp quiet_laws assms) (simp_all add: same_def)

text \<open>At most one message is published, and exactly one when the call returns.\<close>

definition publishes :: "'q amqp \<Rightarrow> publication \<Rightarrow> ('r, 'q) qsvc \<Rightarrow> py_exn + 'a \<Rightarrow> ('r, 'q) qsvc \<Rightarrow> bool" where
  "publishes A msg s x s' \<longleftrightarrow>
     svc_published A s' = svc_published A s @ [msg] \<or>
     svc_published A s' = svc_published A s \<and> isl x"

lemma publishes_after:
  assumes "svc_published A s1 = svc_published A s" "publishes A msg s1 x s'"
  shows "publishes A msg s x s'"
  using assms by (simp add: publishes_def)

lemma publishes_bind:
  assumes "\<And>x t. m s = (x, t) \<Longrightarrow> svc_published A t = svc_published A s"
    and "\<And>y t x. svc_published A t = svc_published A s \<Longrightarrow> f y t = (x, s') \<Longrightarrow> publishes A msg t x s'"
    and "io_bind m f s = (x, s')"
  shows "publishes A msg s x s'"
  using assms(3)
proof (cases rule: io_bind_cases)
  case (raised e)
  with assms(1) show ?thesis by (simp add: publishes_def)
next
  case (returned y t)
  with assms(1,2) show ?thesis by (blast intro: publishes_after)
qed

lemma quiet_keeps:
  "q_quiet A m \<Longrightarrow> on_amqp m s = (x, t) \<Longrightarrow> svc_published A t = svc_published A s"
  by (drule quiet_on_amqp) (auto dest!: evolvesD simp: same_def)

lemma on_amqp_publish:
  assumes "amqp_laws A" "on_amqp (q_publish A ch e rk m) s = (x, s')"
  shows "publishes A (e, rk, m) s x s'"
proof -
  from assms(2) obtain q where "q_publish A ch e rk m (svc_amqp s) = (x, q)" "s' = s\<lparr>svc_amqp := q\<rparr>"
    by (rule on_amqp_cases)
  with publish_law(1,2) [OF assms(1) this(1)] show ?thesis
    by (cases x) (auto simp: publishes_def)
qed

lemma publish_on_effect:
  assumes laws: "amqp_laws A" and run: "publish_on A ch i d s = (x, s')"
  shows "publishes A ('''', RETRY_QUEUE, retry_message i d) s x s' \<and> (\<forall>b. x = Inr b \<longrightarrow> b)"
proof
  show "publishes A ('''', RETRY_QUEUE, retry_message i d) s x s'"
  proof (rule publishes_bind [OF _ _ run [unfolded publish_on_def]])
    fix t y u z
    assume "io_bind (on_amqp (q_publish A ch '''' RETRY_QUEUE (retry_message i d))) (\<lambda>_. io_return True) t = (z, s')"
    then show "publishes A ('''', RETRY_QUEUE, retry_message i d) t z s'"
      by (cases rule: io_bind_cases)
        (auto simp: io_return_run publishes_def dest!: on_amqp_publish [OF laws])
  qed (rule quiet_keeps [OF quiet_laws(7) [OF laws]])
  show "\<forall>b. x = Inr b \<longrightarrow> b"
    using run unfolding publish_on_def
    by (auto elim!: io_bind_cases simp: io_return_run)
qed

text \<open>
  \<open>publish_retry\<close> never raises. If it says so, exactly one message is published: the id in
  decimal, persistent, with the delay as its expiration, to the retry queue by the default exchange.
\<close>

lemma publish_retry_effect:
  assumes laws: "amqp_laws A" and run: "publish_retry A i d s = (x, s')"
  obtains b where "x = Inr b"
    "b \<Longrightarrow> svc_published A s' = svc_published A s @ [('''', RETRY_QUEUE, retry_message i d)]"
    "svc_published A s' = svc_published A s \<or>
     svc_published A s' = svc_published A s @ [('''', RETRY_QUEUE, retry_message i d)]"
proof -
  let ?msg = "('''', RETRY_QUEUE, retry_message i d)"
  have body: "publishes A ?msg s y t \<and> (\<forall>b. y = Inr b \<longrightarrow> b)"
    if m: "io_bind (get_rabbitmq_channel A) (\<lambda>channel_obj.
      case channel_obj of None \<Rightarrow> io_raise AttributeError | Some ch \<Rightarrow> publish_on A ch i d) s = (y, t)" for y t
    using m
  proof (cases rule: io_bind_cases)
    case (raised e)
    with evolvesD [OF get_rabbitmq_channel_quiet [OF laws] raised(1)] show ?thesis
      by (simp add: same_def publishes_def)
  next
    case (returned chan s1)
    from evolvesD [OF get_rabbitmq_channel_quiet [OF laws] returned(1)]
    have s1: "svc_published A s1 = svc_published A s" by (simp add: same_def)
    with returned(2) publish_on_effect [OF laws, of _ i d s1 y t] show ?thesis
      by (cases chan) (auto simp: io_raise_run publishes_def)
  qed
  from run show thesis
    unfolding publish_retry_def
  proof (cases rule: io_try_cases)
    case (caught e t)
    with body [OF caught(1)] show thesis
      by (intro that [of False]) (auto simp: io_return_run publishes_def)
  next
    case (returned b)
    with body [OF returned(1)] show thesis
      by (intro that [of b]) (auto simp: publishes_def)
  qed
qed

section \<open>The cached connection\<close>

text \<open>Without a cached connection and with a broker that answers, the retry is published.\<close>

lemma answers:
  "q_answers A m \<Longrightarrow> q_up A (svc_amqp s) \<Longrightarrow>
   \<exists>y q. on_amqp m s = (Inr y, s\<lparr>svc_amqp := q\<rparr>) \<and> q_up A q"
  unfolding q_answers_def by (cases "m (svc_amqp s)") (auto simp: on_amqp_def io_zoom_def)

lemma up_laws:
  assumes "amqp_laws A"
  shows "q_answers A (q_connect A)" "q_answers A (q_open_channel A c)"
    "q_answers A (q_declare_queue A c n d)" "q_answers A (q_publish A c e rk m)"
    "q_answers A (q_set_qos A c k)" "q_answers A (q_declare_exchange A c e t)"
    "q_answers A (q_bind A c n e rko)" "q_answers A (q_consume A c n)" "q_answers A (q_close A c)"
    "q_answers A (q_ack A i)" "q_answers A (q_nack A i b)"
  using amqp_laws_parts(3) [OF assms] by (simp_all add: amqp_up_laws_def)

lemma publish_retry_fresh:
  assumes laws: "amqp_laws A" and up: "q_up A (svc_amqp s)" and none: "rmq_connection s = None"
  obtains s' where "publish_retry A i d s = (Inr True, s')" "q_up A (svc_amqp s')"
    "rmq_connection s' \<noteq> None" "rmq_channel s' \<noteq> None"
proof -
  from answers [OF up_laws(1) [OF laws] up] obtain c q1 where
    1: "on_amqp (q_connect A) s = (Inr c, s\<lparr>svc_amqp := q1\<rparr>)" "q_up A q1" by blast
  define s1 where "s1 = s\<lparr>svc_amqp := q1, rmq_connection := Some c\<rparr>"
  have "q_up A (svc_amqp s1)" using 1(2) by (simp add: s1_def)
  from answers [OF up_laws(2) [OF laws] this, of c] obtain ch q2 where
    2: "on_amqp (q_open_channel A c) s1 = (Inr ch, s1\<lparr>svc_amqp := q2\<rparr>)" "q_up A q2" by blast
  define s2 where "s2 = s1\<lparr>svc_amqp := q2, rmq_channel := Some ch\<rparr>"
  have chan: "get_rabbitmq_channel A s = (Inr (Some ch), s2)"
    using none 1(1) 2(1)
    by (simp add: get_rabbitmq_channel_def connect_and_open_def io_simps s1_def s2_def)
  have "q_up A (svc_amqp s2)" using 2(2) by (simp add: s2_def)
  from answers [OF up_laws(3) [OF laws] this, of ch RETRY_QUEUE "Some RETRY_EXCHANGE"] obtain q3 where
    3: "on_amqp (q_declare_queue A ch RETRY_QUEUE (Some RETRY_EXCHANGE)) s2 = (Inr (), s2\<lparr>svc_amqp := q3\<rparr>)"
      "q_up A q3" by auto
  have "q_up A (svc_amqp (s2\<lparr>svc_amqp := q3\<rparr>))" using 3(2) by simp
  from answers [OF up_laws(4) [OF laws] this, of ch "''''" RETRY_QUEUE "retry_message i d"] obtain q4 where
    4: "on_amqp (q_publish A ch '''' RETRY_QUEUE (retry_message i d)) (s2\<lparr>svc_amqp := q3\<rparr>) =
      (Inr (), s2\<lparr>svc_amqp := q4\<rparr>)" "q_up A q4" by auto
  have "publish_retry A i d s = (Inr True, s2\<lparr>svc_amqp := q4\<rparr>)"
    using chan 3(1) 4(1) by (simp add: publish_retry_def publish_on_def io_bind_def io_try_def io_return_def)
  moreover have "q_up A (svc_amqp (s2\<lparr>svc_amqp := q4\<rparr>))" using 4(2) by simp
  moreover have "rmq_connection (s2\<lparr>svc_amqp := q4\<rparr>) = Some c" "rmq_channel (s2\<lparr>svc_amqp := q4\<rparr>) = Some ch"
    by (simp_all add: s2_def s1_def)
  ultimately show thesis by (intro that [of "s2\<lparr>svc_amqp := q4\<rparr>"]) simp_all
qed

text \<open>
  With a connection in the cache, \<open>is_closed()\<close> is evaluated, and where it is a property the
  call raises: nothing is published, and both handles are dropped.
\<close>

lemma publish_retry_cached:
  assumes "is_closed_is_property A" "rmq_connection s = Some c"
  shows "publish_retry A i d s = (Inr False, s\<lparr>rmq_connection := None, rmq_channel := None\<rparr>)"
proof -
  have "on_amqp (q_conn_is_closed A c) s = (Inl TypeError, s)"
    using assms(1) by (simp add: is_closed_is_property_def on_amqp_def io_zoom_def)
  with assms(2) show ?thesis
    by (simp add: publish_retry_def get_rabbitmq_channel_def io_simps)
qed

lemma close_rabbitmq_cached:
  assumes "is_closed_is_property A" "rmq_connection s = Some c"
  shows "close_rabbitmq A s = (Inr (), s)"
proof -
  have "on_amqp (q_conn_is_closed A c) s = (Inl TypeError, s)"
    using assms(1) by (simp add: is_closed_is_property_def on_amqp_def io_zoom_def)
  with assms(2) show ?thesis by (simp add: close_rabbitmq_def io_simps)
qed

end
