(* ===== verification/Dispatch.thy ===== *)
theory Dispatch
  imports Notification_World Retry_Policy Retry_Publishing
begin

text \<open>
  The \<open>DispatchService\<close> of \<open>app/services/dispatch_service.py\<close>: one attempt to send a
  notification, and what is made of its result. The object \<open>notification\<close> of the source is the
  one the session keeps for the row, so \<open>update_status\<close> refreshes it: the model passes the
  refreshed object on, and \<open>mark_failed\<close> returns it for the same reason. The log lines
  are left out, the conversions in their arguments that can raise are kept.
\<close>

section \<open>Operations\<close>

definition DLQ_EXCHANGE :: string where
  "DLQ_EXCHANGE = ''notification.dlq.exchange''"

definition DLQ_QUEUE :: string where
  "DLQ_QUEUE = ''notification.dlq''"

text \<open>
  The loaded object after an \<open>update_status\<close> of its row. The time of sending is a UTC time the code
  strips of its zone; asyncpg takes it for local time, so the instant stored is the one of the model
  where the process runs in UTC.
\<close>

definition refreshed :: "notification \<Rightarrow> notification option \<Rightarrow> notification" where
  "refreshed n upd = (case upd of None \<Rightarrow> n | Some n' \<Rightarrow> n')"

definition mark_sent ::
  "('d, 'r, 'q) services \<Rightarrow> notification \<Rightarrow> string option \<Rightarrow> (('d, 'r, 'q, 'p) world, unit) io"
where
  "mark_sent S n ext_id =
     io_bind (on_svc (on_host host_now)) (\<lambda>now.
     io_bind (on_db (update_status (srv_pg S) (nid n) SENT [External_id ext_id, Stime (Some now)])) (\<lambda>upd.
     io_bind (io_of (enum_of_value channel_members channel_value (channel (refreshed n upd)))) (\<lambda>_.
     io_return ())))"

definition mark_failed ::
  "('d, 'r, 'q) services \<Rightarrow> notification \<Rightarrow> notification_error_code \<Rightarrow>
   (('d, 'r, 'q, 'p) world, notification) io"
where
  "mark_failed S n code =
     io_bind (on_db (update_status (srv_pg S) (nid n) FAILED [Error_code (Some (error_value code))])) (\<lambda>upd.
     io_bind (io_of (enum_of_value channel_members channel_value (channel (refreshed n upd)))) (\<lambda>_.
     io_return (refreshed n upd)))"

text \<open>The dead letter, its keys in the order of the source.\<close>

definition dlq_payload ::
  "notification \<Rightarrow> event_type_t \<Rightarrow> notification_channel \<Rightarrow> notification_error_code \<Rightarrow> string \<Rightarrow> json"
where
  "dlq_payload n ev ch code failed_at =
     JObj
       [(''notification_id'', JInt (nid n)),
        (''idempotency_key'', JStr (idempotency_key n)),
        (''event_type'', JStr (str_lower (event_name ev))),
        (''channel'', JStr (str_lower (channel_name ch))),
        (''recipient'', JStr (recipient n)),
        (''error_code'', JStr (str_lower (error_name code))),
        (''retry_count'', JInt (retry_count n)),
        (''failure_reason'', JStr (''Exhausted all retries. Last error: '' @ error_name code)),
        (''failed_at'', JStr failed_at)]"

definition dlq_message :: "json \<Rightarrow> amqp_message" where
  "dlq_message payload =
     \<lparr>m_body = Body_json payload, m_persistent = True, m_expiration = None,
      m_content_type = Some ''application/json''\<rparr>"

text \<open>\<open>datetime.now(timezone.utc).isoformat()\<close>\<close>

definition host_isoformat :: "(host, string) io" where
  "host_isoformat = io_bind host_now (\<lambda>t. io_gets (\<lambda>h. h_iso h t))"

text \<open>
  \<open>_send_to_dlq\<close>: a connection of its own, closed by the context manager; whatever
  raises is only logged.
\<close>

definition dlq_publish ::
  "('d, 'r, 'q) services \<Rightarrow> nat \<Rightarrow> notification \<Rightarrow> notification_error_code \<Rightarrow>
   (('r, 'q) qsvc, unit) io"
where
  "dlq_publish S connection n code =
     (let A = srv_amqp S in
      io_bind (on_amqp (q_open_channel A connection)) (\<lambda>ch.
      io_bind (on_amqp (q_declare_exchange A ch DLQ_EXCHANGE Fanout)) (\<lambda>_.
      io_bind (on_amqp (q_declare_queue A ch DLQ_QUEUE None)) (\<lambda>_.
      io_bind (on_amqp (q_bind A ch DLQ_QUEUE DLQ_EXCHANGE None)) (\<lambda>_.
      io_bind (io_of (enum_of_value event_members event_value (event_type n))) (\<lambda>ev.
      io_bind (io_of (enum_of_value channel_members channel_value (channel n))) (\<lambda>c.
      io_bind (on_host host_isoformat) (\<lambda>failed_at.
      on_amqp (q_publish A ch DLQ_EXCHANGE '''' (dlq_message (dlq_payload n ev c code failed_at)))))))))))"

definition send_to_dlq ::
  "('d, 'r, 'q) services \<Rightarrow> notification \<Rightarrow> notification_error_code \<Rightarrow>
   (('d, 'r, 'q, 'p) world, unit) io"
where
  "send_to_dlq S n code =
     on_svc (io_try
       (io_bind (on_amqp (q_connect (srv_amqp S))) (\<lambda>connection.
        io_finally (dlq_publish S connection n code) (on_amqp (q_close (srv_amqp S) connection))))
       (\<lambda>_. io_return ()))"

definition schedule_retry ::
  "('d, 'r, 'q) services \<Rightarrow> notification \<Rightarrow> notification_error_code \<Rightarrow>
   (('d, 'r, 'q, 'p) world, unit) io"
where
  "schedule_retry S n code =
     io_bind (io_of (enum_of_value event_members event_value (event_type n))) (\<lambda>event.
     let config = retry_config_for event;
         new_retry_count = retry_count n + 1
     in
       if new_retry_count > max_retries config then
         io_bind (mark_failed S n code) (\<lambda>n'.
         send_to_dlq S n' code)
       else
         io_bind (on_svc (on_host (get_retry_delay new_retry_count
           (base_delay config) (max_delay config) (use_jitter config)))) (\<lambda>delay.
         io_bind (on_db (update_status (srv_pg S) (nid n) RETRYING
           [Retry_count new_retry_count, Error_code (Some (error_value code))])) (\<lambda>upd.
         io_bind (on_svc (publish_retry (srv_amqp S) (nid (refreshed n upd)) delay)) (\<lambda>success.
         io_return ()))))"

text \<open>
  \<open>NotificationErrorCode(result.error_code) if result.error_code else UNKNOWN\<close>
\<close>

definition failure_code :: "provider_result \<Rightarrow> py_exn + notification_error_code" where
  "failure_code result =
     (case pr_error_code result of
        None \<Rightarrow> Inr UNKNOWN
      | Some v \<Rightarrow> if v = 0 then Inr UNKNOWN else enum_of_value error_members error_value v)"

definition dispatch ::
  "('d, 'r, 'q) services \<Rightarrow> (notification_channel \<Rightarrow> 'p provider option) \<Rightarrow> int \<Rightarrow>
   (('d, 'r, 'q, 'p) world, unit) io"
where
  "dispatch S providers i =
     io_bind (on_db (get_by_id (srv_pg S) i)) (\<lambda>row.
     case row of
       None \<Rightarrow> io_return ()
     | Some n \<Rightarrow>
         io_bind (io_of (enum_of_value channel_members channel_value (channel n))) (\<lambda>ch.
         case providers ch of
           None \<Rightarrow> io_bind (mark_failed S n UNKNOWN) (\<lambda>_. io_return ())
         | Some provider \<Rightarrow>
             io_bind (on_db (update_status (srv_pg S) i QUEUED [])) (\<lambda>upd.
             let n1 = refreshed n upd in
             io_bind (on_prov (p_health_check provider)) (\<lambda>healthy.
             if \<not> healthy then schedule_retry S n1 PROVIDER_DOWN
             else
               io_bind (on_prov (p_send provider (recipient n1) (content n1))) (\<lambda>result.
               if pr_success result then mark_sent S n1 (pr_external_id result)
               else
                 io_bind (io_of (failure_code result)) (\<lambda>code.
                 if code \<notin> RETRYABLE_ERROR_CODES
                 then io_bind (mark_failed S n1 code) (\<lambda>_. io_return ())
                 else schedule_retry S n1 code))))))"

section \<open>The table, whatever happens\<close>

text \<open>All writes of one dispatch go to one row.\<close>

definition life_at ::
  "('d, 'r, 'q) services \<Rightarrow> int \<Rightarrow> ('d, 'r, 'q, 'p) world \<Rightarrow> ('d, 'r, 'q, 'p) world \<Rightarrow> bool"
where
  "life_at S i w w' \<longleftrightarrow> (life_write_at i)\<^sup>*\<^sup>* (w_rows S w) (w_rows S w')"

interpretation life_one: io_preorder "life_at S i" for S i
  by unfold_locales (auto simp: life_at_def)

lemma life_at_same: "w_rows S w' = w_rows S w \<Longrightarrow> life_at S i w w'"
  by (simp add: life_at_def)

lemma evolves_life_at_same: "evolves (same w_db) m \<Longrightarrow> evolves (life_at S i) m"
  by (auto simp: evolves_def same_def intro!: life_at_same)

lemma life_at_steps: "life_at S i w w' \<Longrightarrow> life_steps S w w'"
  unfolding life_at_def life_steps_def
  by (rule rtranclp_mono [THEN predicate2D, rotated]) (auto simp: life_write_at_def)

lemma life_at_isolated: "life_at S i w w' \<Longrightarrow> (w_rows S w')(i := None) = (w_rows S w)(i := None)"
  unfolding life_at_def by (induction rule: rtranclp_induct) (auto simp: life_write_at_def)

lemma life_at_update:
  assumes laws: "services_laws S"
    and run: "on_db (update_status (srv_pg S) i st as) w = (x, w')"
    and step: "\<And>tbl'. updated i (Status (status_value st) # as) (w_rows S w) tbl' \<Longrightarrow>
      life_write (w_rows S w) tbl'"
  shows "life_at S i w w'"
  using on_db_update_cases(3) [OF laws run]
proof
  assume "w_rows S w' = w_rows S w"
  then show ?thesis by (rule life_at_same)
next
  assume upd: "updated i (Status (status_value st) # as) (w_rows S w) (w_rows S w')"
  then have "(w_rows S w')(i := None) = (w_rows S w)(i := None)"
    unfolding updated_def by fastforce
  with step [OF upd] show ?thesis
    unfolding life_at_def life_write_at_def by blast
qed

lemma evolves_life_at_update:
  assumes "services_laws S"
    and "\<And>tbl tbl'. updated i (Status (status_value st) # as) tbl tbl' \<Longrightarrow> life_write tbl tbl'"
  shows "evolves (life_at S i) (on_db (update_status (srv_pg S) i st as))"
  by (rule evolvesI) (rule life_at_update [OF assms(1) _ assms(2)])

lemmas life_at_intros =
  life_one.evolves_bind life_one.evolves_return life_one.evolves_of evolves_life_at_update
  evolves_life_at_same [OF on_parts_frame(3)]

lemma mark_sent_life:
  "services_laws S \<Longrightarrow> evolves (life_at S (nid n)) (mark_sent S n (Some x))"
  unfolding mark_sent_def by (intro life_at_intros) (auto intro: life_write.sent)

lemma mark_failed_life:
  "services_laws S \<Longrightarrow> evolves (life_at S (nid n)) (mark_failed S n code)"
  unfolding mark_failed_def by (intro life_at_intros) (auto intro: life_write.failed)

lemma send_to_dlq_db: "evolves (same w_db) (send_to_dlq S n code)"
  unfolding send_to_dlq_def by (rule on_parts_frame)

text \<open>The two branches of \<open>_schedule_retry\<close>; every configuration allows three retries.\<close>

definition retry_again ::
  "('d, 'r, 'q) services \<Rightarrow> notification \<Rightarrow> event_type_t \<Rightarrow> notification_error_code \<Rightarrow>
   (('d, 'r, 'q, 'p) world, unit) io"
where
  "retry_again S n ev code =
     io_bind (on_svc (on_host (get_retry_delay (retry_count n + 1) (base_delay (retry_config_for ev))
       (max_delay (retry_config_for ev)) (use_jitter (retry_config_for ev))))) (\<lambda>delay.
     io_bind (on_db (update_status (srv_pg S) (nid n) RETRYING
       [Retry_count (retry_count n + 1), Error_code (Some (error_value code))])) (\<lambda>upd.
     io_bind (on_svc (publish_retry (srv_amqp S) (nid (refreshed n upd)) delay)) (\<lambda>success.
     io_return ())))"

lemma schedule_retry_branches:
  assumes "enum_of_value event_members event_value (event_type n) = Inr ev"
  shows "schedule_retry S n code =
    (if 3 \<le> retry_count n then io_bind (mark_failed S n code) (\<lambda>n'. send_to_dlq S n' code)
     else retry_again S n ev code)"
  unfolding schedule_retry_def retry_again_def assms Let_def
  by (simp del: retry_config_fields(2-))

lemma retry_again_life:
  assumes laws: "services_laws S" and row: "w_rows S w (nid n) = Some n" and count: "\<not> 3 \<le> retry_count n"
    and code: "code \<in> RETRYABLE_ERROR_CODES" and run: "retry_again S n ev code w = (x, w')"
  shows "life_at S (nid n) w w'"
  using run unfolding retry_again_def
proof (cases rule: io_bind_cases)
  case (raised e)
  from evolvesD [OF on_parts_frame(3) raised(1)] show ?thesis
    by (intro life_at_same) (simp add: same_def)
next
  case (returned delay w1)
  let ?upd = "on_db (update_status (srv_pg S) (nid n) RETRYING
    [Retry_count (retry_count n + 1), Error_code (Some (error_value code))])"
  from evolvesD [OF on_parts_frame(3) returned(1)] have db: "w_db w1 = w_db w" by (simp add: same_def)
  have w1: "life_at S (nid n) w w1" by (rule life_at_same) (simp add: db)
  from row db count have row1: "w_rows S w1 (nid n) = Some n" and less: "retry_count n < 3" by simp_all
  have upd: "life_at S (nid n) w1 w2" if "?upd w1 = (y, w2)" for y w2
    using that by (rule life_at_update [OF laws]) (rule life_write.retrying [where tbl = "w_rows S w1", OF row1 less code])
  from returned(2) have "life_at S (nid n) w1 w'"
  proof (cases rule: io_bind_cases)
    case (raised e)
    from upd [OF raised(1)] show ?thesis .
  next
    case (returned u w2)
    have "evolves (life_at S (nid n)) (io_bind (on_svc (publish_retry (srv_amqp S)
        (nid (refreshed n u)) delay)) (\<lambda>success. io_return ()))"
      by (intro life_at_intros)
    from life_one.transitive [OF upd [OF returned(1)] evolvesD [OF this returned(2)]] show ?thesis .
  qed
  from life_one.transitive [OF w1 this] show ?thesis .
qed

lemma schedule_retry_life:
  assumes laws: "services_laws S" and row: "w_rows S w (nid n) = Some n"
    and code: "code \<in> RETRYABLE_ERROR_CODES" and run: "schedule_retry S n code w = (x, w')"
  shows "life_at S (nid n) w w'"
proof (cases "enum_of_value event_members event_value (event_type n)")
  case (Inl e)
  with run have "w' = w" by (simp add: schedule_retry_def io_simps)
  then show ?thesis by (simp add: life_one.reflexive)
next
  case (Inr ev)
  note branches = schedule_retry_branches [OF Inr, of S code]
  have "evolves (life_at S (nid n)) (io_bind (mark_failed S n code) (\<lambda>n'. send_to_dlq S n' code))"
    by (intro life_one.evolves_bind mark_failed_life laws evolves_life_at_same send_to_dlq_db)
  from evolvesD [OF this, of w x w'] retry_again_life [OF laws row _ code, of ev x w'] run
  show ?thesis unfolding branches by (cases "3 \<le> retry_count n") simp_all
qed

text \<open>The part of \<open>dispatch\<close> after the provider answered, and the part after the row was put in the
  state queued.\<close>

definition after_send ::
  "('d, 'r, 'q) services \<Rightarrow> notification \<Rightarrow> provider_result \<Rightarrow> (('d, 'r, 'q, 'p) world, unit) io"
where
  "after_send S n1 result =
     (if pr_success result then mark_sent S n1 (pr_external_id result)
      else
        io_bind (io_of (failure_code result)) (\<lambda>code.
        if code \<notin> RETRYABLE_ERROR_CODES
        then io_bind (mark_failed S n1 code) (\<lambda>_. io_return ())
        else schedule_retry S n1 code))"

definition attempt ::
  "('d, 'r, 'q) services \<Rightarrow> 'p provider \<Rightarrow> notification \<Rightarrow> (('d, 'r, 'q, 'p) world, unit) io"
where
  "attempt S provider n1 =
     io_bind (on_prov (p_health_check provider)) (\<lambda>healthy.
     if \<not> healthy then schedule_retry S n1 PROVIDER_DOWN
     else io_bind (on_prov (p_send provider (recipient n1) (content n1))) (after_send S n1))"

lemma dispatch_parts:
  "dispatch S providers i =
     io_bind (on_db (get_by_id (srv_pg S) i)) (\<lambda>row.
     case row of
       None \<Rightarrow> io_return ()
     | Some n \<Rightarrow>
         io_bind (io_of (enum_of_value channel_members channel_value (channel n))) (\<lambda>ch.
         case providers ch of
           None \<Rightarrow> io_bind (mark_failed S n UNKNOWN) (\<lambda>_. io_return ())
         | Some provider \<Rightarrow>
             io_bind (on_db (update_status (srv_pg S) i QUEUED [])) (\<lambda>upd.
             attempt S provider (refreshed n upd))))"
  unfolding dispatch_def attempt_def after_send_def Let_def ..

text \<open>What the laws of a provider give, one at a time.\<close>

lemma provider_laws:
  assumes "provider_ok provider"
  shows "\<exists>b. p_health_check provider s = (Inr b, s)"
    and "\<exists>r s'. p_send provider rcpt body s = (Inr r, s')"
    and "p_send provider rcpt body s = (Inr r, s') \<Longrightarrow> pr_success r \<Longrightarrow> \<exists>x. pr_external_id r = Some x"
    and "p_send provider rcpt body s = (Inr r, s') \<Longrightarrow> \<not> pr_success r \<Longrightarrow> \<exists>e. failure_code r = Inr e \<and> pr_error_code r = Some (error_value e)"
proof -
  note contract = assms [unfolded provider_ok_def]
  show "\<exists>b. p_health_check provider s = (Inr b, s)" by (rule provider_contract.health_looks [OF contract])
  show "\<exists>r s'. p_send provider rcpt body s = (Inr r, s')" by (rule provider_contract.send_returns [OF contract])
  show "p_send provider rcpt body s = (Inr r, s') \<Longrightarrow> pr_success r \<Longrightarrow> \<exists>x. pr_external_id r = Some x"
    by (rule provider_contract.success_id [OF contract])
  assume "p_send provider rcpt body s = (Inr r, s')" "\<not> pr_success r"
  then obtain e where e: "pr_error_code r = Some (error_value e)"
    using provider_contract.failure_code [OF contract] by blast
  have "error_value e \<noteq> 0" by (cases e) simp_all
  with e show "\<exists>e. failure_code r = Inr e \<and> pr_error_code r = Some (error_value e)"
    by (auto simp: failure_code_def simp del: error_value.simps)
qed

lemma on_prov_life: "on_prov m w = (x, w') \<Longrightarrow> life_at S i w w' \<and> w_rows S w' = w_rows S w"
  using evolvesD [OF on_parts_frame(5)] by (fastforce simp: same_def intro: life_at_same)

lemma after_send_life:
  assumes laws: "services_laws S" and prov: "provider_ok provider"
    and row: "w_rows S w (nid n) = Some n" and send: "p_send provider rcpt body s = (Inr r, s')"
    and run: "after_send S n r w = (x, w')"
  shows "life_at S (nid n) w w'"
proof (cases "pr_success r")
  case True
  with provider_laws(3) [OF prov send] obtain ext where "pr_external_id r = Some ext" by blast
  with True run evolvesD [OF mark_sent_life [OF laws, of n ext]] show ?thesis by (simp add: after_send_def)
next
  case False
  with provider_laws(4) [OF prov send] obtain code where "failure_code r = Inr code" by blast
  with False run have final: "(if code \<notin> RETRYABLE_ERROR_CODES
    then io_bind (mark_failed S n code) (\<lambda>_. io_return ()) else schedule_retry S n code) w = (x, w')"
    by (simp add: after_send_def)
  have failed: "evolves (life_at S (nid n)) (io_bind (mark_failed S n code) (\<lambda>_. io_return ()))"
    by (intro life_one.evolves_bind life_one.evolves_return mark_failed_life laws)
  from final evolvesD [OF failed, of w x w'] schedule_retry_life [OF laws row, of code x w']
  show ?thesis by (cases "code \<in> RETRYABLE_ERROR_CODES") simp_all
qed

lemma attempt_life:
  assumes laws: "services_laws S" and prov: "provider_ok provider"
    and row: "w_rows S w (nid n) = Some n" and run: "attempt S provider n w = (x, w')"
  shows "life_at S (nid n) w w'"
  using run unfolding attempt_def
proof (cases rule: io_bind_cases)
  case (raised e)
  with on_prov_life [OF raised(1)] show ?thesis by blast
next
  case (returned healthy w1)
  note w1 = on_prov_life [OF returned(1), of S "nid n"]
  with row have row1: "w_rows S w1 (nid n) = Some n" by simp
  have retryable: "PROVIDER_DOWN \<in> RETRYABLE_ERROR_CODES" by (simp add: RETRYABLE_ERROR_CODES_def)
  show ?thesis
  proof (cases healthy)
    case False
    with returned(2) schedule_retry_life [OF laws row1 retryable, of x w'] w1 show ?thesis
      by (auto intro: life_one.transitive)
  next
    case True
    with returned(2) have "io_bind (on_prov (p_send provider (recipient n) (content n))) (after_send S n) w1 = (x, w')"
      by simp
    then have "life_at S (nid n) w1 w'"
    proof (cases rule: io_bind_cases)
      case (raised e)
      with on_prov_life [OF raised(1)] show ?thesis by blast
    next
      case (returned r w2)
      note w2 = on_prov_life [OF returned(1), of S "nid n"]
      with row1 have row2: "w_rows S w2 (nid n) = Some n" by simp
      from returned(1) obtain s where "p_send provider (recipient n) (content n) (w_prov w1) = (Inr r, s)"
        by (auto elim!: on_prov_cases)
      from after_send_life [OF laws prov row2 this returned(2)] w2 show ?thesis
        by (blast intro: life_one.transitive)
    qed
    with w1 show ?thesis by (blast intro: life_one.transitive)
  qed
qed

lemma queue_and_attempt_life:
  assumes laws: "services_laws S" and prov: "provider_ok provider"
    and row: "w_rows S w i = Some n" "nid n = i"
    and run: "io_bind (on_db (update_status (srv_pg S) i QUEUED []))
      (\<lambda>upd. attempt S provider (refreshed n upd)) w = (x, w')"
  shows "life_at S i w w'"
  using run
proof (cases rule: io_bind_cases)
  case (raised e)
  from raised(1) show ?thesis by (rule life_at_update [OF laws]) (rule life_write.queued)
next
  case (returned u w1)
  from returned(1) have w1: "life_at S i w w1"
    by (rule life_at_update [OF laws]) (rule life_write.queued)
  note upd = on_db_update_cases [OF laws returned(1)]
  with row(1) obtain m where u: "u = Some m" "w_rows S w1 i = Some m" by (cases u) auto
  from upd(3) row u(2) have "nid m = i" by (auto simp: updated_def)
  with attempt_life [OF laws prov, of w1 m x w'] u returned(2) w1 show ?thesis
    by (auto simp: refreshed_def intro: life_one.transitive)
qed

lemma dispatch_life:
  assumes laws: "services_laws S" and provs: "providers_ok providers"
    and ok: "table_ok (w_rows S w)" and run: "dispatch S providers i w = (x, w')"
  shows "life_at S i w w'"
  using run unfolding dispatch_parts
proof (cases rule: io_bind_cases)
  case (raised e)
  from on_db_get_cases(1) [OF laws raised(1)] show ?thesis by (rule life_at_same)
next
  case (returned row w1)
  note get = on_db_get_cases [OF laws returned(1)]
  then have w1: "life_at S i w w1" by (intro life_at_same)
  have "life_at S i w1 w'"
  proof (cases row)
    case None
    with returned(2) show ?thesis by (simp add: io_return_run life_one.reflexive)
  next
    case (Some n)
    with get(1,4) have row1: "w_rows S w1 i = Some n" by simp
    with ok get(1) have id: "nid n = i" by (simp add: table_ok_nid)
    show ?thesis
    proof (cases "enum_of_value channel_members channel_value (channel n)")
      case (Inl e)
      with Some returned(2) show ?thesis by (simp add: io_simps life_one.reflexive)
    next
      case (Inr ch)
      show ?thesis
      proof (cases "providers ch")
        case None
        with Inr Some returned(2) have "io_bind (mark_failed S n UNKNOWN) (\<lambda>_. io_return ()) w1 = (x, w')"
          by simp
        moreover have "evolves (life_at S (nid n)) (io_bind (mark_failed S n UNKNOWN) (\<lambda>_. io_return ()))"
          by (intro life_one.evolves_bind life_one.evolves_return mark_failed_life laws)
        ultimately show ?thesis using id by (auto dest: evolvesD)
      next
        case (Some provider)
        with Inr \<open>row = Some n\<close> returned(2) have "io_bind (on_db (update_status (srv_pg S) i QUEUED []))
          (\<lambda>upd. attempt S provider (refreshed n upd)) w1 = (x, w')" by simp
        then show ?thesis by (rule queue_and_attempt_life [OF laws providers_okD [OF provs Some] row1 id])
      qed
    qed
  qed
  with w1 show ?thesis by (rule life_one.transitive)
qed

section \<open>What a dispatch decides\<close>

text \<open>
  The specification: the outcome as a function of the health check, the provider's result and
  the number of retries so far, and the row each outcome leaves.
\<close>

datatype dispatch_decision =
    Mark_sent "string option"
  | Retry_later notification_error_code
  | Give_up notification_error_code
  | Reject notification_error_code

definition after_failure :: "int \<Rightarrow> notification_error_code \<Rightarrow> dispatch_decision" where
  "after_failure retries code = (if retries < 3 then Retry_later code else Give_up code)"

definition reported_code :: "provider_result \<Rightarrow> notification_error_code" where
  "reported_code r =
     (case find (\<lambda>e. pr_error_code r = Some (error_value e)) error_members of
        Some e \<Rightarrow> e | None \<Rightarrow> UNKNOWN)"

definition decide :: "bool \<Rightarrow> provider_result \<Rightarrow> int \<Rightarrow> dispatch_decision" where
  "decide healthy r retries =
     (if \<not> healthy then after_failure retries PROVIDER_DOWN
      else if pr_success r then Mark_sent (pr_external_id r)
      else if reported_code r \<in> {INVALID_RECIPIENT, INVALID_TOKEN} then Reject (reported_code r)
      else after_failure retries (reported_code r))"

fun decided :: "dispatch_decision \<Rightarrow> notification \<Rightarrow> notification \<Rightarrow> bool" where
  "decided (Mark_sent ext_id) n m \<longleftrightarrow> (\<exists>t u. m = n\<lparr>status := status_value SENT, external_id := ext_id,
     stime := Some t, mtime := u\<rparr>)"
| "decided (Retry_later code) n m \<longleftrightarrow> (\<exists>u. m = n\<lparr>status := status_value RETRYING,
     retry_count := retry_count n + 1, error_code := Some (error_value code), mtime := u\<rparr>)"
| "decided (Give_up code) n m \<longleftrightarrow> (\<exists>u. m = n\<lparr>status := status_value FAILED,
     error_code := Some (error_value code), mtime := u\<rparr>)"
| "decided (Reject code) n m \<longleftrightarrow> (\<exists>u. m = n\<lparr>status := status_value FAILED,
     error_code := Some (error_value code), mtime := u\<rparr>)"

lemma reported_code_value: "pr_error_code r = Some (error_value e) \<Longrightarrow> reported_code r = e"
  unfolding reported_code_def
  by (subst find_unique [of e])
    (auto simp: error_enum.all_members error_enum.value_inject simp del: error_value.simps)

lemma decided_queued:
  "decided d (n\<lparr>status := s, mtime := t\<rparr>) m \<longleftrightarrow> decided d n m"
  by (cases d) simp_all

lemma storable_attrs [simp]:
  "storable n \<Longrightarrow> storable (set_attr (Status v) n)"
  "storable n \<Longrightarrow> storable (set_attr (Error_code c) n)"
  "storable n \<Longrightarrow> storable (set_attr (Next_retry_time r) n)"
  "storable n \<Longrightarrow> storable (set_attr (Stime t) n)"
  "storable n \<Longrightarrow> varchar_255 x \<Longrightarrow> storable (set_attr (External_id (Some x)) n)"
  "storable n \<Longrightarrow> - (2 ^ 31) \<le> k \<Longrightarrow> k < 2 ^ 31 \<Longrightarrow> storable (set_attr (Retry_count k) n)"
  by (simp_all add: storable_def)

lemma row_inv_codes:
  assumes "row_inv n"
  shows "\<exists>ev. enum_of_value event_members event_value (event_type n) = Inr ev \<and> event_type n = event_value ev"
    and "\<exists>c. enum_of_value channel_members channel_value (channel n) = Inr c \<and> channel n = channel_value c"
    and "storable n" and "0 \<le> retry_count n"
  using assms by (auto simp: row_inv_def row_origin_def row_progress_def
      simp del: event_value.simps channel_value.simps)

section \<open>Each outcome, while the database answers\<close>

text \<open>What an outcome leaves alone, besides the row it decides.\<close>

definition dispatch_frame ::
  "('d, 'r, 'q) services \<Rightarrow> ('d, 'r, 'q, 'p) world \<Rightarrow> ('d, 'r, 'q, 'p) world \<Rightarrow> bool"
where
  "dispatch_frame S w w' \<longleftrightarrow> (db_up S w \<longrightarrow> db_up S w') \<and> w_prov w' = w_prov w \<and>
     svc_redis (w_svc w') = svc_redis (w_svc w)"

lemma dispatch_frame_trans: "dispatch_frame S u v \<Longrightarrow> dispatch_frame S v w \<Longrightarrow> dispatch_frame S u w"
  by (simp add: dispatch_frame_def)

lemma on_svc_host:
  assumes "on_svc (on_host m) w = (x, w')"
  shows "dispatch_frame S w w'" and "w_rows S w' = w_rows S w"
    and "svc_amqp (w_svc w') = svc_amqp (w_svc w)"
  using assms by (auto simp: dispatch_frame_def db_up_def elim!: on_svc_cases on_host_cases)

lemma on_svc_amqp_only:
  assumes "evolves amqp_only m" "on_svc m w = (x, w')"
  shows "dispatch_frame S w w' \<and> w_rows S w' = w_rows S w"
proof -
  from assms(2) obtain s where "m (w_svc w) = (x, s)" "w' = w\<lparr>w_svc := s\<rparr>" by (rule on_svc_cases)
  with evolvesD [OF assms(1)] show ?thesis
    by (auto simp: dispatch_frame_def amqp_only_def db_up_def)
qed

lemma mark_sent_up:
  assumes laws: "services_laws S" and up: "db_up S w" and row: "w_rows S w (nid n) = Some n"
    and inv: "row_inv n" and x: "varchar_255 x"
  obtains m w' where "mark_sent S n (Some x) w = (Inr (), w')" "w_rows S w' = (w_rows S w)(nid n \<mapsto> m)"
    "decided (Mark_sent (Some x)) n m" "dispatch_frame S w w'"
    "svc_amqp (w_svc w') = svc_amqp (w_svc w)"
proof -
  note codes = row_inv_codes [OF inv]
  obtain t w1 where now: "on_svc (on_host host_now) w = (Inr t, w1)"
    by (fastforce simp: on_svc_def on_host_def io_zoom_def host_now_def)
  note f1 = on_svc_host(1,2) [OF now, of S] and f3 = on_svc_host(3) [OF now]
  from f1(1) up have up1: "db_up S w1" by (simp add: dispatch_frame_def)
  from f1(2) row have row1: "w_rows S w1 (nid n) = Some n" by simp
  have "storable (set_attrs (Status (status_value SENT) # [External_id (Some x), Stime (Some t)]) n)"
    using codes(3) x by (simp del: set_attr.simps)
  from on_db_update_up [OF laws up1 row1 this] obtain m u w' where
    upd: "on_db (update_status (srv_pg S) (nid n) SENT [External_id (Some x), Stime (Some t)]) w1 = (Inr (Some m), w')"
    and w': "db_up S w'" "w_rows S w' = (w_rows S w1)(nid n \<mapsto> m)" "w_svc w' = w_svc w1" "w_prov w' = w_prov w1"
    and m: "m = (set_attrs (Status (status_value SENT) # [External_id (Some x), Stime (Some t)]) n)\<lparr>mtime := u\<rparr>"
    by blast
  from codes(2) have "\<exists>c. enum_of_value channel_members channel_value (channel m) = Inr c" by (auto simp: m)
  with now upd have "mark_sent S n (Some x) w = (Inr (), w')"
    by (auto simp: mark_sent_def io_simps refreshed_def)
  moreover have "decided (Mark_sent (Some x)) n m" by (auto simp: m)
  ultimately show thesis
    using w' f1 f3 by (intro that [of w' m]) (simp_all add: dispatch_frame_def)
qed

lemma mark_failed_up:
  assumes laws: "services_laws S" and up: "db_up S w" and row: "w_rows S w (nid n) = Some n"
    and inv: "row_inv n"
  obtains m w' where "mark_failed S n code w = (Inr m, w')" "w_rows S w' = (w_rows S w)(nid n \<mapsto> m)"
    "decided (Reject code) n m" "dispatch_frame S w w'" "w_svc w' = w_svc w"
proof -
  note codes = row_inv_codes [OF inv]
  have "storable (set_attrs (Status (status_value FAILED) # [Error_code (Some (error_value code))]) n)"
    using codes(3) by (simp del: set_attr.simps)
  from on_db_update_up [OF laws up row this] obtain m u w' where
    upd: "on_db (update_status (srv_pg S) (nid n) FAILED [Error_code (Some (error_value code))]) w = (Inr (Some m), w')"
    and w': "db_up S w'" "w_rows S w' = (w_rows S w)(nid n \<mapsto> m)" "w_svc w' = w_svc w" "w_prov w' = w_prov w"
    and m: "m = (set_attrs (Status (status_value FAILED) # [Error_code (Some (error_value code))]) n)\<lparr>mtime := u\<rparr>"
    by blast
  from codes(2) have "\<exists>c. enum_of_value channel_members channel_value (channel m) = Inr c" by (auto simp: m)
  with upd have "mark_failed S n code w = (Inr m, w')"
    by (auto simp: mark_failed_def io_simps refreshed_def)
  moreover have "decided (Reject code) n m" by (auto simp: m)
  ultimately show thesis
    using w' by (intro that [of m w']) (simp_all add: dispatch_frame_def)
qed

lemma send_to_dlq_returns:
  "\<exists>w'. send_to_dlq S n code w = (Inr (), w') \<and> w_rows S w' = w_rows S w \<and> dispatch_frame S w w'"
proof -
  let ?body = "io_bind (on_amqp (q_connect (srv_amqp S))) (\<lambda>connection.
    io_finally (dlq_publish S connection n code) (on_amqp (q_close (srv_amqp S) connection)))"
  obtain x w' where run: "send_to_dlq S n code w = (x, w')" by (cases "send_to_dlq S n code w")
  have "evolves (same svc_redis) ?body"
    unfolding dlq_publish_def Let_def
    by (intro unchanged.evolves_bind unchanged.evolves_finally unchanged.evolves_of svc_frame)
  then have "evolves (same svc_redis) (io_try ?body (\<lambda>_. io_return ()))"
    by (intro unchanged.evolves_try unchanged.evolves_return)
  moreover from run obtain s where s: "io_try ?body (\<lambda>_. io_return ()) (w_svc w) = (x, s)" "w' = w\<lparr>w_svc := s\<rparr>"
    unfolding send_to_dlq_def by (rule on_svc_cases)
  moreover from s(1) have "x = Inr ()" by (cases rule: io_try_cases) (simp_all add: io_return_run)
  ultimately show ?thesis
    using run by (auto simp: dispatch_frame_def db_up_def same_def dest: evolvesD)
qed

text \<open>A retry: the row, and at most one message, whose delay lies in the window of the retry.\<close>

definition retry_sent ::
  "('d, 'r, 'q) services \<Rightarrow> ('d, 'r, 'q, 'p) world \<Rightarrow> notification \<Rightarrow> event_type_t \<Rightarrow>
   ('d, 'r, 'q, 'p) world \<Rightarrow> bool"
where
  "retry_sent S w n ev w' \<longleftrightarrow>
     (\<exists>d. window_low (retry_config_for ev) (retry_count n + 1) \<le> d \<and>
          d \<le> window_high (retry_config_for ev) (retry_count n + 1) \<and>
          w_published S w' = w_published S w @ [('''', RETRY_QUEUE, retry_message (nid n) d)])"

text \<open>What the publisher of retries does to the state the handlers share.\<close>

lemma on_publish_retry:
  assumes laws: "services_laws S" and run: "on_svc (publish_retry (srv_amqp S) i d) w = (y, w')"
  defines "sent \<equiv> w_published S w @ [('''', RETRY_QUEUE, retry_message i d)]"
  shows "\<exists>b. y = Inr b" and "w_published S w' = sent \<or> w_published S w' = w_published S w"
    and "amqp_up S w \<Longrightarrow> rmq_connection (w_svc w) = None \<Longrightarrow> w_published S w' = sent"
    and "is_closed_is_property (srv_amqp S) \<Longrightarrow> rmq_connection (w_svc w) \<noteq> None \<Longrightarrow>
      w_published S w' = w_published S w \<and> rmq_connection (w_svc w') = None"
    and "dispatch_frame S w w' \<and> w_rows S w' = w_rows S w"
proof -
  note amqp = services_laws_parts(3) [OF laws]
  from run obtain s where pub: "publish_retry (srv_amqp S) i d (w_svc w) = (y, s)" and w': "w' = w\<lparr>w_svc := s\<rparr>"
    by (rule on_svc_cases)
  note eff = publish_retry_effect [OF amqp pub]
  then show "\<exists>b. y = Inr b" "w_published S w' = sent \<or> w_published S w' = w_published S w"
    by (auto simp: sent_def w')
  show "w_published S w' = sent" if "amqp_up S w" "rmq_connection (w_svc w) = None"
    using publish_retry_fresh [OF amqp _ that(2), of i d] that(1) pub eff by (auto simp: sent_def w' amqp_up_def)
  show "w_published S w' = w_published S w \<and> rmq_connection (w_svc w') = None"
    if isprop: "is_closed_is_property (srv_amqp S)" and conn: "rmq_connection (w_svc w) \<noteq> None"
  proof -
    from conn obtain k where "rmq_connection (w_svc w) = Some k" by auto
    from publish_retry_cached [OF isprop this, of i d] pub show ?thesis by (auto simp: w')
  qed
  show "dispatch_frame S w w' \<and> w_rows S w' = w_rows S w"
    by (rule on_svc_amqp_only [OF publish_retry_amqp_only run])
qed

lemma retry_again_up:
  assumes laws: "services_laws S" and up: "db_up S w" and row: "w_rows S w (nid n) = Some n"
    and inv: "row_inv n" and count: "retry_count n < 3"
  obtains m w' where "retry_again S n ev code w = (Inr (), w')" "w_rows S w' = (w_rows S w)(nid n \<mapsto> m)"
    "decided (Retry_later code) n m" "dispatch_frame S w w'"
    "retry_sent S w n ev w' \<or> w_published S w' = w_published S w"
    "amqp_up S w \<Longrightarrow> rmq_connection (w_svc w) = None \<Longrightarrow> retry_sent S w n ev w'"
    "is_closed_is_property (srv_amqp S) \<Longrightarrow> rmq_connection (w_svc w) \<noteq> None \<Longrightarrow>
      w_published S w' = w_published S w \<and> rmq_connection (w_svc w') = None"
proof -
  let ?c = "retry_config_for ev" and ?k = "retry_count n + 1"
  let ?attrs = "[Retry_count ?k, Error_code (Some (error_value code))]"
  note codes = row_inv_codes [OF inv]
  have "1 \<le> ?k" "0 \<le> base_delay ?c" using codes(4) by simp_all
  then obtain d h where delay: "get_retry_delay ?k (base_delay ?c) (max_delay ?c) (use_jitter ?c)
      (svc_host (w_svc w)) = (Inr d, h)"
    and d: "window_low ?c ?k \<le> d" "d \<le> window_high ?c ?k"
    by (rule get_retry_delay_window)
  define w1 where "w1 = w\<lparr>w_svc := (w_svc w)\<lparr>svc_host := h\<rparr>\<rparr>"
  have run1: "on_svc (on_host (get_retry_delay ?k (base_delay ?c) (max_delay ?c) (use_jitter ?c))) w = (Inr d, w1)"
    unfolding w1_def by (intro on_svc_run on_host_run delay)
  have w1: "db_up S w1" "w_rows S w1 = w_rows S w" "w_rows S w1 (nid n) = Some n" "w_prov w1 = w_prov w"
    "svc_redis (w_svc w1) = svc_redis (w_svc w)" "svc_amqp (w_svc w1) = svc_amqp (w_svc w)"
    "rmq_connection (w_svc w1) = rmq_connection (w_svc w)"
    using up row by (simp_all add: w1_def db_up_def)
  have "storable (set_attrs (Status (status_value RETRYING) # ?attrs) n)"
    using codes(3,4) count by (simp del: set_attr.simps)
  from on_db_update_up [OF laws w1(1,3) this] obtain m u w2 where
    upd: "on_db (update_status (srv_pg S) (nid n) RETRYING ?attrs) w1 = (Inr (Some m), w2)"
    and w2: "db_up S w2" "w_rows S w2 = (w_rows S w1)(nid n \<mapsto> m)" "w_svc w2 = w_svc w1" "w_prov w2 = w_prov w1"
    and m: "m = (set_attrs (Status (status_value RETRYING) # ?attrs) n)\<lparr>mtime := u\<rparr>" by blast
  have id: "nid m = nid n" by (simp add: m)
  obtain y w' where run3: "on_svc (publish_retry (srv_amqp S) (nid n) d) w2 = (y, w')"
    by (cases "on_svc (publish_retry (srv_amqp S) (nid n) d) w2")
  note pub = on_publish_retry [OF laws run3]
  have old: "w_published S w2 = w_published S w" "rmq_connection (w_svc w2) = rmq_connection (w_svc w)"
    "amqp_up S w2 = amqp_up S w"
    using w2(3) w1(6,7) by (simp_all add: amqp_up_def)
  have sent: "retry_sent S w n ev w'"
    if "w_published S w' = w_published S w2 @ [('''', RETRY_QUEUE, retry_message (nid n) d)]"
    using that old(1) d unfolding retry_sent_def by auto
  show thesis
  proof (rule that)
    show "retry_again S n ev code w = (Inr (), w')"
      unfolding retry_again_def using run1 upd run3 pub(1) id
      by (auto simp: io_bind_def io_return_def refreshed_def)
    show "w_rows S w' = (w_rows S w)(nid n \<mapsto> m)" using pub(5) w2(2) w1(2) by simp
    show "decided (Retry_later code) n m" by (auto simp: m)
    show "dispatch_frame S w w'" using pub(5) w1 w2 up by (simp add: dispatch_frame_def)
    show "retry_sent S w n ev w' \<or> w_published S w' = w_published S w" using pub(2) old(1) sent by auto
    show "retry_sent S w n ev w'" if "amqp_up S w" "rmq_connection (w_svc w) = None"
      using sent pub(3) that old by simp
    show "w_published S w' = w_published S w \<and> rmq_connection (w_svc w') = None"
      if "is_closed_is_property (srv_amqp S)" "rmq_connection (w_svc w) \<noteq> None"
      using pub(4) that old by simp
  qed
qed

text \<open>A failure that can be retried: a retry while there are any left, else failed for good.\<close>

lemma schedule_retry_up:
  assumes laws: "services_laws S" and up: "db_up S w" and row: "w_rows S w (nid n) = Some n"
    and inv: "row_inv n"
  obtains m w' where "schedule_retry S n code w = (Inr (), w')" "w_rows S w' = (w_rows S w)(nid n \<mapsto> m)"
    "decided (after_failure (retry_count n) code) n m" "dispatch_frame S w w'"
proof -
  from row_inv_codes(1) [OF inv] obtain ev where
    ev: "enum_of_value event_members event_value (event_type n) = Inr ev" by blast
  note branches = schedule_retry_branches [OF ev, of S code]
  show thesis
  proof (cases "retry_count n < 3")
    case True
    from retry_again_up [OF laws up row inv this, of ev code] obtain m w' where
      "retry_again S n ev code w = (Inr (), w')" "w_rows S w' = (w_rows S w)(nid n \<mapsto> m)"
      "decided (Retry_later code) n m" "dispatch_frame S w w'" by metis
    with True show thesis by (intro that) (simp_all add: branches after_failure_def)
  next
    case False
    from mark_failed_up [OF laws up row inv, of code] obtain m w1 where
      failed: "mark_failed S n code w = (Inr m, w1)" "w_rows S w1 = (w_rows S w)(nid n \<mapsto> m)"
        "decided (Reject code) n m" "dispatch_frame S w w1" by metis
    obtain w' where dlq: "send_to_dlq S m code w1 = (Inr (), w')" "w_rows S w' = w_rows S w1"
        "dispatch_frame S w1 w'"
      using send_to_dlq_returns by blast
    from failed(1) dlq(1) False have "schedule_retry S n code w = (Inr (), w')"
      by (simp add: branches io_simps)
    with failed dlq False show thesis
      by (intro that [of w' m]) (auto simp: after_failure_def intro: dispatch_frame_trans)
  qed
qed

section \<open>A whole dispatch, while the database answers\<close>

text \<open>The provider's answers in a state: its health, its result, and the state after the send.\<close>

definition provider_answers ::
  "'p provider \<Rightarrow> notification \<Rightarrow> 'p \<Rightarrow> bool \<Rightarrow> provider_result \<Rightarrow> 'p \<Rightarrow> bool"
where
  "provider_answers provider n s healthy r s' \<longleftrightarrow>
     p_health_check provider s = (Inr healthy, s) \<and>
     p_send provider (recipient n) (content n) s = (Inr r, s') \<and>
     (\<forall>x. pr_external_id r = Some x \<longrightarrow> varchar_255 x)"

text \<open>
  The result of a dispatch of row \<open>n\<close>: the row is as decided, the others are as they were,
  the provider was asked to send exactly if it was healthy, and Redis is not touched.
\<close>

definition dispatched ::
  "('d, 'r, 'q) services \<Rightarrow> ('d, 'r, 'q, 'p) world \<Rightarrow> notification \<Rightarrow> bool \<Rightarrow> provider_result \<Rightarrow> 'p \<Rightarrow>
   ('d, 'r, 'q, 'p) world \<Rightarrow> bool"
where
  "dispatched S w n healthy r p' w' \<longleftrightarrow>
     (\<exists>m. w_rows S w' = (w_rows S w)(nid n \<mapsto> m) \<and> decided (decide healthy r (retry_count n)) n m) \<and>
     db_up S w' \<and> w_prov w' = (if healthy then p' else w_prov w) \<and>
     svc_redis (w_svc w') = svc_redis (w_svc w)"

lemma on_prov_here:
  assumes "m (w_prov w) = (x, p)"
  shows "on_prov m w = (x, w\<lparr>w_prov := p\<rparr>)"
  using assms by (rule on_prov_run)

lemma after_send_up:
  assumes laws: "services_laws S" and prov: "provider_ok provider" and up: "db_up S w"
    and row: "w_rows S w (nid n) = Some n" and inv: "row_inv n"
    and send: "p_send provider rcpt body s = (Inr r, s')"
    and ids: "\<And>x. pr_external_id r = Some x \<Longrightarrow> varchar_255 x"
  obtains m w' where "after_send S n r w = (Inr (), w')" "w_rows S w' = (w_rows S w)(nid n \<mapsto> m)"
    "decided (decide True r (retry_count n)) n m" "dispatch_frame S w w'"
proof -
  consider (sent) x where "pr_success r" "pr_external_id r = Some x"
    | (failed) code where "\<not> pr_success r" "failure_code r = Inr code" "reported_code r = code"
    using provider_laws(3,4) [OF prov send] reported_code_value by blast
  then show thesis
  proof cases
    case sent
    from mark_sent_up [OF laws up row inv ids [OF sent(2)]] obtain m w' where
      "mark_sent S n (Some x) w = (Inr (), w')" "w_rows S w' = (w_rows S w)(nid n \<mapsto> m)"
      "decided (Mark_sent (Some x)) n m" "dispatch_frame S w w'" by metis
    with sent show thesis by (intro that [of w' m]) (simp_all add: after_send_def decide_def)
  next
    case failed
    show thesis
    proof (cases "code \<in> RETRYABLE_ERROR_CODES")
      case True
      from schedule_retry_up [OF laws up row inv, of code] obtain m w' where
        "schedule_retry S n code w = (Inr (), w')" "w_rows S w' = (w_rows S w)(nid n \<mapsto> m)"
        "decided (after_failure (retry_count n) code) n m" "dispatch_frame S w w'" by metis
      with True failed show thesis
        by (intro that [of w' m]) (auto simp: after_send_def io_bind_def io_return_def decide_def RETRYABLE_ERROR_CODES_def)
    next
      case False
      from mark_failed_up [OF laws up row inv, of code] obtain m w' where
        "mark_failed S n code w = (Inr m, w')" "w_rows S w' = (w_rows S w)(nid n \<mapsto> m)"
        "decided (Reject code) n m" "dispatch_frame S w w'" by metis
      with False failed show thesis
        by (intro that [of w' m])
          (auto simp: after_send_def io_bind_def io_return_def decide_def retryable_code_iff)
    qed
  qed
qed

lemma attempt_up:
  assumes laws: "services_laws S" and prov: "provider_ok provider" and up: "db_up S w"
    and row: "w_rows S w (nid n) = Some n" and inv: "row_inv n"
    and ans: "provider_answers provider n (w_prov w) healthy r p'"
  obtains w' where "attempt S provider n w = (Inr (), w')" "dispatched S w n healthy r p' w'"
proof -
  from ans have health: "on_prov (p_health_check provider) w = (Inr healthy, w)"
    and send: "on_prov (p_send provider (recipient n) (content n)) w = (Inr r, w\<lparr>w_prov := p'\<rparr>)"
    and ids: "\<And>x. pr_external_id r = Some x \<Longrightarrow> varchar_255 x"
    and raw: "p_send provider (recipient n) (content n) (w_prov w) = (Inr r, p')"
    by (simp_all add: provider_answers_def on_prov_def io_zoom_def)
  show thesis
  proof (cases healthy)
    case False
    from schedule_retry_up [OF laws up row inv, of PROVIDER_DOWN] obtain m w' where
      "schedule_retry S n PROVIDER_DOWN w = (Inr (), w')" "w_rows S w' = (w_rows S w)(nid n \<mapsto> m)"
      "decided (after_failure (retry_count n) PROVIDER_DOWN) n m" "dispatch_frame S w w'" by metis
    with False health up show thesis
      by (intro that [of w']) (auto simp: attempt_def io_bind_def dispatched_def decide_def dispatch_frame_def)
  next
    case True
    define w1 where "w1 = w\<lparr>w_prov := p'\<rparr>"
    have w1: "db_up S w1" "w_rows S w1 (nid n) = Some n" "w_rows S w1 = w_rows S w" "w_prov w1 = p'" "w_svc w1 = w_svc w"
      using up row by (simp_all add: w1_def db_up_def)
    obtain m w' where "after_send S n r w1 = (Inr (), w')" "w_rows S w' = (w_rows S w1)(nid n \<mapsto> m)"
      "decided (decide True r (retry_count n)) n m" "dispatch_frame S w1 w'"
      by (rule after_send_up [OF laws prov w1(1,2) inv raw ids])
    with True health send w1 show thesis
      by (intro that [of w'])
        (auto simp: attempt_def io_bind_def w1_def [symmetric] dispatched_def dispatch_frame_def)
  qed
qed

lemma dispatch_up:
  assumes laws: "services_laws S" and up: "db_up S w" and row: "w_rows S w i = Some n"
    and inv: "row_inv n" "nid n = i" and ch: "channel n = channel_value c"
    and prov: "providers c = Some provider" "provider_ok provider"
    and ans: "provider_answers provider n (w_prov w) healthy r p'"
  obtains w' where "dispatch S providers i w = (Inr (), w')" "dispatched S w n healthy r p' w'"
proof -
  obtain x w1 where get: "on_db (get_by_id (srv_pg S) i) w = (x, w1)"
    by (cases "on_db (get_by_id (srv_pg S) i) w")
  note f = on_db_get_cases [OF laws get]
  from f(5) [OF up] row have x: "x = Inr (Some n)" and up1: "db_up S w1" by simp_all
  from f(1) row have row1: "w_rows S w1 i = Some n" by simp
  have "storable (set_attrs (Status (status_value QUEUED) # []) n)"
    using row_inv_codes(3) [OF inv(1)] by (simp del: set_attr.simps)
  from on_db_update_up [OF laws up1 row1 this] obtain m t w2 where
    upd: "on_db (update_status (srv_pg S) i QUEUED []) w1 = (Inr (Some m), w2)"
    and w2: "db_up S w2" "w_rows S w2 = (w_rows S w1)(i \<mapsto> m)" "w_svc w2 = w_svc w1" "w_prov w2 = w_prov w1"
    and "m = (set_attrs (Status (status_value QUEUED) # []) n)\<lparr>mtime := t\<rparr>" by blast
  then have m: "m = n\<lparr>status := status_value QUEUED, mtime := t\<rparr>" by simp
  have row2: "w_rows S w2 (nid m) = Some m" using w2(2) inv(2) by (simp add: m)
  have "row_progress m"
    using inv(1) row_progress_queued [of n] unfolding row_inv_def
    by (simp add: m row_progress_def)
  then have inv2: "row_inv m"
    using inv(1) by (simp add: row_inv_def m row_origin_def storable_def)
  have ans2: "provider_answers provider m (w_prov w2) healthy r p'"
    using ans f(3) w2(4) by (simp add: provider_answers_def m)
  from attempt_up [OF laws prov(2) w2(1) row2 inv2 ans2] obtain w' where
    run: "attempt S provider m w2 = (Inr (), w')" and w': "dispatched S w2 m healthy r p' w'" by blast
  from get x ch prov(1) upd run have "dispatch S providers i w = (Inr (), w')"
    by (simp add: dispatch_parts io_bind_def io_return_def refreshed_def del: channel_value.simps)
  moreover from w' f w2 inv(2) have "dispatched S w n healthy r p' w'"
    by (auto simp: dispatched_def m decided_queued)
  ultimately show thesis by (rule that)
qed

text \<open>An id without a row is dropped, and nothing is written.\<close>

lemma dispatch_missing:
  assumes laws: "services_laws S" and up: "db_up S w" and row: "w_rows S w i = None"
  obtains w' where "dispatch S providers i w = (Inr (), w')" "w_rows S w' = w_rows S w"
    "w_svc w' = w_svc w" "w_prov w' = w_prov w"
proof -
  obtain x w1 where get: "on_db (get_by_id (srv_pg S) i) w = (x, w1)"
    by (cases "on_db (get_by_id (srv_pg S) i) w")
  note f = on_db_get_cases [OF laws get]
  from f(5) [OF up] row have "x = Inr None" by simp
  with get f(1-3) show thesis
    by (intro that [of w1]) (simp_all add: dispatch_def io_bind_def io_return_def)
qed

section \<open>What reaches the broker\<close>

text \<open>
  With retries left, the row is retrying; its message is published when the broker answers and no
  connection is cached, and it is lost when a connection is.
\<close>

lemma schedule_retry_message:
  assumes laws: "services_laws S" and up: "db_up S w" and row: "w_rows S w (nid n) = Some n"
    and inv: "row_inv n" and ev: "event_type n = event_value ev" and count: "retry_count n < 3"
  obtains m w' where "schedule_retry S n code w = (Inr (), w')" "w_rows S w' = (w_rows S w)(nid n \<mapsto> m)"
    "decided (Retry_later code) n m"
    "amqp_up S w \<Longrightarrow> rmq_connection (w_svc w) = None \<Longrightarrow> retry_sent S w n ev w'"
    "is_closed_is_property (srv_amqp S) \<Longrightarrow> rmq_connection (w_svc w) \<noteq> None \<Longrightarrow>
      w_published S w' = w_published S w \<and> rmq_connection (w_svc w') = None"
proof -
  from ev have "enum_of_value event_members event_value (event_type n) = Inr ev"
    by (simp del: event_value.simps)
  from schedule_retry_branches [OF this, of S code] count
  have "schedule_retry S n code = retry_again S n ev code" by simp
  with retry_again_up [OF laws up row inv count, of ev code] that show thesis by metis
qed

text \<open>The dead letter, when the broker answers.\<close>

lemma dlq_publish_up:
  assumes amqp: "amqp_laws (srv_amqp S)" and up: "q_up (srv_amqp S) (svc_amqp s)"
    and ev: "event_type n = event_value ev" and c: "channel n = channel_value c"
  obtains s' iso where "dlq_publish S k n code s = (Inr (), s')" "q_up (srv_amqp S) (svc_amqp s')"
    "svc_published (srv_amqp S) s' = svc_published (srv_amqp S) s @
       [(DLQ_EXCHANGE, '''', dlq_message (dlq_payload n ev c code iso))]"
proof -
  let ?A = "srv_amqp S"
  note quiet = quiet_keeps [OF quiet_laws(2) [OF amqp]] quiet_keeps [OF quiet_laws(6) [OF amqp]]
    quiet_keeps [OF quiet_laws(7) [OF amqp]] quiet_keeps [OF quiet_laws(8) [OF amqp]]
  from answers [OF up_laws(2) [OF amqp] up] obtain ch s1 where
    1: "on_amqp (q_open_channel ?A k) s = (Inr ch, s1)" "q_up ?A (svc_amqp s1)" by fastforce
  from answers [OF up_laws(6) [OF amqp] 1(2)] obtain s2 where
    2: "on_amqp (q_declare_exchange ?A ch DLQ_EXCHANGE Fanout) s1 = (Inr (), s2)" "q_up ?A (svc_amqp s2)"
    by fastforce
  from answers [OF up_laws(3) [OF amqp] 2(2)] obtain s3 where
    3: "on_amqp (q_declare_queue ?A ch DLQ_QUEUE None) s2 = (Inr (), s3)" "q_up ?A (svc_amqp s3)"
    by fastforce
  from answers [OF up_laws(7) [OF amqp] 3(2)] obtain s4 where
    4: "on_amqp (q_bind ?A ch DLQ_QUEUE DLQ_EXCHANGE None) s3 = (Inr (), s4)" "q_up ?A (svc_amqp s4)"
    by fastforce
  obtain iso h where host: "host_isoformat (svc_host s4) = (Inr iso, h)"
    by (fastforce simp: host_isoformat_def host_now_def io_bind_def io_gets_def)
  define s5 where "s5 = s4\<lparr>svc_host := h\<rparr>"
  have 5: "on_host host_isoformat s4 = (Inr iso, s5)" "q_up ?A (svc_amqp s5)"
    using host 4(2) by (simp_all add: on_host_run s5_def)
  let ?msg = "dlq_message (dlq_payload n ev c code iso)"
  from answers [OF up_laws(4) [OF amqp] 5(2)] obtain s6 where
    6: "on_amqp (q_publish ?A ch DLQ_EXCHANGE '''' ?msg) s5 = (Inr (), s6)" "q_up ?A (svc_amqp s6)"
    by fastforce
  have "dlq_publish S k n code s = (Inr (), s6)"
    using 1(1) 2(1) 3(1) 4(1) 5(1) 6(1) ev c
    by (simp add: dlq_publish_def Let_def io_simps del: event_value.simps channel_value.simps)
  moreover have "svc_published ?A s6 = svc_published ?A s @ [(DLQ_EXCHANGE, '''', ?msg)]"
    using on_amqp_publish [OF amqp 6(1)] quiet(1) [OF 1(1)] quiet(2) [OF 2(1)] quiet(3) [OF 3(1)]
      quiet(4) [OF 4(1)] by (simp add: publishes_def s5_def)
  ultimately show thesis using 6(2) by (intro that)
qed

lemma send_to_dlq_up:
  assumes laws: "services_laws S" and up: "amqp_up S w"
    and ev: "event_type n = event_value ev" and c: "channel n = channel_value c"
  obtains w' iso where "send_to_dlq S n code w = (Inr (), w')"
    "w_published S w' = w_published S w @ [(DLQ_EXCHANGE, '''', dlq_message (dlq_payload n ev c code iso))]"
proof -
  let ?A = "srv_amqp S"
  note amqp = services_laws_parts(3) [OF laws]
  from answers [OF up_laws(1) [OF amqp] up [unfolded amqp_up_def]] obtain k s1 where
    1: "on_amqp (q_connect ?A) (w_svc w) = (Inr k, s1)" "q_up ?A (svc_amqp s1)" by fastforce
  from dlq_publish_up [OF amqp 1(2) ev c, of k code] obtain s2 iso where
    2: "dlq_publish S k n code s1 = (Inr (), s2)" "q_up ?A (svc_amqp s2)"
      "svc_published ?A s2 = svc_published ?A s1 @ [(DLQ_EXCHANGE, '''', dlq_message (dlq_payload n ev c code iso))]"
    by metis
  from answers [OF up_laws(9) [OF amqp] 2(2)] obtain s3 where
    3: "on_amqp (q_close ?A k) s2 = (Inr (), s3)" by fastforce
  have "send_to_dlq S n code w = (Inr (), w\<lparr>w_svc := s3\<rparr>)"
    using 1(1) 2(1) 3(1) unfolding send_to_dlq_def by (intro on_svc_run) (simp add: io_simps)
  moreover have "svc_published ?A s3 = svc_published ?A (w_svc w) @
      [(DLQ_EXCHANGE, '''', dlq_message (dlq_payload n ev c code iso))]"
    using quiet_keeps [OF quiet_laws(1) [OF amqp] 1(1)] 2(3) quiet_keeps [OF quiet_laws(10) [OF amqp] 3]
    by simp
  ultimately show thesis by (intro that [of "w\<lparr>w_svc := s3\<rparr>" iso]) simp_all
qed

end
