(* ===== verification/Worker.thy ===== *)
theory Worker
  imports Dispatch
begin

text \<open>
  \<open>app/workers/notification_worker.py\<close>: the pool and the loop of one worker. A worker's run is
  the sequence of its readings of the loop guard \<open>self._running\<close>, which \<open>stop\<close> clears
  from outside; the end of the list is a worker that is still running.
\<close>

section \<open>The pool\<close>

record worker_pool =
  wp_concurrency :: int
  wp_running :: bool
  wp_tasks :: "int list"

text \<open>\<open>concurrency or settings.worker_count\<close>\<close>

definition worker_init :: "int option \<Rightarrow> int \<Rightarrow> worker_pool" where
  "worker_init concurrency worker_count =
     \<lparr>wp_concurrency =
        (case concurrency of None \<Rightarrow> worker_count | Some k \<Rightarrow> if k = 0 then worker_count else k),
      wp_running = False, wp_tasks = []\<rparr>"

text \<open>One task per worker id of \<open>range(concurrency)\<close>.\<close>

definition worker_start :: "worker_pool \<Rightarrow> worker_pool" where
  "worker_start p = p\<lparr>wp_running := True, wp_tasks := [0..wp_concurrency p - 1]\<rparr>"

text \<open>\<open>gather\<close> with \<open>return_exceptions\<close> waits for the tasks and drops what they raise.\<close>

definition worker_stop :: "worker_pool \<Rightarrow> worker_pool" where
  "worker_stop p = p\<lparr>wp_running := False\<rparr>"

section \<open>The loop\<close>

text \<open>One turn: take an id, dispatch it with a session of its own; an exception is only logged.\<close>

definition worker_turn ::
  "('d, 'r, 'q) services \<Rightarrow> (notification_channel \<Rightarrow> 'p provider option) \<Rightarrow>
   (('d, 'r, 'q, 'p) world, unit) io"
where
  "worker_turn S providers =
     io_try
       (io_bind (on_svc (dequeue (srv_redis S))) (\<lambda>notification_id.
        case notification_id of
          None \<Rightarrow> io_return ()
        | Some i \<Rightarrow> dispatch S providers i))
       (\<lambda>_. io_return ())"

fun worker_loop ::
  "('d, 'r, 'q) services \<Rightarrow> (notification_channel \<Rightarrow> 'p provider option) \<Rightarrow> bool list \<Rightarrow>
   (('d, 'r, 'q, 'p) world, unit) io"
where
  "worker_loop S providers [] = io_return ()"
| "worker_loop S providers (running # readings) =
     (if running then io_bind (worker_turn S providers) (\<lambda>_. worker_loop S providers readings)
      else io_return ())"

section \<open>A worker never dies\<close>

lemma worker_turn_returns: "\<exists>w'. worker_turn S providers w = (Inr (), w')"
proof -
  obtain x w' where run: "worker_turn S providers w = (x, w')" by (cases "worker_turn S providers w")
  then have "x = Inr ()"
    unfolding worker_turn_def by (cases rule: io_try_cases) (auto simp: io_return_run)
  with run show ?thesis by simp
qed

text \<open>As many turns as the guard is read True in a row, one after the other, whatever each of them raised.\<close>

abbreviation turns_taken :: "bool list \<Rightarrow> nat" where
  "turns_taken readings \<equiv> length (takeWhile (\<lambda>running. running) readings)"

abbreviation after_turn ::
  "('d, 'r, 'q) services \<Rightarrow> (notification_channel \<Rightarrow> 'p provider option) \<Rightarrow>
   ('d, 'r, 'q, 'p) world \<Rightarrow> ('d, 'r, 'q, 'p) world"
where
  "after_turn S providers w \<equiv> snd (worker_turn S providers w)"

lemma worker_loop_turns:
  "worker_loop S providers readings w = (Inr (), (after_turn S providers ^^ turns_taken readings) w)"
proof (induction readings arbitrary: w)
  case (Cons running readings)
  obtain w1 where turn: "worker_turn S providers w = (Inr (), w1)" using worker_turn_returns by blast
  then have "after_turn S providers w = w1" by simp
  with turn Cons.IH [of w1] show ?case
    by (auto simp: io_bind_def io_return_def funpow_Suc_right simp del: funpow.simps)
qed (simp add: io_return_run)

lemma worker_turn_cases:
  assumes "worker_turn S providers w = (x, w')"
  obtains (idle) y s where "dequeue (srv_redis S) (w_svc w) = (y, s)" "w' = w\<lparr>w_svc := s\<rparr>"
      "\<And>i. y \<noteq> Inr (Some i)"
    | (dispatched) i s y where "dequeue (srv_redis S) (w_svc w) = (Inr (Some i), s)"
      "dispatch S providers i (w\<lparr>w_svc := s\<rparr>) = (y, w')"
proof -
  obtain y s where deq: "dequeue (srv_redis S) (w_svc w) = (y, s)"
    by (cases "dequeue (srv_redis S) (w_svc w)")
  from assms deq have turn: "w' = snd (case y of Inl e \<Rightarrow> (Inr (), w\<lparr>w_svc := s\<rparr>)
    | Inr None \<Rightarrow> (Inr (), w\<lparr>w_svc := s\<rparr>)
    | Inr (Some i) \<Rightarrow> dispatch S providers i (w\<lparr>w_svc := s\<rparr>))"
    by (auto simp: worker_turn_def io_try_def io_bind_def io_return_def on_svc_def io_zoom_def
        split: sum.splits option.splits prod.splits)
  show thesis
  proof (cases "\<exists>i. y = Inr (Some i)")
    case True
    then obtain i where y: "y = Inr (Some i)" by blast
    obtain z w2 where "dispatch S providers i (w\<lparr>w_svc := s\<rparr>) = (z, w2)"
      by (cases "dispatch S providers i (w\<lparr>w_svc := s\<rparr>)")
    with turn y deq show thesis by (intro dispatched) auto
  next
    case False
    with turn have "w' = w\<lparr>w_svc := s\<rparr>" by (auto split: sum.splits option.splits)
    with deq False show thesis by (intro idle) auto
  qed
qed

lemma worker_turn_life:
  assumes laws: "services_laws S" and provs: "providers_ok providers"
    and ok: "table_ok (w_rows S w)" and run: "worker_turn S providers w = (x, w')"
  shows "life_steps S w w'"
  using run
proof (cases rule: worker_turn_cases)
  case idle
  then show ?thesis by (intro life_steps_same) simp
next
  case (dispatched i s y)
  have "life_at S i (w\<lparr>w_svc := s\<rparr>) w'"
    by (rule dispatch_life [OF laws provs _ dispatched(2)]) (use ok in simp_all)
  from life_at_steps [OF this] show ?thesis by (simp add: life_steps_def)
qed

lemma worker_loop_life:
  assumes laws: "services_laws S" and provs: "providers_ok providers"
  shows "life_inv (w_rows S w) \<Longrightarrow> worker_loop S providers readings w = (x, w') \<Longrightarrow> life_steps S w w'"
proof (induction readings arbitrary: w)
  case Nil
  then show ?case by (simp add: io_return_run life.reflexive)
next
  case (Cons running readings)
  show ?case
  proof (cases running)
    case True
    obtain w1 where turn: "worker_turn S providers w = (Inr (), w1)" using worker_turn_returns by blast
    have "table_ok (w_rows S w)" using Cons.prems(1) by (simp add: life_inv_def)
    from worker_turn_life [OF laws provs this turn] have step: "life_steps S w w1" by blast
    then have "life_inv (w_rows S w1)"
      using Cons.prems(1) life_writes_inv unfolding life_steps_def by blast
    moreover from Cons.prems(2) turn True have "worker_loop S providers readings w1 = (x, w')"
      by (simp add: io_bind_def)
    ultimately have "life_steps S w1 w'" by (rule Cons.IH)
    with step show ?thesis by (rule life.transitive)
  next
    case False
    with Cons.prems(2) show ?thesis by (simp add: io_return_run life.reflexive)
  qed
qed

end
