(* ===== verification/Rabbit_Handler.thy ===== *)
theory Rabbit_Handler
  imports Manager Retry_Publishing
begin

text \<open>
  \<open>app/handlers/rabbitmq_handler.py\<close>: the topology the consumer declares, and its two
  callbacks. A delivery carries the results of \<open>message.body.decode()\<close> and of
  \<open>json.loads\<close> on it: the decoders of the standard library are not modelled beyond their
  results. Headers are association lists.
\<close>

section \<open>Topology\<close>

definition EXCHANGE_NAME :: string where
  "EXCHANGE_NAME = ''notification.exchange''"

definition HANDLER_RETRY_EXCHANGE :: string where
  "HANDLER_RETRY_EXCHANGE = ''notification.retry.exchange''"

definition QUEUE_NAME :: string where
  "QUEUE_NAME = ''notification.queue''"

definition HANDLER_RETRY_QUEUE :: string where
  "HANDLER_RETRY_QUEUE = ''notification.retry''"

definition RETRY_RESULT_QUEUE :: string where
  "RETRY_RESULT_QUEUE = ''notification.retry.result''"

definition ROUTING_KEYS :: "string list" where
  "ROUTING_KEYS = [''order.*'', ''payment.*'', ''shipping.*'']"

definition MAX_DELIVERY_ATTEMPTS :: int where
  "MAX_DELIVERY_ATTEMPTS = 3"

text \<open>The handler object, on the broker's state.\<close>

record 'q rabbit =
  rb_amqp :: 'q
  rb_connection :: "nat option"
  rb_channel :: "nat option"
  rb_running :: bool

definition on_broker :: "('q, 'a) io \<Rightarrow> ('q rabbit, 'a) io" where
  "on_broker = io_zoom rb_amqp (\<lambda>q s. s\<lparr>rb_amqp := q\<rparr>)"

text \<open>\<open>start\<close>: whatever raises is logged, and the service goes on without the consumer.\<close>

definition declare_topology :: "'q amqp \<Rightarrow> nat \<Rightarrow> ('q rabbit, unit) io" where
  "declare_topology A ch =
     io_bind (on_broker (q_set_qos A ch 100)) (\<lambda>_.
     io_bind (on_broker (q_declare_exchange A ch EXCHANGE_NAME Topic)) (\<lambda>_.
     io_bind (on_broker (q_declare_exchange A ch HANDLER_RETRY_EXCHANGE Fanout)) (\<lambda>_.
     io_bind (on_broker (q_declare_queue A ch QUEUE_NAME None)) (\<lambda>_.
     io_bind (io_foreach (\<lambda>routing_key _. on_broker (q_bind A ch QUEUE_NAME EXCHANGE_NAME (Some routing_key)))
       ROUTING_KEYS ()) (\<lambda>_.
     io_bind (on_broker (q_declare_queue A ch HANDLER_RETRY_QUEUE (Some HANDLER_RETRY_EXCHANGE))) (\<lambda>_.
     io_bind (on_broker (q_declare_queue A ch RETRY_RESULT_QUEUE None)) (\<lambda>_.
     io_bind (on_broker (q_bind A ch RETRY_RESULT_QUEUE HANDLER_RETRY_EXCHANGE None)) (\<lambda>_.
     io_bind (on_broker (q_consume A ch QUEUE_NAME)) (\<lambda>_.
     on_broker (q_consume A ch RETRY_RESULT_QUEUE))))))))))"

definition handler_start :: "'q amqp \<Rightarrow> ('q rabbit, unit) io" where
  "handler_start A =
     io_try
       (io_bind (on_broker (q_connect A)) (\<lambda>c.
        io_bind (io_modify (\<lambda>s. s\<lparr>rb_connection := Some c\<rparr>)) (\<lambda>_.
        io_bind (on_broker (q_open_channel A c)) (\<lambda>ch.
        io_bind (io_modify (\<lambda>s. s\<lparr>rb_channel := Some ch\<rparr>)) (\<lambda>_.
        io_bind (declare_topology A ch) (\<lambda>_.
        io_modify (\<lambda>s. s\<lparr>rb_running := True\<rparr>)))))))
       (\<lambda>_. io_return ())"

definition handler_stop :: "'q amqp \<Rightarrow> ('q rabbit, unit) io" where
  "handler_stop A =
     io_bind (io_modify (\<lambda>s. s\<lparr>rb_running := False\<rparr>)) (\<lambda>_.
     io_bind (io_gets rb_connection) (\<lambda>conn.
     case conn of None \<Rightarrow> io_return () | Some c \<Rightarrow> on_broker (q_close A c)))"

section \<open>Callbacks\<close>

record delivery =
  dl_tag :: nat
  dl_text :: "py_exn + string"
  dl_json :: "py_exn + json"
  dl_headers :: "(string \<times> int) list"

text \<open>\<open>body[key]\<close>: a dict without the key raises \<open>KeyError\<close>, and a value that is not a
  dict cannot be subscripted with a string.\<close>

fun json_get :: "json \<Rightarrow> string \<Rightarrow> py_exn + json" where
  "json_get (JObj kvs) k = (case map_of kvs k of None \<Rightarrow> Inl KeyError | Some j \<Rightarrow> Inr j)"
| "json_get _ k = Inl TypeError"

fun json_get_default :: "json \<Rightarrow> string \<Rightarrow> json \<Rightarrow> py_exn + json" where
  "json_get_default (JObj kvs) k d = Inr (case map_of kvs k of None \<Rightarrow> d | Some j \<Rightarrow> j)"
| "json_get_default _ k d = Inl AttributeError"

text \<open>The keyword arguments are evaluated in the order they are written.\<close>

definition payload_of_body :: "json \<Rightarrow> py_exn + notification_create" where
  "payload_of_body body =
     (case json_get body ''idempotency_key'' of Inl e \<Rightarrow> Inl e | Inr key \<Rightarrow>
      case json_get body ''source_service'' of Inl e \<Rightarrow> Inl e | Inr src \<Rightarrow>
      case json_get body ''event_type'' of Inl e \<Rightarrow> Inl e | Inr ev \<Rightarrow>
      case json_get_default body ''priority'' (JStr ''medium'') of Inl e \<Rightarrow> Inl e | Inr prio \<Rightarrow>
      case json_get body ''recipient'' of Inl e \<Rightarrow> Inl e | Inr rcpt \<Rightarrow>
      case recipient_info_of_json rcpt of Inl e \<Rightarrow> Inl e | Inr r \<Rightarrow>
      case json_get body ''content'' of Inl e \<Rightarrow> Inl e | Inr cont \<Rightarrow>
      notification_create_of_json key src ev prio r cont)"

definition delivery_payload :: "delivery \<Rightarrow> py_exn + notification_create" where
  "delivery_payload msg =
     (case dl_json msg of Inl e \<Rightarrow> Inl e | Inr body \<Rightarrow> payload_of_body body)"

definition on_wire :: "('q, 'a) io \<Rightarrow> (('d, 'r, 'q, 'p) world, 'a) io" where
  "on_wire m = on_svc (on_amqp m)"

definition msg_ack :: "('d, 'r, 'q) services \<Rightarrow> delivery \<Rightarrow> (('d, 'r, 'q, 'p) world, unit) io" where
  "msg_ack S msg = on_wire (q_ack (srv_amqp S) (dl_tag msg))"

definition msg_nack :: "('d, 'r, 'q) services \<Rightarrow> delivery \<Rightarrow> bool \<Rightarrow> (('d, 'r, 'q, 'p) world, unit) io" where
  "msg_nack S msg requeue = on_wire (q_nack (srv_amqp S) (dl_tag msg) requeue)"

text \<open>\<open>message.headers.get("x-delivery-count", 0)\<close>\<close>

definition delivery_count :: "delivery \<Rightarrow> int" where
  "delivery_count msg = (case map_of (dl_headers msg) ''x-delivery-count'' of None \<Rightarrow> 0 | Some k \<Rightarrow> k)"

definition on_new_event :: "('d, 'r, 'q) services \<Rightarrow> delivery \<Rightarrow> (('d, 'r, 'q, 'p) world, unit) io" where
  "on_new_event S msg =
     io_try
       (io_bind (io_of (delivery_payload msg)) (\<lambda>payload.
        io_bind (create_notification S payload) (\<lambda>_.
        msg_ack S msg)))
       (\<lambda>e. if e = JSONDecodeError then msg_nack S msg False
             else if e = KeyError then msg_nack S msg False
             else if delivery_count msg \<ge> MAX_DELIVERY_ATTEMPTS then msg_nack S msg False
             else msg_nack S msg True)"

definition decoded_id :: "delivery \<Rightarrow> py_exn + int" where
  "decoded_id msg =
     (case dl_text msg of Inl e \<Rightarrow> Inl e
      | Inr s \<Rightarrow> (case int_of_str s of None \<Rightarrow> Inl ValueError | Some i \<Rightarrow> Inr i))"

definition on_retry_event :: "('d, 'r, 'q) services \<Rightarrow> delivery \<Rightarrow> (('d, 'r, 'q, 'p) world, unit) io" where
  "on_retry_event S msg =
     io_try
       (io_bind (io_of (decoded_id msg)) (\<lambda>i.
        io_bind (on_db (get_by_id (srv_pg S) i)) (\<lambda>row.
        io_bind
          (case row of
             None \<Rightarrow> io_return False
           | Some n \<Rightarrow> on_svc (enqueue (srv_redis S) (nid n) (priority n))) (\<lambda>_.
        msg_ack S msg))))
       (\<lambda>_. msg_nack S msg False)"

section \<open>Settling a delivery\<close>

lemma settle_laws:
  assumes "amqp_laws A"
  shows "q_ack A t q = (Inr (), q') \<Longrightarrow> q_settled A q' = (q_settled A q)(t \<mapsto> Acked)"
    and "q_ack A t q = (x, q') \<Longrightarrow> q_published A q' = q_published A q"
    and "q_nack A t b q = (Inr (), q') \<Longrightarrow> q_settled A q' = (q_settled A q)(t \<mapsto> Nacked b)"
    and "q_nack A t b q = (x, q') \<Longrightarrow> q_published A q' = q_published A q"
proof -
  note laws = amqp_laws_parts(2) [OF assms, unfolded amqp_effect_laws_def]
  note ack = laws [THEN conjunct2, THEN conjunct1, THEN spec, THEN spec, THEN spec, THEN spec, THEN mp]
  note nack = laws [THEN conjunct2, THEN conjunct2, THEN spec, THEN spec, THEN spec, THEN spec,
      THEN spec, THEN mp]
  show "q_ack A t q = (Inr (), q') \<Longrightarrow> q_settled A q' = (q_settled A q)(t \<mapsto> Acked)"
    by (drule ack) simp
  show "q_ack A t q = (x, q') \<Longrightarrow> q_published A q' = q_published A q"
    by (drule ack) simp
  show "q_nack A t b q = (Inr (), q') \<Longrightarrow> q_settled A q' = (q_settled A q)(t \<mapsto> Nacked b)"
    by (drule nack) simp
  show "q_nack A t b q = (x, q') \<Longrightarrow> q_published A q' = q_published A q"
    by (drule nack) simp
qed

text \<open>What settling leaves alone, and that the broker still answers.\<close>

definition wire_frame ::
  "('d, 'r, 'q) services \<Rightarrow> ('d, 'r, 'q, 'p) world \<Rightarrow> ('d, 'r, 'q, 'p) world \<Rightarrow> bool"
where
  "wire_frame S w w' \<longleftrightarrow> amqp_up S w' \<and> w_db w' = w_db w \<and> w_prov w' = w_prov w \<and>
     svc_redis (w_svc w') = svc_redis (w_svc w) \<and> w_published S w' = w_published S w"

lemma on_wire_db [evolve_intros]: "evolves (same w_db) (on_wire m)"
  unfolding on_wire_def by (rule on_parts_frame)

lemma msg_ack_up:
  assumes laws: "services_laws S" and up: "amqp_up S w"
  obtains w' where "msg_ack S msg w = (Inr (), w')" "wire_frame S w w'"
    "w_settled S w' = (w_settled S w)(dl_tag msg \<mapsto> Acked)"
proof -
  note amqp = services_laws_parts(3) [OF laws]
  obtain x q where run: "q_ack (srv_amqp S) (dl_tag msg) (svc_amqp (w_svc w)) = (x, q)"
    by (cases "q_ack (srv_amqp S) (dl_tag msg) (svc_amqp (w_svc w))")
  from up_laws(10) [OF amqp] up run have "x = Inr ()" "q_up (srv_amqp S) q"
    unfolding q_answers_def amqp_up_def by auto
  with run settle_laws(1,2) [OF amqp] show thesis
    by (intro that [of "w\<lparr>w_svc := (w_svc w)\<lparr>svc_amqp := q\<rparr>\<rparr>"])
      (simp_all add: msg_ack_def on_wire_def on_svc_run on_amqp_run wire_frame_def amqp_up_def)
qed

lemma msg_nack_up:
  assumes laws: "services_laws S" and up: "amqp_up S w"
  obtains w' where "msg_nack S msg b w = (Inr (), w')" "wire_frame S w w'"
    "w_settled S w' = (w_settled S w)(dl_tag msg \<mapsto> Nacked b)"
proof -
  note amqp = services_laws_parts(3) [OF laws]
  obtain x q where run: "q_nack (srv_amqp S) (dl_tag msg) b (svc_amqp (w_svc w)) = (x, q)"
    by (cases "q_nack (srv_amqp S) (dl_tag msg) b (svc_amqp (w_svc w))")
  from up_laws(11) [OF amqp] up run have "x = Inr ()" "q_up (srv_amqp S) q"
    unfolding q_answers_def amqp_up_def by auto
  with run settle_laws(3,4) [OF amqp] show thesis
    by (intro that [of "w\<lparr>w_svc := (w_svc w)\<lparr>svc_amqp := q\<rparr>\<rparr>"])
      (simp_all add: msg_nack_def on_wire_def on_svc_run on_amqp_run wire_frame_def amqp_up_def)
qed

section \<open>New events\<close>

text \<open>The part of the callback that can fail, and how its outcome is settled.\<close>

definition process_event ::
  "('d, 'r, 'q) services \<Rightarrow> delivery \<Rightarrow> (('d, 'r, 'q, 'p) world, notification list \<times> bool) io"
where
  "process_event S msg = io_bind (io_of (delivery_payload msg)) (create_notification S)"

definition settlement_of :: "delivery \<Rightarrow> py_exn + 'a \<Rightarrow> settlement" where
  "settlement_of msg x =
     (case x of
        Inr _ \<Rightarrow> Acked
      | Inl e \<Rightarrow> Nacked (e \<noteq> JSONDecodeError \<and> e \<noteq> KeyError \<and> delivery_count msg < 3))"

text \<open>Creating notifications does not touch the broker.\<close>

definition broker_state :: "('d, 'r, 'q, 'p) world \<Rightarrow> 'q" where
  "broker_state w = svc_amqp (w_svc w)"

lemma broker_state_db: "evolves (same broker_state) (on_db m)"
  by (auto simp: evolves_def same_def broker_state_def on_db_def io_zoom_def split: prod.splits)

lemma broker_state_client: "evolves (same broker_state) (on_client m)"
  by (auto simp: evolves_def same_def broker_state_def on_client_def on_svc_def on_redis_def
      io_zoom_def split: prod.splits)

lemma broker_state_enqueue: "evolves (same broker_state) (on_svc (enqueue R i p))"
  by (auto simp: evolves_def same_def broker_state_def on_svc_def io_zoom_def enqueue_run
      split: prod.splits)

lemma broker_state_create: "evolves (same broker_state) (create_notification S p)"
  unfolding create_notification_def create_one_def Let_def
  by (intro unchanged.evolves_bind unchanged.evolves_try unchanged.evolves_return unchanged.evolves_raise
      unchanged.evolves_of unchanged.evolves_foreach evolves_if broker_state_db broker_state_client
      broker_state_enqueue)

lemma process_event_up:
  assumes "amqp_up S w" "process_event S msg w = (x, w1)"
  shows "amqp_up S w1 \<and> w_settled S w1 = w_settled S w \<and> w_published S w1 = w_published S w"
proof -
  have "evolves (same broker_state) (process_event S msg)"
    unfolding process_event_def
    by (intro unchanged.evolves_bind unchanged.evolves_of broker_state_create)
  from evolvesD [OF this assms(2)] assms(1) show ?thesis
    by (simp add: same_def broker_state_def amqp_up_def)
qed

lemma nack_choice:
  "(if e = JSONDecodeError then msg_nack S msg False
    else if e = KeyError then msg_nack S msg False
    else if delivery_count msg \<ge> MAX_DELIVERY_ATTEMPTS then msg_nack S msg False
    else msg_nack S msg True) =
   msg_nack S msg (e \<noteq> JSONDecodeError \<and> e \<noteq> KeyError \<and> delivery_count msg < 3)"
  by (simp add: MAX_DELIVERY_ATTEMPTS_def)

lemma on_new_event_parts:
  "on_new_event S msg =
     io_try (io_bind (process_event S msg) (\<lambda>_. msg_ack S msg))
       (\<lambda>e. msg_nack S msg (e \<noteq> JSONDecodeError \<and> e \<noteq> KeyError \<and> delivery_count msg < 3))"
  unfolding on_new_event_def nack_choice process_event_def io_bind_assoc ..

lemma on_new_event_settles:
  assumes laws: "services_laws S" and up: "amqp_up S w" and run: "process_event S msg w = (x, w1)"
  obtains w' where "on_new_event S msg w = (Inr (), w')" "wire_frame S w1 w'"
    "w_settled S w' = (w_settled S w)(dl_tag msg \<mapsto> settlement_of msg x)"
proof -
  note f = process_event_up [OF up run]
  then have up1: "amqp_up S w1" by simp
  show thesis
  proof (cases x)
    case (Inl e)
    let ?b = "e \<noteq> JSONDecodeError \<and> e \<noteq> KeyError \<and> delivery_count msg < 3"
    from run Inl have "io_bind (process_event S msg) (\<lambda>_. msg_ack S msg) w = (Inl e, w1)"
      by (intro io_bind_Inl) simp
    then have "on_new_event S msg w = msg_nack S msg ?b w1"
      unfolding on_new_event_parts by (rule io_try_Inl)
    moreover obtain w' where "msg_nack S msg ?b w1 = (Inr (), w')" "wire_frame S w1 w'"
      "w_settled S w' = (w_settled S w1)(dl_tag msg \<mapsto> Nacked ?b)"
      by (rule msg_nack_up [OF laws up1])
    moreover have "settlement_of msg x = Nacked ?b" by (simp add: settlement_of_def Inl)
    ultimately show thesis using f by (intro that [of w']) simp_all
  next
    case (Inr y)
    obtain w' where ack: "msg_ack S msg w1 = (Inr (), w')" "wire_frame S w1 w'"
      "w_settled S w' = (w_settled S w1)(dl_tag msg \<mapsto> Acked)"
      by (rule msg_ack_up [OF laws up1])
    have "io_bind (process_event S msg) (\<lambda>_. msg_ack S msg) w = msg_ack S msg w1"
      using run Inr by (intro io_bind_Inr) simp
    with ack(1) have "on_new_event S msg w = (Inr (), w')"
      unfolding on_new_event_parts by (intro io_try_Inr) simp
    with ack f Inr show thesis by (intro that [of w']) (simp_all add: settlement_of_def)
  qed
qed

text \<open>A payload that does not validate reaches no service at all.\<close>

lemma process_event_invalid:
  "delivery_payload msg = Inl e \<Longrightarrow> process_event S msg w = (Inl e, w)"
  by (simp add: process_event_def io_simps)

lemma delivery_payload_validated:
  assumes "delivery_payload msg = Inr p"
  obtains src ev prio where "validated p src ev prio"
proof -
  from assms obtain key s v pr r cont where
    "notification_create_of_json key s v pr r cont = Inr p"
    by (auto simp: delivery_payload_def payload_of_body_def split: sum.splits)
  then obtain q where "notification_create_init q = Inr p"
    by (auto simp: notification_create_of_json_def split: sum.splits)
  with init_validated that show thesis by blast
qed

lemma process_event_life:
  assumes "services_laws S"
  shows "evolves (life_steps S) (process_event S msg)"
proof (cases "delivery_payload msg")
  case (Inl e)
  then show ?thesis
    by (intro evolvesI) (simp add: process_event_invalid life.reflexive)
next
  case (Inr p)
  then obtain src ev prio where "validated p src ev prio" by (rule delivery_payload_validated)
  from life_create_notification [OF assms this] Inr show ?thesis by (simp add: process_event_def)
qed

lemma on_new_event_life:
  assumes "services_laws S"
  shows "evolves (life_steps S) (on_new_event S msg)"
  unfolding on_new_event_parts msg_ack_def msg_nack_def
  by (intro life.evolves_try life.evolves_bind process_event_life assms evolves_life_same [OF on_wire_db])

section \<open>Retry events\<close>

lemma on_retry_event_life:
  assumes laws: "services_laws S"
  shows "evolves (life_steps S) (on_retry_event S msg)"
proof -
  have "evolves (life_steps S) (on_db (get_by_id (srv_pg S) i))" for i
    by (rule evolvesI) (rule life_steps_same, rule on_db_get_cases(1) [OF laws])
  then show ?thesis
    unfolding on_retry_event_def msg_ack_def msg_nack_def
    by (intro life.evolves_try life.evolves_bind life.evolves_of life.evolves_return
        evolves_case_option evolves_life_same [OF on_wire_db] evolves_life_same [OF on_parts_frame(3)])
qed

text \<open>
  A retry event of an existing row queues the row again and is acknowledged, whatever the row's
  status is; the row is not written.
\<close>

lemma on_retry_event_requeues:
  assumes laws: "services_laws S" and up: "all_up S w" "amqp_up S w"
    and id: "decoded_id msg = Inr i" and row: "w_rows S w i = Some n" "nid n = i"
    and prio: "1 \<le> priority n" "priority n \<le> 4"
  obtains w' where "on_retry_event S msg w = (Inr (), w')" "w_rows S w' = w_rows S w"
    "fst ` set (w_entries S w') = insert i (fst ` set (w_entries S w))"
    "set (w_entries S w) \<subseteq> set (w_entries S w')"
    "w_settled S w' = (w_settled S w)(dl_tag msg \<mapsto> Acked)"
    "db_up S w' \<and> redis_up S w' \<and> queue_ids_ok (srv_redis S) (w_svc w')"
proof -
  obtain x w1 where get: "on_db (get_by_id (srv_pg S) i) w = (x, w1)"
    by (cases "on_db (get_by_id (srv_pg S) i) w")
  note f = on_db_get_cases [OF laws get]
  from f(5) up(1) row(1) have x: "x = Inr (Some n)" by (simp add: all_up_def)
  from up(1) f(2) have w1: "queue_ok S w1" "redis_up S w1"
    by (simp_all add: all_up_def queue_ok_def clock_ok_def redis_up_def)
  obtain y w2 where enq: "on_svc (enqueue (srv_redis S) i (priority n)) w1 = (y, w2)"
    by (cases "on_svc (enqueue (srv_redis S) i (priority n)) w1")
  note eff = world_enqueue [OF laws w1(1) prio enq]
    and eff_up = world_enqueue_up [OF laws w1(1) prio w1(2) enq]
  from eff f(2) up(2) have "amqp_up S w2" by (simp add: amqp_up_def)
  then obtain w' where ack: "msg_ack S msg w2 = (Inr (), w')" "wire_frame S w2 w'"
    "w_settled S w' = (w_settled S w2)(dl_tag msg \<mapsto> Acked)" by (rule msg_ack_up [OF laws])
  from eff_up have y: "y = Inr True" by simp
  have "on_retry_event S msg w = (Inr (), w')"
    using id get x enq ack(1) row(2) y by (simp add: on_retry_event_def io_try_def io_bind_def io_return_def)
  moreover have "w_entries S w' = w_entries S w2" "w_rows S w' = w_rows S w"
    "w_settled S w2 = w_settled S w"
    using ack(2) eff f(1,2) by (simp_all add: wire_frame_def queue_entries_def)
  moreover have "db_up S w' \<and> redis_up S w' \<and> queue_ids_ok (srv_redis S) (w_svc w')"
    using ack(2) eff eff_up f(5) up(1)
    by (auto simp: wire_frame_def redis_up_def queue_ok_def queue_ids_ok_def db_up_def all_up_def)
  moreover have "fst ` set (w_entries S w2) = insert i (fst ` set (w_entries S w))"
    using eff eff_up f(2) by auto
  ultimately show thesis
    using eff_up ack(3) f(2) by (intro that [of w']) simp_all
qed

text \<open>A body that is no number is rejected for good.\<close>

lemma on_retry_event_malformed:
  assumes laws: "services_laws S" and up: "amqp_up S w" and id: "decoded_id msg = Inl e"
  obtains w' where "on_retry_event S msg w = (Inr (), w')" "wire_frame S w w'"
    "w_settled S w' = (w_settled S w)(dl_tag msg \<mapsto> Nacked False)"
proof -
  obtain w' where "msg_nack S msg False w = (Inr (), w')" "wire_frame S w w'"
    "w_settled S w' = (w_settled S w)(dl_tag msg \<mapsto> Nacked False)"
    by (rule msg_nack_up [OF laws up])
  with id show thesis
    by (intro that [of w']) (simp_all add: on_retry_event_def io_try_def io_bind_def io_raise_def)
qed

text \<open>The id a retry message carries is read back.\<close>

lemma decoded_retry_message: "dl_text msg = Inr (str_of_int i) \<Longrightarrow> decoded_id msg = Inr i"
  by (simp add: decoded_id_def)

section \<open>Start\<close>

text \<open>The handler and the retry publisher declare the retry queue alike.\<close>

lemma retry_names [simp]:
  "HANDLER_RETRY_QUEUE = RETRY_QUEUE" "HANDLER_RETRY_EXCHANGE = RETRY_EXCHANGE"
  by (simp_all add: HANDLER_RETRY_QUEUE_def RETRY_QUEUE_def HANDLER_RETRY_EXCHANGE_def RETRY_EXCHANGE_def)

lemma handler_start_returns: "\<exists>s'. handler_start A s = (Inr (), s')"
proof -
  obtain x s' where run: "handler_start A s = (x, s')" by (cases "handler_start A s")
  then have "x = Inr ()" unfolding handler_start_def by (cases rule: io_try_cases) (simp_all add: io_return_run)
  with run show ?thesis by simp
qed

end
