(* ===== verification/Controller.thy ===== *)
theory Controller
  imports Manager Response_Schema Worker Rabbit_Handler
begin

text \<open>
  The HTTP surface: the routes of \<open>app/controllers/notification_controller.py\<close> and
  \<open>app/main.py\<close>, and the exception handlers of \<open>app/handlers/exception_handler.py\<close>.
  A route is what runs after FastAPI has parsed the request; a body or query parameter that
  FastAPI itself refuses is the status 422 of the \<open>parse\<close> steps below. An exception that no
  \<open>HTTPException\<close> stands for goes to the registered handlers.
\<close>

section \<open>Responses\<close>

datatype response_body =
    Created notification_created_response
  | Detail notification_detail_response
  | Listing "notification_list_response list"
  | Retried retry_response
  | Duplicate_of string
  | Error_text string
  | Unprocessable
  | Provider_health "(string \<times> string) list"
  | Queue_depth int
  | Status_ok
  | Redirect_to string
  | Library_page

record response =
  http_status :: int
  http_body :: response_body

text \<open>\<open>register_exception_handlers\<close>: the text of a \<open>ValueError\<close> is left out.\<close>

definition value_error_handler :: response where
  "value_error_handler = \<lparr>http_status = 422, http_body = Unprocessable\<rparr>"

definition generic_error_handler :: response where
  "generic_error_handler = \<lparr>http_status = 500, http_body = Error_text ''Internal server error''\<rparr>"

definition with_handlers :: "('s, response) io \<Rightarrow> ('s, response) io" where
  "with_handlers m =
     io_try m (\<lambda>e. io_return (if is_value_error e then value_error_handler else generic_error_handler))"

section \<open>Routes\<close>

text \<open>POST /notifications, on a payload FastAPI has validated or refused.\<close>

definition post_notification ::
  "('d, 'r, 'q) services \<Rightarrow> py_exn + notification_create \<Rightarrow> (('d, 'r, 'q, 'p) world, response) io"
where
  "post_notification S parsed =
     (case parsed of
        Inl _ \<Rightarrow> io_return \<lparr>http_status = 422, http_body = Unprocessable\<rparr>
      | Inr payload \<Rightarrow>
          with_handlers
            (io_bind (create_notification S payload) (\<lambda>(notifications, is_duplicate).
             if is_duplicate
             then io_return \<lparr>http_status = 409, http_body = Duplicate_of (req_idempotency_key payload)\<rparr>
             else io_return \<lparr>http_status = 201, http_body = Created
               \<lparr>cr_idempotency_key = req_idempotency_key payload,
                cr_event_type = req_event_type payload,
                cr_notifications = map channel_status_convert notifications\<rparr>\<rparr>)))"

text \<open>
  GET /notifications/{id}. The response model declares \<open>content: dict\<close>; a row whose content is
  another JSON value fails the validation of the response, which is no \<open>ValueError\<close>.
\<close>

definition detail_response :: "notification \<Rightarrow> py_exn + response" where
  "detail_response n =
     (case content n of
        JObj _ \<Rightarrow> Inr \<lparr>http_status = 200, http_body = Detail (detail_convert n)\<rparr>
      | _ \<Rightarrow> Inl OtherException)"

definition get_notification_route ::
  "('d, 'r, 'q) services \<Rightarrow> int \<Rightarrow> (('d, 'r, 'q, 'p) world, response) io"
where
  "get_notification_route S i =
     with_handlers
       (io_bind (get_notification S i) (\<lambda>row.
        case row of
          None \<Rightarrow> io_return \<lparr>http_status = 404, http_body = Error_text ''Notification not found''\<rparr>
        | Some n \<Rightarrow> io_of (detail_response n)))"

text \<open>GET /notifications: \<open>Query(20, le=100)\<close> bounds the limit from above only.\<close>

definition list_route ::
  "('d, 'r, 'q) services \<Rightarrow> string option \<Rightarrow> string option \<Rightarrow> string option \<Rightarrow> string option \<Rightarrow>
   int option \<Rightarrow> int option \<Rightarrow> (('d, 'r, 'q, 'p) world, response) io"
where
  "list_route S st ch src ev limit offset =
     (let limit' = (case limit of None \<Rightarrow> 20 | Some k \<Rightarrow> k);
          offset' = (case offset of None \<Rightarrow> 0 | Some k \<Rightarrow> k)
      in
        if limit' > 100 then io_return \<lparr>http_status = 422, http_body = Unprocessable\<rparr>
        else
          with_handlers
            (io_bind (list_notifications S st ch src ev limit' offset') (\<lambda>ns.
             io_return \<lparr>http_status = 200, http_body = Listing (map list_convert ns)\<rparr>)))"

text \<open>POST /notifications/{id}/retry. A non-empty error text is the response 400; without one,
  reading the attributes of \<open>None\<close> raises.\<close>

definition retry_route ::
  "('d, 'r, 'q) services \<Rightarrow> int \<Rightarrow> (('d, 'r, 'q, 'p) world, response) io"
where
  "retry_route S i =
     with_handlers
       (io_bind (retry_notification S i) (\<lambda>(row, err).
        if err \<noteq> [] then io_return \<lparr>http_status = 400, http_body = Error_text err\<rparr>
        else
          (case row of
             None \<Rightarrow> io_raise AttributeError
           | Some n \<Rightarrow> io_return \<lparr>http_status = 200, http_body = Retried
               \<lparr>rr_id = nid n, rr_status = ''pending'', rr_retry_count = retry_count n,
                rr_message = ''Notification requeued successfully''\<rparr>\<rparr>)))"

definition health_route :: "(('d, 'r, 'q, 'p) world, response) io" where
  "health_route = io_return \<lparr>http_status = 200, http_body = Status_ok\<rparr>"

text \<open>GET /health/providers; \<open>providers[channel]\<close> raises when there is none.\<close>

definition provider_up ::
  "(notification_channel \<Rightarrow> 'p provider option) \<Rightarrow> notification_channel \<Rightarrow>
   (('d, 'r, 'q, 'p) world, string) io"
where
  "provider_up providers c =
     (case providers c of
        None \<Rightarrow> io_raise KeyError
      | Some p \<Rightarrow> io_bind (on_prov (p_health_check p)) (\<lambda>up. io_return (if up then ''up'' else ''down'')))"

definition health_providers_route ::
  "(notification_channel \<Rightarrow> 'p provider option) \<Rightarrow> (('d, 'r, 'q, 'p) world, response) io"
where
  "health_providers_route providers =
     with_handlers
       (io_bind (provider_up providers EMAIL) (\<lambda>email_up.
        io_bind (provider_up providers SMS) (\<lambda>sms_up.
        io_bind (provider_up providers PUSH) (\<lambda>push_up.
        io_return \<lparr>http_status = 200, http_body = Provider_health
          [(''email'', email_up), (''sms'', sms_up), (''push'', push_up)]\<rparr>))))"

definition metrics_route :: "('d, 'r, 'q) services \<Rightarrow> (('d, 'r, 'q, 'p) world, response) io" where
  "metrics_route S =
     with_handlers
       (io_bind (on_svc (queue_depth (srv_redis S))) (\<lambda>k.
        io_return \<lparr>http_status = 200, http_body = Queue_depth k\<rparr>))"

section \<open>Every request is answered\<close>

lemma with_handlers_returns: "\<exists>r w'. with_handlers m w = (Inr r, w')"
proof (cases "m w")
  case (Pair x w')
  then show ?thesis by (cases x) (auto simp: with_handlers_def io_try_def io_return_def)
qed

lemma with_handlers_cases:
  assumes "with_handlers m w = (Inr r, w')"
  obtains (answered) "m w = (Inr r, w')"
    | (value_error) e where "m w = (Inl e, w')" "is_value_error e" "r = value_error_handler"
    | (error) e where "m w = (Inl e, w')" "\<not> is_value_error e" "r = generic_error_handler"
  using assms unfolding with_handlers_def
  by (cases rule: io_try_cases) (auto simp: io_return_run split: if_splits)

lemma evolves_with_handlers:
  assumes "evolves (life_steps S) m"
  shows "evolves (life_steps S) (with_handlers m)"
  unfolding with_handlers_def
  by (intro life.evolves_try life.evolves_return assms)

section \<open>The table, whatever a request does\<close>

lemma post_notification_life:
  assumes laws: "services_laws S" and parsed: "\<And>p. parsed = Inr p \<Longrightarrow> \<exists>src ev prio. validated p src ev prio"
  shows "evolves (life_steps S) (post_notification S parsed)"
proof (cases parsed)
  case (Inl e)
  then show ?thesis by (simp add: post_notification_def life.evolves_return)
next
  case (Inr p)
  with parsed obtain src ev prio where v: "validated p src ev prio" by blast
  have "evolves (life_steps S) (io_bind (create_notification S p) (\<lambda>(notifications, is_duplicate).
      if is_duplicate
      then io_return \<lparr>http_status = 409, http_body = Duplicate_of (req_idempotency_key p)\<rparr>
      else io_return \<lparr>http_status = 201, http_body = Created
        \<lparr>cr_idempotency_key = req_idempotency_key p, cr_event_type = req_event_type p,
         cr_notifications = map channel_status_convert notifications\<rparr>\<rparr>))"
    by (intro life.evolves_bind life_create_notification [OF laws v])
      (auto intro: life.evolves_return split: prod.splits)
  then show ?thesis
    unfolding Inr post_notification_def sum.case by (rule evolves_with_handlers)
qed

lemma retry_route_life:
  assumes "services_laws S"
  shows "evolves (life_steps S) (retry_route S i)"
  unfolding retry_route_def
  by (intro evolves_with_handlers life.evolves_bind life_retry_notification assms)
    (auto intro: life.evolves_return life.evolves_raise split: prod.splits option.splits)

end
