(* ===== verification/Notification_System.thy ===== *)
theory Notification_System
  imports Controller
begin

text \<open>
  The service as a transition system: one step is a whole run of a request, of a message
  callback or of a turn of a worker, or anything the servers and providers do by themselves.
  The steps refine the writes of \<open>Lifecycle\<close>, so its invariant holds in every reachable state.
\<close>

section \<open>Steps\<close>

text \<open>
  \<open>outside\<close> is everything that leaves the committed rows alone: outages and recoveries, keys that
  expire in Redis, entries of the queue that come and go, messages of the broker, the clock, and the
  state of the providers.
\<close>

inductive system_step ::
  "('d, 'r, 'q) services \<Rightarrow> (notification_channel \<Rightarrow> 'p provider option) \<Rightarrow>
   ('d, 'r, 'q, 'p) world \<Rightarrow> ('d, 'r, 'q, 'p) world \<Rightarrow> bool"
  for S :: "('d, 'r, 'q) services" and providers :: "notification_channel \<Rightarrow> 'p provider option"
where
  request: "post_notification S (notification_create_init p) w = (x, w') \<Longrightarrow> system_step S providers w w'"
| manual_retry: "retry_route S i w = (x, w') \<Longrightarrow> system_step S providers w w'"
| look_up: "get_notification_route S i w = (x, w') \<Longrightarrow> system_step S providers w w'"
| listing: "list_route S st ch src ev limit offset w = (x, w') \<Longrightarrow> system_step S providers w w'"
| new_event: "on_new_event S msg w = (u, w') \<Longrightarrow> system_step S providers w w'"
| retry_event: "on_retry_event S msg w = (u, w') \<Longrightarrow> system_step S providers w w'"
| worker: "worker_turn S providers w = (u, w') \<Longrightarrow> system_step S providers w w'"
| outside: "w_rows S w' = w_rows S w \<Longrightarrow> system_step S providers w w'"

inductive_cases system_stepE: "system_step S providers w w'"

inductive reachable ::
  "('d, 'r, 'q) services \<Rightarrow> (notification_channel \<Rightarrow> 'p provider option) \<Rightarrow>
   ('d, 'r, 'q, 'p) world \<Rightarrow> bool"
  for S :: "('d, 'r, 'q) services" and providers :: "notification_channel \<Rightarrow> 'p provider option"
where
  initial: "w_rows S w = (\<lambda>_. None) \<Longrightarrow> reachable S providers w"
| step: "reachable S providers w \<Longrightarrow> system_step S providers w w' \<Longrightarrow> reachable S providers w'"

section \<open>Every step is a sequence of life-cycle writes\<close>

lemma look_up_life:
  assumes "services_laws S"
  shows "evolves (life_steps S) (get_notification_route S i)"
proof -
  have "evolves (life_steps S) (get_notification S i)"
    unfolding get_notification_def
    by (rule evolvesI) (rule life_steps_same, rule on_db_get_cases(1) [OF assms])
  then show ?thesis
    unfolding get_notification_route_def
    by (intro evolves_with_handlers life.evolves_bind evolves_case_option life.evolves_return life.evolves_of)
qed

lemma listing_life:
  assumes "services_laws S"
  shows "evolves (life_steps S) (list_route S st ch src ev limit offset)"
proof -
  have "evolves (life_steps S) (list_notifications S st ch src ev k j)" for k j
    using list_notifications_reads [OF assms, of st ch src ev k j]
    by (auto simp: evolves_def same_def intro: life_steps_same)
  then show ?thesis
    unfolding list_route_def Let_def
    by (intro evolves_if evolves_with_handlers life.evolves_bind life.evolves_return)
qed

lemma system_step_life:
  assumes laws: "services_laws S" and provs: "providers_ok providers"
    and ok: "table_ok (w_rows S w)" and step: "system_step S providers w w'"
  shows "life_steps S w w'"
  using step
proof cases
  case (request p x)
  have "evolves (life_steps S) (post_notification S (notification_create_init p))"
    by (rule post_notification_life [OF laws]) (rule init_validated)
  from evolvesD [OF this request] show ?thesis .
next
  case (manual_retry i x)
  from evolvesD [OF retry_route_life [OF laws] manual_retry] show ?thesis .
next
  case (look_up i x)
  from evolvesD [OF look_up_life [OF laws] look_up] show ?thesis .
next
  case (listing st ch src ev limit offset x)
  from evolvesD [OF listing_life [OF laws] listing] show ?thesis .
next
  case (new_event msg u)
  from evolvesD [OF on_new_event_life [OF laws] new_event] show ?thesis .
next
  case (retry_event msg u)
  from evolvesD [OF on_retry_event_life [OF laws] retry_event] show ?thesis .
next
  case (worker u)
  from worker_turn_life [OF laws provs ok worker] show ?thesis .
next
  case outside
  then show ?thesis by (rule life_steps_same)
qed

lemma reachable_life_inv:
  assumes laws: "services_laws S" and provs: "providers_ok providers"
  shows "reachable S providers w \<Longrightarrow> life_inv (w_rows S w)"
proof (induction rule: reachable.induct)
  case (step w w')
  then have "table_ok (w_rows S w)" by (simp add: life_inv_def)
  from system_step_life [OF laws provs this step.hyps(2)] step.IH show ?case
    unfolding life_steps_def by (rule life_writes_inv)
qed simp

lemma reachable_life_steps:
  assumes laws: "services_laws S" and provs: "providers_ok providers"
    and start: "reachable S providers w"
  shows "(system_step S providers)\<^sup>*\<^sup>* w w' \<Longrightarrow> reachable S providers w' \<and> life_steps S w w'"
proof (induction rule: rtranclp_induct)
  case base
  show ?case by (simp add: start life.reflexive)
next
  case (step v u)
  then have reach: "reachable S providers v" "life_steps S w v" by simp_all
  have "table_ok (w_rows S v)"
    using reachable_life_inv [OF laws provs reach(1)] by (simp add: life_inv_def)
  from system_step_life [OF laws provs this step.hyps(2)] reach step.hyps(2) show ?case
    by (blast intro: reachable.step life.transitive)
qed

end
