(* ===== verification/Reference_Services.thy ===== *)
theory Reference_Services
  imports Notification_World
begin

text \<open>
  Concrete services that satisfy the laws of \<open>Services\<close>: a database, a Redis and a broker
  as executable functions on finite states, each with a switch that makes every command raise.
  They show that the hypotheses of the theorems can be met, and concrete runs evaluate on them.
\<close>

section \<open>A database\<close>

record ref_db =
  rd_rows :: "(int \<times> notification) list"
  rd_now :: int
  rd_up :: bool

definition rd_table :: "ref_db \<Rightarrow> table" where
  "rd_table d = map_of (rd_rows d)"

definition rd_fresh :: "ref_db \<Rightarrow> int" where
  "rd_fresh d = fold max (map fst (rd_rows d)) 0 + 1"

definition rd_key_taken :: "ref_db \<Rightarrow> string \<Rightarrow> bool" where
  "rd_key_taken d k \<longleftrightarrow>
     list_ex (\<lambda>i. map_option idempotency_key (rd_table d i) = Some k) (map fst (rd_rows d))"

definition rd_insert :: "notification_args \<Rightarrow> (ref_db, int) io" where
  "rd_insert a d =
     (if \<not> rd_up d then (Inl ConnectionError, d)
      else if rd_key_taken d (a_idempotency_key a) then (Inl IntegrityError, d)
      else case a_recipient a of
        None \<Rightarrow> (Inl IntegrityError, d)
      | Some r \<Rightarrow>
          let i = rd_fresh d; n = row_of_args i (rd_now d) r a in
          if storable n then (Inr i, d\<lparr>rd_rows := (i, n) # rd_rows d\<rparr>)
          else (Inl OtherException, d))"

definition rd_update :: "int \<Rightarrow> attr list \<Rightarrow> (ref_db, unit) io" where
  "rd_update i as d =
     (if \<not> rd_up d then (Inl ConnectionError, d)
      else case rd_table d i of
        None \<Rightarrow> (Inl OtherException, d)
      | Some n \<Rightarrow>
          if storable (set_attrs as n)
          then (Inr (), d\<lparr>rd_rows := (i, (set_attrs as n)\<lparr>mtime := Some (rd_now d)\<rparr>) #
                  filter (\<lambda>kv. fst kv \<noteq> i) (rd_rows d)\<rparr>)
          else (Inl OtherException, d))"

definition rd_refresh :: "int \<Rightarrow> (ref_db, notification) io" where
  "rd_refresh i d =
     (if \<not> rd_up d then (Inl ConnectionError, d)
      else case rd_table d i of None \<Rightarrow> (Inl OtherException, d) | Some n \<Rightarrow> (Inr n, d))"

definition rd_select_id :: "int \<Rightarrow> (ref_db, notification option) io" where
  "rd_select_id i d = (if \<not> rd_up d then (Inl ConnectionError, d) else (Inr (rd_table d i), d))"

text \<open>The rows, each once, latest first.\<close>

definition rd_all :: "ref_db \<Rightarrow> notification list" where
  "rd_all d = sort_key (\<lambda>n. - ctime n)
     (remdups (map (\<lambda>i. the (rd_table d i)) (map fst (rd_rows d))))"

definition rd_select_key :: "string \<Rightarrow> (ref_db, notification option) io" where
  "rd_select_key k d =
     (if \<not> rd_up d then (Inl ConnectionError, d)
      else (Inr (find (\<lambda>n. idempotency_key n = k) (rd_all d)), d))"

definition rd_select :: "select_query \<Rightarrow> (ref_db, notification list) io" where
  "rd_select q d =
     (if \<not> rd_up d then (Inl ConnectionError, d)
      else if s_limit q < 0 \<or> s_offset q < 0 then (Inl OtherException, d)
      else (Inr (take (nat (s_limit q)) (drop (nat (s_offset q))
              (filter (\<lambda>n. list_all (\<lambda>c. clause_holds c n) (s_where q)) (rd_all d)))), d))"

definition rd_rollback :: "(ref_db, unit) io" where
  "rd_rollback d = (if \<not> rd_up d then (Inl ConnectionError, d) else (Inr (), d))"

definition ref_pg :: "ref_db pg" where
  "ref_pg =
     \<lparr>pg_rows = rd_table, pg_up = rd_up, pg_insert = rd_insert, pg_update = rd_update,
      pg_refresh = rd_refresh, pg_select_id = rd_select_id, pg_select_key = rd_select_key,
      pg_select = rd_select, pg_rollback = rd_rollback\<rparr>"

lemma rd_table_fst: "rd_table d i = Some n \<Longrightarrow> i \<in> set (map fst (rd_rows d))"
  unfolding rd_table_def by (metis domI dom_map_of_conv_image_fst list.set_map)

lemma rd_key_taken_iff: "rd_key_taken d k \<longleftrightarrow> key_taken (rd_table d) k"
proof
  assume "rd_key_taken d k"
  then show "key_taken (rd_table d) k"
    by (auto simp: rd_key_taken_def key_taken_def list_ex_iff)
next
  assume "key_taken (rd_table d) k"
  then obtain i n where n: "rd_table d i = Some n" "idempotency_key n = k"
    unfolding key_taken_def by blast
  from rd_table_fst [OF n(1)] n show "rd_key_taken d k"
    unfolding rd_key_taken_def list_ex_iff by (intro bexI [of _ i]) simp_all
qed

lemma fold_max_le: "x \<in> set xs \<or> x \<le> (a::int) \<Longrightarrow> x \<le> fold max xs a"
proof (induction xs arbitrary: a)
  case (Cons y xs)
  from Cons.prems have "x \<in> set xs \<or> x \<le> max y a" by auto
  from Cons.IH [OF this] show ?case by simp
qed simp

lemma rd_fresh_new: "rd_table d (rd_fresh d) = None"
proof (rule ccontr)
  assume "rd_table d (rd_fresh d) \<noteq> None"
  then have "rd_fresh d \<in> set (map fst (rd_rows d))" using rd_table_fst by blast
  then have "rd_fresh d \<le> fold max (map fst (rd_rows d)) 0" by (intro fold_max_le) simp
  then show False by (simp add: rd_fresh_def)
qed

lemma set_rd_all: "set (rd_all d) = ran (rd_table d)"
proof -
  have "set (rd_all d) = (\<lambda>i. the (rd_table d i)) ` dom (rd_table d)"
    by (simp add: rd_all_def rd_table_def dom_map_of_conv_image_fst image_image)
  also have "\<dots> = ran (rd_table d)"
  proof
    show "(\<lambda>i. the (rd_table d i)) ` dom (rd_table d) \<subseteq> ran (rd_table d)" by (auto intro: ranI)
    show "ran (rd_table d) \<subseteq> (\<lambda>i. the (rd_table d i)) ` dom (rd_table d)"
    proof
      fix n
      assume "n \<in> ran (rd_table d)"
      then obtain i where "rd_table d i = Some n" unfolding ran_def by blast
      then show "n \<in> (\<lambda>i. the (rd_table d i)) ` dom (rd_table d)" by (intro image_eqI [of _ _ i]) auto
    qed
  qed
  finally show ?thesis .
qed

lemma rd_update_table:
  "rd_table (d\<lparr>rd_rows := (i, m) # filter (\<lambda>kv. fst kv \<noteq> i) (rd_rows d)\<rparr>) = (rd_table d)(i \<mapsto> m)"
proof -
  have "map_of (filter (\<lambda>kv. fst kv \<noteq> i) xs) j = (if j = i then None else map_of xs j)"
    for xs :: "(int \<times> notification) list" and j
    by (induction xs) auto
  then show ?thesis by (auto simp: rd_table_def fun_eq_iff)
qed

lemma rd_insert_inserted:
  "rd_insert a d = (Inr i, d') \<Longrightarrow> inserted a i (rd_table d) (rd_table d')"
  using rd_fresh_new [of d]
  by (auto simp: rd_insert_def inserted_def rd_key_taken_iff Let_def rd_table_def
      split: if_splits option.splits)

lemma rd_insert_raised: "rd_insert a d = (Inl e, d') \<Longrightarrow> d' = d"
  by (auto simp: rd_insert_def Let_def split: if_splits option.splits)

lemma rd_update_updated:
  "rd_update i as d = (Inr u, d') \<Longrightarrow> updated i as (rd_table d) (rd_table d')"
  unfolding updated_def
  by (auto simp: rd_update_def rd_update_table split: if_splits option.splits)

lemma rd_update_raised: "rd_update i as d = (Inl e, d') \<Longrightarrow> d' = d"
  by (auto simp: rd_update_def split: if_splits option.splits)

lemma ref_pg_simps [simp]:
  "pg_rows ref_pg = rd_table" "pg_up ref_pg = rd_up" "pg_insert ref_pg = rd_insert"
  "pg_update ref_pg = rd_update" "pg_refresh ref_pg = rd_refresh" "pg_select_id ref_pg = rd_select_id"
  "pg_select_key ref_pg = rd_select_key" "pg_select ref_pg = rd_select" "pg_rollback ref_pg = rd_rollback"
  by (simp_all add: ref_pg_def)

lemma ref_pg_write_laws: "pg_write_laws ref_pg"
  unfolding pg_write_laws_def
  by (auto split: prod.splits sum.splits dest: rd_insert_inserted rd_update_updated
      dest!: rd_insert_raised rd_update_raised)

lemma rd_select_page:
  "rd_select q d = (Inr ns, d') \<Longrightarrow> page_of (rd_table d) q ns"
proof -
  assume run: "rd_select q d = (Inr ns, d')"
  let ?m = "filter (\<lambda>n. list_all (\<lambda>c. clause_holds c n) (s_where q)) (rd_all d)"
  have "distinct ?m" by (simp add: rd_all_def)
  moreover have "set ?m = {n \<in> ran (rd_table d). \<forall>c \<in> set (s_where q). clause_holds c n}"
    by (auto simp: set_rd_all list_all_iff)
  moreover have "sorted (map (\<lambda>n. - ctime n) (rd_all d))" by (simp add: rd_all_def)
  then have "sorted_wrt (\<lambda>m n. ctime n \<le> ctime m) (rd_all d)"
    by (simp add: sorted_map sorted_wrt_map)
  then have "sorted_wrt (\<lambda>m n. ctime n \<le> ctime m) ?m" by (rule sorted_wrt_filter)
  ultimately show ?thesis
    using run unfolding page_of_def
    by (auto simp: rd_select_def split: if_splits intro!: exI [of _ ?m])
qed

lemma ref_pg_read_laws: "pg_read_laws ref_pg"
  unfolding pg_read_laws_def
proof (intro conjI allI impI)
  fix k d x d'
  assume run: "pg_select_key ref_pg k d = (x, d')"
  then show "pg_rows ref_pg d' = pg_rows ref_pg d"
    by (auto simp: rd_select_key_def split: if_splits)
  show "n \<in> ran (pg_rows ref_pg d)" "idempotency_key n = k" if "x = Inr (Some n)" for n
    using that run find_SomeD [of "\<lambda>n. idempotency_key n = k" "rd_all d" n]
    by (auto simp: rd_select_key_def set_rd_all split: if_splits)
  show "\<not> key_taken (pg_rows ref_pg d) k" if "x = Inr None"
  proof -
    from that run have "find (\<lambda>n. idempotency_key n = k) (rd_all d) = None"
      by (auto simp: rd_select_key_def split: if_splits)
    then have "\<forall>n \<in> ran (rd_table d). idempotency_key n \<noteq> k" by (simp add: find_None_iff set_rd_all)
    then show ?thesis by (auto simp: key_taken_def intro: ranI)
  qed
next
  fix q d x d' ns
  assume "pg_select ref_pg q d = (x, d')" "x = Inr ns"
  then show "page_of (pg_rows ref_pg d) q ns" using rd_select_page by simp
qed (auto simp: rd_select_id_def rd_refresh_def rd_select_def rd_rollback_def
    split: if_splits option.splits)

lemma ref_pg_up_laws: "pg_up_laws ref_pg"
  unfolding pg_up_laws_def
proof (intro allI impI conjI)
  fix d a r x d'
  assume up: "pg_up ref_pg d" and run: "pg_insert ref_pg a d = (x, d')"
  then show "pg_up ref_pg d'"
    by (auto simp: rd_insert_def Let_def split: if_splits option.splits)
  assume "a_recipient a = Some r" "storable (row_of_args 0 0 r a)"
  moreover have "storable (row_of_args i now r a) = storable (row_of_args 0 0 r a)" for i now
    by (simp add: storable_def row_of_args_def)
  ultimately show "if key_taken (pg_rows ref_pg d) (a_idempotency_key a) then x = Inl IntegrityError
    else \<exists>i. x = Inr i"
    using up run by (auto simp: rd_insert_def Let_def rd_key_taken_iff split: if_splits)
qed (auto simp: rd_update_def rd_select_id_def rd_select_key_def rd_refresh_def rd_select_def
    rd_rollback_def split: if_splits option.splits)

lemma ref_pg_laws: "pg_laws ref_pg"
  by (simp add: pg_laws_def ref_pg_write_laws ref_pg_read_laws ref_pg_up_laws)

section \<open>A Redis\<close>

text \<open>A stored sorted set is looked at only if it is one; the commands only write such.\<close>

record ref_redis =
  rr_strings :: "string \<Rightarrow> string option"
  rr_sets :: "string \<Rightarrow> zset"
  rr_up :: bool

definition rr_zset :: "ref_redis \<Rightarrow> string \<Rightarrow> zset" where
  "rr_zset r k = (if zset_wf (rr_sets r k) then rr_sets r k else [])"

definition rr_setnx :: "string \<Rightarrow> string \<Rightarrow> (ref_redis, bool) io" where
  "rr_setnx k v r =
     (if \<not> rr_up r then (Inl ConnectionError, r)
      else if rr_strings r k = None then (Inr True, r\<lparr>rr_strings := (rr_strings r)(k \<mapsto> v)\<rparr>)
      else (Inr False, r))"

definition rr_expire :: "string \<Rightarrow> int \<Rightarrow> (ref_redis, unit) io" where
  "rr_expire k t r = (if \<not> rr_up r then (Inl ConnectionError, r) else (Inr (), r))"

definition rr_zadd_nx :: "string \<Rightarrow> string \<Rightarrow> int \<Rightarrow> (ref_redis, unit) io" where
  "rr_zadd_nx k m sc r =
     (if \<not> rr_up r then (Inl ConnectionError, r)
      else (Inr (), r\<lparr>rr_sets := (rr_sets r)(k := zset_add_nx m sc (rr_zset r k))\<rparr>))"

definition rr_bzpopmin :: "string \<Rightarrow> int \<Rightarrow> (ref_redis, (string \<times> string \<times> int) option) io" where
  "rr_bzpopmin k t r =
     (if \<not> rr_up r then (Inl ConnectionError, r)
      else case rr_zset r k of
        [] \<Rightarrow> (Inr None, r)
      | e # es \<Rightarrow> (Inr (Some (k, e)), r\<lparr>rr_sets := (rr_sets r)(k := es)\<rparr>))"

definition rr_zcard :: "string \<Rightarrow> (ref_redis, int) io" where
  "rr_zcard k r =
     (if \<not> rr_up r then (Inl ConnectionError, r) else (Inr (int (length (rr_zset r k))), r))"

definition rr_zrem :: "string \<Rightarrow> string \<Rightarrow> (ref_redis, unit) io" where
  "rr_zrem k m r =
     (if \<not> rr_up r then (Inl ConnectionError, r)
      else (Inr (), r\<lparr>rr_sets := (rr_sets r)(k := zset_remove m (rr_zset r k))\<rparr>))"

definition ref_redis_ops :: "ref_redis redis" where
  "ref_redis_ops =
     \<lparr>r_kv = rr_strings, r_zset = rr_zset, r_up = rr_up, r_setnx = rr_setnx, r_expire = rr_expire,
      r_zadd_nx = rr_zadd_nx, r_bzpopmin = rr_bzpopmin, r_zcard = rr_zcard, r_zrem = rr_zrem\<rparr>"

lemma ref_redis_simps [simp]:
  "r_kv ref_redis_ops = rr_strings" "r_zset ref_redis_ops = rr_zset" "r_up ref_redis_ops = rr_up"
  "r_setnx ref_redis_ops = rr_setnx" "r_expire ref_redis_ops = rr_expire"
  "r_zadd_nx ref_redis_ops = rr_zadd_nx" "r_bzpopmin ref_redis_ops = rr_bzpopmin"
  "r_zcard ref_redis_ops = rr_zcard" "r_zrem ref_redis_ops = rr_zrem"
  by (simp_all add: ref_redis_ops_def)

lemma zset_wf_Nil [simp]: "zset_wf []"
  by (simp add: zset_wf_def)

lemma rr_zset_wf [simp]: "zset_wf (rr_zset r k)"
  by (simp add: rr_zset_def)

lemma rr_zset_upd:
  "zset_wf z \<Longrightarrow> rr_zset (r\<lparr>rr_sets := (rr_sets r)(k := z)\<rparr>) = (rr_zset r)(k := z)"
  by (auto simp: rr_zset_def fun_eq_iff)

lemma rr_zset_strings [simp]: "rr_zset (r\<lparr>rr_strings := kv\<rparr>) = rr_zset r"
  by (simp add: rr_zset_def fun_eq_iff)

lemma ref_redis_string_laws: "redis_string_laws ref_redis_ops"
  unfolding redis_string_laws_def
  by (auto simp: rr_setnx_def rr_expire_def Let_def split: if_splits sum.splits)

lemma ref_zadd:
  "rr_zadd_nx k m sc r = (x, r') \<Longrightarrow> rr_strings r' = rr_strings r \<and>
   (let new = (rr_zset r)(k := zset_add_nx m sc (rr_zset r k)) in
    case x of Inr _ \<Rightarrow> rr_zset r' = new | Inl _ \<Rightarrow> rr_zset r' = rr_zset r \<or> rr_zset r' = new)"
  by (auto simp: rr_zadd_nx_def Let_def rr_zset_upd split: if_splits)

lemma ref_bzpopmin:
  "rr_bzpopmin k t r = (x, r') \<Longrightarrow> rr_strings r' = rr_strings r \<and>
   (let new = (rr_zset r)(k := tl (rr_zset r k)) in
    case x of
      Inr None \<Rightarrow> rr_zset r k = [] \<and> rr_zset r' = rr_zset r
    | Inr (Some e) \<Rightarrow> rr_zset r k \<noteq> [] \<and> e = (k, hd (rr_zset r k)) \<and> rr_zset r' = new
    | Inl _ \<Rightarrow> rr_zset r' = rr_zset r \<or> rr_zset r' = new)"
proof (cases "rr_zset r k")
  case (Cons e es)
  then have "zset_wf es" using rr_zset_wf [of r k] zset_wf_tl by fastforce
  with Cons show "rr_bzpopmin k t r = (x, r') \<Longrightarrow> ?thesis"
    by (auto simp: rr_bzpopmin_def Let_def rr_zset_upd split: if_splits)
qed (auto simp: rr_bzpopmin_def Let_def split: if_splits)

lemma ref_zrem:
  "rr_zrem k m r = (x, r') \<Longrightarrow> rr_strings r' = rr_strings r \<and>
   (let new = (rr_zset r)(k := zset_remove m (rr_zset r k)) in
    case x of Inr _ \<Rightarrow> rr_zset r' = new | Inl _ \<Rightarrow> rr_zset r' = rr_zset r \<or> rr_zset r' = new)"
  by (auto simp: rr_zrem_def Let_def rr_zset_upd split: if_splits)

lemma ref_redis_zset_laws: "redis_zset_laws ref_redis_ops"
  unfolding redis_zset_laws_def ref_redis_simps
proof (intro conjI allI impI rr_zset_wf)
  fix k r x r'
  assume "rr_zcard k r = (x, r')"
  then show "rr_strings r' = rr_strings r" "rr_zset r' = rr_zset r"
    "\<And>n. x = Inr n \<Longrightarrow> n = int (length (rr_zset r k))"
    by (auto simp: rr_zcard_def split: if_splits)
qed (use ref_zadd ref_bzpopmin ref_zrem in blast)+

lemma ref_redis_up_laws: "redis_up_laws ref_redis_ops"
  unfolding redis_up_laws_def
  by (auto simp: rr_setnx_def rr_expire_def rr_zadd_nx_def rr_bzpopmin_def rr_zcard_def rr_zrem_def
      split: if_splits list.splits)

lemma ref_redis_laws: "redis_laws ref_redis_ops"
  by (simp add: redis_laws_def ref_redis_string_laws ref_redis_zset_laws ref_redis_up_laws)

section \<open>A broker\<close>

text \<open>It numbers its handles, and \<open>is_closed\<close> is a property, as in aio-pika 9.\<close>

record ref_amqp =
  ra_published :: "publication list"
  ra_settled :: "nat \<Rightarrow> settlement option"
  ra_next :: nat
  ra_up :: bool

definition ra_call :: "(ref_amqp, unit) io" where
  "ra_call q = (if ra_up q then (Inr (), q) else (Inl ConnectionError, q))"

definition ra_handle :: "(ref_amqp, nat) io" where
  "ra_handle q =
     (if ra_up q then (Inr (ra_next q), q\<lparr>ra_next := Suc (ra_next q)\<rparr>) else (Inl ConnectionError, q))"

definition ra_publish :: "string \<Rightarrow> string \<Rightarrow> amqp_message \<Rightarrow> (ref_amqp, unit) io" where
  "ra_publish e rk m q =
     (if ra_up q then (Inr (), q\<lparr>ra_published := ra_published q @ [(e, rk, m)]\<rparr>)
      else (Inl ConnectionError, q))"

definition ra_settle :: "nat \<Rightarrow> settlement \<Rightarrow> (ref_amqp, unit) io" where
  "ra_settle t s q =
     (if ra_up q then (Inr (), q\<lparr>ra_settled := (ra_settled q)(t \<mapsto> s)\<rparr>) else (Inl ConnectionError, q))"

definition ref_amqp_ops :: "ref_amqp amqp" where
  "ref_amqp_ops =
     \<lparr>q_published = ra_published, q_settled = ra_settled, q_up = ra_up, q_connect = ra_handle,
      q_open_channel = (\<lambda>_. ra_handle), q_conn_is_closed = (\<lambda>_. io_raise TypeError),
      q_chan_is_closed = (\<lambda>_. io_raise TypeError), q_set_qos = (\<lambda>_ _. ra_call),
      q_declare_exchange = (\<lambda>_ _ _. ra_call), q_declare_queue = (\<lambda>_ _ _. ra_call),
      q_bind = (\<lambda>_ _ _ _. ra_call), q_consume = (\<lambda>_ _. ra_call),
      q_publish = (\<lambda>_. ra_publish), q_close = (\<lambda>_. ra_call),
      q_ack = (\<lambda>t. ra_settle t Acked), q_nack = (\<lambda>t b. ra_settle t (Nacked b))\<rparr>"

lemma ref_amqp_quiet_laws: "amqp_quiet_laws ref_amqp_ops"
  by (auto simp: amqp_quiet_laws_def q_quiet_def ref_amqp_ops_def ra_call_def ra_handle_def
      io_raise_def split: if_splits)

lemma ref_amqp_effect_laws: "amqp_effect_laws ref_amqp_ops"
  by (auto simp: amqp_effect_laws_def ref_amqp_ops_def ra_publish_def ra_settle_def Let_def
      split: if_splits)

lemma ref_amqp_up_laws: "amqp_up_laws ref_amqp_ops"
  by (auto simp: amqp_up_laws_def q_answers_def ref_amqp_ops_def ra_call_def ra_handle_def
      ra_publish_def ra_settle_def io_raise_def split: if_splits)

lemma ref_amqp_laws: "amqp_laws ref_amqp_ops"
  by (simp add: amqp_laws_def ref_amqp_quiet_laws ref_amqp_effect_laws ref_amqp_up_laws)

lemma ref_amqp_property: "is_closed_is_property ref_amqp_ops"
  by (simp add: is_closed_is_property_def ref_amqp_ops_def io_raise_def)

section \<open>All of them\<close>

definition ref_services :: "(ref_db, ref_redis, ref_amqp) services" where
  "ref_services = \<lparr>srv_pg = ref_pg, srv_redis = ref_redis_ops, srv_amqp = ref_amqp_ops\<rparr>"

lemma ref_services_laws: "services_laws ref_services"
  by (simp add: services_laws_def ref_services_def ref_pg_laws ref_redis_laws ref_amqp_laws)

lemma ref_services_simps [simp]:
  "srv_pg ref_services = ref_pg" "srv_redis ref_services = ref_redis_ops"
  "srv_amqp ref_services = ref_amqp_ops"
  by (simp_all add: ref_services_def)

text \<open>An empty system, its clock one millisecond further at each reading, and the mocks.\<close>

type_synonym ref_world = "(ref_db, ref_redis, ref_amqp, mock_state) world"

definition ref_host :: host where
  "ref_host =
     \<lparr>h_clock = (\<lambda>k. 1700000000000000 + 1000 * int (min k 1000000)), h_random = (\<lambda>_. 2 ^ 52),
      h_uuid = (\<lambda>_. ''0000abcd''), h_iso = str_of_int, h_tick = 0\<rparr>"

definition ref_init :: ref_world where
  "ref_init =
     \<lparr>w_db = \<lparr>rd_rows = [], rd_now = 1700000000000, rd_up = True\<rparr>,
      w_svc = \<lparr>svc_redis = \<lparr>rr_strings = (\<lambda>_. None), rr_sets = (\<lambda>_. []), rr_up = True\<rparr>,
        svc_amqp = \<lparr>ra_published = [], ra_settled = (\<lambda>_. None), ra_next = 1, ra_up = True\<rparr>,
        rmq_connection = None, rmq_channel = None, svc_host = ref_host\<rparr>,
      w_prov = \<lparr>mk_healthy = (\<lambda>_. True), mk_host = ref_host, mk_sent = []\<rparr>\<rparr>"

lemma ref_init_ok [simp]:
  "clock_ok ref_init" "queue_ok ref_services ref_init" "db_up ref_services ref_init"
  "redis_up ref_services ref_init" "amqp_up ref_services ref_init"
  "w_rows ref_services ref_init = (\<lambda>_. None)" "w_entries ref_services ref_init = []"
proof -
  show clock: "clock_ok ref_init"
    by (auto simp: clock_ok_def ref_init_def ref_host_def min_def)
  show "queue_ok ref_services ref_init" "w_entries ref_services ref_init = []"
    using clock by (simp_all add: queue_ok_def queue_ids_ok_def queue_entries_def ref_init_def rr_zset_def)
  show "db_up ref_services ref_init" "redis_up ref_services ref_init" "amqp_up ref_services ref_init"
    by (simp_all add: db_up_def redis_up_def amqp_up_def ref_init_def ref_amqp_ops_def)
  show "w_rows ref_services ref_init = (\<lambda>_. None)"
    by (simp add: ref_init_def rd_table_def fun_eq_iff)
qed

text \<open>The same, in the form the reference services simplify to.\<close>

lemma ref_init_plain [simp]:
  "rd_table (w_db ref_init) = (\<lambda>_. None)" "queue_entries ref_redis_ops (w_svc ref_init) = []"
  "rr_strings (svc_redis (w_svc ref_init)) = (\<lambda>_. None)"
  "ra_published (svc_amqp (w_svc ref_init)) = []"
  using ref_init_ok by (simp_all add: ref_init_def)

end
