(* ===== verification/Sample_Data.thy ===== *)
theory Sample_Data
  imports Reference_Services Notification_System
begin

text \<open>
  Concrete requests, rows and states for the instances of the properties: an OTP request, the row it
  gives rise to, and the reference services with such a row or with ids in the queue.
\<close>

definition sample_request :: notification_create where
  "sample_request =
     \<lparr>req_idempotency_key = ''k1'', req_source_service = ''Payment'',
      req_event_type = ''PAYMENT_OTP_REQUESTED'', req_priority = ''critical'',
      req_recipient = \<lparr>email = None, phone = Some ''+4912'', device_token = None\<rparr>,
      req_content = [(''sms'', JObj [(''body'', JStr ''1234'')])]\<rparr>"

definition sample_payload :: notification_create where
  "sample_payload = lowered sample_request"

lemma sample_payload_fields [simp]:
  "req_idempotency_key sample_payload = ''k1''"
  "req_source_service sample_payload = ''payment''"
  "req_event_type sample_payload = ''payment_otp_requested''"
  "req_priority sample_payload = ''critical''"
  "req_recipient sample_payload = \<lparr>email = None, phone = Some ''+4912'', device_token = None\<rparr>"
  "req_content sample_payload = [(''sms'', JObj [(''body'', JStr ''1234'')])]"
  by (code_simp)+

lemma sample_serves: "serves sample_payload SMS"
  by (simp add: serves_def)

lemma sample_validated: "validated sample_payload PAYMENT PAYMENT_OTP_REQUESTED CRITICAL"
proof -
  have "''payment'' = str_lower (source_name PAYMENT)"
    "''payment_otp_requested'' = str_lower (event_name PAYMENT_OTP_REQUESTED)"
    "''critical'' = str_lower (priority_name CRITICAL)" by code_simp+
  then show ?thesis by (simp add: validated_def sample_serves)
qed

lemma sample_init: "notification_create_init sample_request = Inr sample_payload"
proof -
  have "str_lower (req_source_service sample_request) = str_lower (source_name PAYMENT)"
    "str_lower (req_event_type sample_request) = str_lower (event_name PAYMENT_OTP_REQUESTED)"
    "str_lower (req_priority sample_request) = str_lower (priority_name CRITICAL)"
    by code_simp+
  moreover have "\<forall>c \<in> set (event_channels PAYMENT_OTP_REQUESTED). serves sample_request c"
    using sample_serves by (simp add: sample_payload_def)
  ultimately have "acceptable sample_request" unfolding acceptable_def by blast
  then show ?thesis by (simp add: init_Inr_iff sample_payload_def)
qed

lemma sample_fits: "fits sample_payload PAYMENT PAYMENT_OTP_REQUESTED CRITICAL SMS"
  by (simp add: fits_def request_args_def row_of_args_def storable_def varchar_255_def text_ok_def
      channel_idem_key_def)

section \<open>A row\<close>

definition sample_row :: notification where
  "sample_row =
     \<lparr>nid = 1, idempotency_key = ''k1-sms'', source_service = source_value PAYMENT,
      event_type = event_value PAYMENT_OTP_REQUESTED, channel = channel_value SMS,
      recipient = ''+4912'', priority = priority_value CRITICAL, status = status_value PENDING,
      error_code = None, retry_count = 0, next_retry_time = None, external_id = None,
      content = JObj [(''body'', JStr ''1234'')], ctime = 1700000000000, mtime = None, stime = None\<rparr>"

text \<open>The row in a given status, after a number of retries.\<close>

definition row_with :: "notification_status \<Rightarrow> int \<Rightarrow> notification" where
  "row_with st k = sample_row\<lparr>status := status_value st, retry_count := k\<rparr>"

lemma row_with_fields [simp]:
  "nid (row_with st k) = 1" "channel (row_with st k) = channel_value SMS"
  "event_type (row_with st k) = event_value PAYMENT_OTP_REQUESTED"
  "priority (row_with st k) = priority_value CRITICAL" "status (row_with st k) = status_value st"
  "retry_count (row_with st k) = k" "recipient (row_with st k) = ''+4912''"
  "error_code (row_with st k) = None"
  by (simp_all add: row_with_def sample_row_def)

lemma row_with_origin: "row_origin (row_with st k)"
proof -
  have "idempotency_key (row_with st k) = channel_idem_key ''k1'' SMS"
    by (simp add: row_with_def sample_row_def channel_idem_key_def)
  moreover have "source_service (row_with st k) = source_value PAYMENT"
    by (simp add: row_with_def sample_row_def)
  moreover have "SMS \<in> set (event_channels PAYMENT_OTP_REQUESTED)" by simp
  ultimately show ?thesis
    unfolding row_origin_def row_with_fields by blast
qed

lemma row_with_storable: "0 \<le> k \<Longrightarrow> k \<le> 100 \<Longrightarrow> storable (row_with st k)"
  by (simp add: row_with_def sample_row_def storable_def varchar_255_def text_ok_def)

lemma row_with_inv:
  assumes "st = PENDING \<or> st = QUEUED" "0 \<le> k" "k \<le> 100"
  shows "row_inv (row_with st k)"
proof -
  have "row_progress (row_with st k)"
    using assms unfolding row_progress_def
    by (auto simp: status_enum.value_inject row_with_def sample_row_def simp del: status_value.simps)
  then show ?thesis using row_with_origin row_with_storable [OF assms(2,3)] by (simp add: row_inv_def)
qed

section \<open>States\<close>

definition world_with :: "notification \<Rightarrow> ref_world" where
  "world_with n = ref_init\<lparr>w_db := \<lparr>rd_rows = [(nid n, n)], rd_now = 1700000000000, rd_up = True\<rparr>\<rparr>"

lemma world_with_rows [simp]: "w_rows ref_services (world_with n) = [nid n \<mapsto> n]"
  by (simp add: world_with_def rd_table_def)

lemma world_with_table [simp]: "rd_table (w_db (world_with n)) = [nid n \<mapsto> n]"
  by (simp add: world_with_def rd_table_def)

lemma world_with_rest [simp]:
  "w_svc (world_with n) = w_svc ref_init" "w_prov (world_with n) = w_prov ref_init"
  by (simp_all add: world_with_def)

lemma world_with_up [simp]:
  "db_up ref_services (world_with n)" "redis_up ref_services (world_with n)"
  "amqp_up ref_services (world_with n)" "queue_ok ref_services (world_with n)"
  "all_up ref_services (world_with n)"
proof -
  show up: "db_up ref_services (world_with n)" by (simp add: db_up_def world_with_def)
  show "redis_up ref_services (world_with n)" "amqp_up ref_services (world_with n)"
    "queue_ok ref_services (world_with n)"
    using ref_init_ok by (simp_all add: redis_up_def amqp_up_def queue_ok_def clock_ok_def)
  with up show "all_up ref_services (world_with n)" by (simp add: all_up_def)
qed

text \<open>A database that is down.\<close>

definition db_outage :: ref_world where
  "db_outage = ref_init\<lparr>w_db := \<lparr>rd_rows = [], rd_now = 1700000000000, rd_up = False\<rparr>\<rparr>"

text \<open>A queue with two ids.\<close>

definition two_queued :: "(ref_redis, ref_amqp) qsvc" where
  "two_queued = (w_svc ref_init)\<lparr>svc_redis :=
     (svc_redis (w_svc ref_init))\<lparr>rr_sets := (\<lambda>_. [(''7'', 5), (''3'', 9)])\<rparr>\<rparr>"

lemma two_queued_facts:
  "queue_entries ref_redis_ops two_queued = [(7, 5), (3, 9)]"
  "queue_ids_ok ref_redis_ops two_queued" "queue_ready ref_redis_ops two_queued"
  "queue_stamp two_queued 1 = 2700000000000"
proof -
  have z: "rr_zset (svc_redis two_queued) QUEUE_KEY = [(''7'', 5), (''3'', 9)]"
    by (simp add: rr_zset_def two_queued_def zset_wf_def zset_key_def)
  have "int_of_str ''7'' = Some 7" "int_of_str ''3'' = Some 3"
    "''7'' = str_of_int 7" "''3'' = str_of_int 3" by code_simp+
  with z show "queue_entries ref_redis_ops two_queued = [(7, 5), (3, 9)]"
    "queue_ids_ok ref_redis_ops two_queued"
    by (auto simp: queue_entries_def queue_ids_ok_def)
  show "queue_ready ref_redis_ops two_queued" "queue_stamp two_queued 1 = 2700000000000"
    by (simp_all add: queue_ready_def two_queued_def ref_init_def queue_stamp_def queue_score_def ref_host_def)
qed

section \<open>Providers that answer the same each time\<close>

definition const_provider :: "notification_channel \<Rightarrow> bool \<Rightarrow> provider_result \<Rightarrow> mock_state provider" where
  "const_provider c healthy r =
     \<lparr>p_channel = c, p_send = (\<lambda>_ _. io_return r), p_health_check = io_return healthy\<rparr>"

lemma const_provider_ok:
  assumes "pr_success r \<Longrightarrow> pr_external_id r \<noteq> None"
    and "\<not> pr_success r \<Longrightarrow> \<exists>e. pr_error_code r = Some (error_value e)"
  shows "provider_ok (const_provider c healthy r)"
  unfolding provider_ok_def
  by unfold_locales (use assms in \<open>auto simp: const_provider_def io_return_def\<close>)

lemma const_provider_answers:
  assumes "\<And>x. pr_external_id r = Some x \<Longrightarrow> varchar_255 x"
  shows "provider_answers (const_provider c healthy r) n s healthy r s"
  using assms by (simp add: provider_answers_def const_provider_def io_return_def)

section \<open>A reachable state with a row\<close>

lemma ref_no_keys: "w_kv ref_services ref_init k = None"
  by (simp add: ref_init_def)

lemma sample_posted:
  obtains n w where "reachable ref_services main_providers w" "w_rows ref_services w (nid n) = Some n"
    "post_notification ref_services (notification_create_init sample_request) ref_init =
       (Inr \<lparr>http_status = 201, http_body = Created \<lparr>cr_idempotency_key = ''k1'',
          cr_event_type = ''payment_otp_requested'', cr_notifications = [channel_status_convert n]\<rparr>\<rparr>, w)"
    "idempotency_key n = channel_idem_key ''k1'' SMS" "all_up ref_services w"
    "content n = JObj [(''body'', JStr ''1234'')]"
proof -
  have up: "all_up ref_services ref_init" by (simp add: all_up_def)
  have "\<forall>c \<in> set (event_channels PAYMENT_OTP_REQUESTED).
      fits sample_payload PAYMENT PAYMENT_OTP_REQUESTED CRITICAL c \<and>
      \<not> key_taken (w_rows ref_services ref_init) (channel_idem_key (req_idempotency_key sample_payload) c)"
    using sample_fits by (simp add: key_taken_def)
  from create_notification_up [OF ref_services_laws sample_validated up ref_no_keys this]
  obtain ns w where run: "create_notification ref_services sample_payload ref_init = (Inr (ns, False), w)"
    and up_w: "all_up ref_services w"
    and all: "created_all ref_services sample_payload PAYMENT PAYMENT_OTP_REQUESTED CRITICAL
      (event_channels PAYMENT_OTP_REQUESTED) ref_init ns w" .
  from all obtain n where n: "ns = [n]" "w_rows ref_services w (nid n) = Some n"
    and c: "created_row sample_payload PAYMENT PAYMENT_OTP_REQUESTED CRITICAL SMS n"
    by (auto simp: created_all_def stored_and_queued_def list_all2_Cons1)
  from c have key: "idempotency_key n = channel_idem_key ''k1'' SMS"
    by (simp add: created_row_key)
  have "str_lower ''SMS'' = ''sms''" by code_simp
  with c have body: "content n = JObj [(''body'', JStr ''1234'')]"
    by (auto simp: created_row_def request_args_def channel_key_def)
  from run n(1) have post: "post_notification ref_services (notification_create_init sample_request) ref_init =
       (Inr \<lparr>http_status = 201, http_body = Created \<lparr>cr_idempotency_key = ''k1'',
          cr_event_type = ''payment_otp_requested'', cr_notifications = [channel_status_convert n]\<rparr>\<rparr>, w)"
    by (simp add: sample_init post_notification_def with_handlers_def io_try_def io_bind_def io_return_def)
  have "reachable ref_services main_providers ref_init" by (rule reachable.initial) simp
  from reachable.step [OF this system_step.request [OF post]] n(2) post key up_w body
  show thesis by (rule that)
qed

section \<open>Instances of providers\<close>

definition ok_result :: provider_result where
  "ok_result = sent_result ''ext-1''"

definition sms_only :: "mock_state provider \<Rightarrow> notification_channel \<Rightarrow> mock_state provider option" where
  "sms_only p c = (if c = SMS then Some p else None)"

lemma sms_only_simps [simp]: "sms_only p SMS = Some p" "sms_only p EMAIL = None" "sms_only p PUSH = None"
  by (simp_all add: sms_only_def)

lemma sms_only_ok: "provider_ok p \<Longrightarrow> providers_ok (sms_only p)"
  by (simp add: providers_ok_def sms_only_def)

definition good_provider :: "mock_state provider" where
  "good_provider = const_provider SMS True ok_result"

definition down_provider :: "mock_state provider" where
  "down_provider = const_provider SMS False (failed_result PROVIDER_DOWN)"

lemma const_providers_ok: "provider_ok good_provider" "provider_ok down_provider"
  unfolding good_provider_def down_provider_def
  by (rule const_provider_ok; auto simp: ok_result_def sent_result_def failed_result_def simp del: error_value.simps)+

lemma const_providers_answer:
  "provider_answers good_provider n s True ok_result s"
  "provider_answers down_provider n s False (failed_result PROVIDER_DOWN) s"
  unfolding good_provider_def down_provider_def
  by (rule const_provider_answers; simp add: ok_result_def sent_result_def failed_result_def
      varchar_255_def text_ok_def)+

text \<open>The SMS mock of main.py in the initial state, whose random number is one half.\<close>

definition sms_after_send :: mock_state where
  "sms_after_send =
     (w_prov ref_init)\<lparr>mk_host := ref_host\<lparr>h_tick := 2\<rparr>, mk_sent := [(SMS, ''+4912'', ''mock-sms-0000abcd'')]\<rparr>"

lemma sms_mock_answers:
  "provider_answers (mock_sms_provider (1 / 10)) (row_with st k) (w_prov ref_init) True
     (sent_result ''mock-sms-0000abcd'') sms_after_send"
proof -
  have "(h_random ref_host 0 mod 2 ^ 53) = 2 ^ 52" by (simp add: ref_host_def)
  then have u: "real (h_random ref_host 0 mod 2 ^ 53) / 2 ^ 53 = 1 / 2" by simp
  show ?thesis
    unfolding provider_answers_def mock_sms_provider_def sms_after_send_def
    by (simp add: sms_send_def mock_health_check_def mock_run_defs ref_init_def u [simplified]
        sent_result_def varchar_255_def text_ok_def ref_host_def)
qed

text \<open>One pending row and its entry in the queue.\<close>

definition one_queued :: ref_world where
  "one_queued = (world_with (row_with PENDING 0))\<lparr>w_svc := (w_svc ref_init)\<lparr>svc_redis :=
     (svc_redis (w_svc ref_init))\<lparr>rr_sets := (\<lambda>_. [(''1'', 5)])\<rparr>\<rparr>\<rparr>"

lemma one_queued_facts:
  "w_entries ref_services one_queued = (1, 5) # []" "all_up ref_services one_queued"
  "w_rows ref_services one_queued 1 = Some (row_with PENDING 0)"
proof -
  have "''1'' = str_of_int 1" "int_of_str ''1'' = Some 1" by code_simp+
  moreover have "rr_zset (svc_redis (w_svc one_queued)) k = [(''1'', 5)]" for k
    by (simp add: rr_zset_def one_queued_def zset_wf_def)
  ultimately show "w_entries ref_services one_queued = (1, 5) # []"
    and "all_up ref_services one_queued"
    using ref_init_ok(1) world_with_up(1) [of "row_with PENDING 0"]
    by (auto simp: queue_entries_def queue_ids_ok_def all_up_def queue_ok_def clock_ok_def db_up_def redis_up_def
        one_queued_def ref_init_def)
  show "w_rows ref_services one_queued 1 = Some (row_with PENDING 0)" by (simp add: one_queued_def)
qed

end
