(* ===== verification/Queue_Properties.thy ===== *)
theory Queue_Properties
  imports Sample_Data
begin

text \<open>
  Properties of requests, labels, the priority queue, the retry policy, the publisher of retries and
  the mock providers, each with an instance.
\<close>

section \<open>Requests and labels\<close>

text \<open>C36. Validation of a request, as one equation: it is accepted exactly if its three labels
  are members' names in any case and every channel of its event type has a non-empty recipient and a
  content; then the labels come out in lower case, and everything else raises a ValueError.\<close>

theorem request_validation:
  "notification_create_init p = (if acceptable p then Inr (lowered p) else Inl ValueError)"
proof (cases "notification_create_init p")
  case (Inl e)
  moreover from Inl have "\<not> acceptable p" using init_Inr_iff [of p "lowered p"] by simp
  ultimately show ?thesis using init_Inl by simp
next
  case (Inr q)
  with init_Inr_iff show ?thesis by simp
qed

text \<open>The labels of an accepted request survive the way through the integer columns: the three
  conversions to integers succeed, and int_to_label gives the request's labels back.\<close>

theorem labels_roundtrip:
  assumes "notification_create_init p = Inr q"
  shows "\<exists>s v k. source_service_as_int q = Inr s \<and> event_type_as_int q = Inr v \<and> priority_as_int q = Inr k \<and>
    int_to_label source_members source_name source_value s = req_source_service q \<and>
    int_to_label event_members event_name event_value v = req_event_type q \<and>
    int_to_label priority_members priority_name priority_value k = req_priority q"
proof -
  from init_validated [OF assms] obtain src ev prio where v: "validated q src ev prio" by blast
  then have "req_source_service q = str_lower (source_name src)"
    "req_event_type q = str_lower (event_name ev)" "req_priority q = str_lower (priority_name prio)"
    by (simp_all add: validated_def)
  with v show ?thesis by simp
qed

theorem labels_roundtrip_witness:
  "\<exists>s v k. source_service_as_int sample_payload = Inr s \<and> event_type_as_int sample_payload = Inr v \<and>
    priority_as_int sample_payload = Inr k \<and>
    int_to_label source_members source_name source_value s = ''payment'' \<and>
    int_to_label event_members event_name event_value v = ''payment_otp_requested'' \<and>
    int_to_label priority_members priority_name priority_value k = ''critical''"
  using labels_roundtrip [OF sample_init] by simp

section \<open>The priority queue\<close>

text \<open>C35. The score orders by priority first and by time second, between times that are less than
  10^12 ms apart; beyond that distance the order of priorities breaks.\<close>

theorem queue_score_order:
  assumes "\<bar>t - u\<bar> < 10 ^ 12"
  shows "queue_score p t < queue_score q u \<longleftrightarrow> p < q \<or> (p = q \<and> t < u)"
  using assms by (rule queue_score_less)

theorem queue_score_order_witness:
  "queue_score 1 1700000000999 < queue_score 2 1700000000000 \<and>
   \<not> queue_score 1 (1700000000000 + 10 ^ 12) < queue_score 2 1700000000000"
  using queue_score_order [of 1700000000999 1700000000000 1 2] by (simp add: queue_score_def)

text \<open>While Redis answers, dequeue hands out a queued id whose score is the least of all queued
  ids, and removes exactly it.\<close>

theorem dequeue_least_score:
  assumes "redis_laws R" "queue_ids_ok R s" "queue_ready R s" "dequeue R s = (Inr (Some i), s')"
  shows "\<exists>sc. (i, sc) \<in> set (queue_entries R s) \<and> (\<forall>(j, sc') \<in> set (queue_entries R s). sc \<le> sc') \<and>
    set (queue_entries R s') = set (queue_entries R s) - {(i, sc)}"
proof -
  from wq.deq_least [OF assms] obtain sc where "(i, sc) \<in> set (queue_entries R s)"
    "\<And>j sc'. (j, sc') \<in> set (queue_entries R s) \<Longrightarrow> sc \<le> sc'"
    "set (queue_entries R s') = set (queue_entries R s) - {(i, sc)}" by blast
  then show ?thesis by auto
qed

theorem dequeue_least_score_witness:
  "\<exists>s'. dequeue ref_redis_ops two_queued = (Inr (Some 7), s') \<and>
     (7, 5) \<in> set (queue_entries ref_redis_ops two_queued) \<and>
     set (queue_entries ref_redis_ops s') = {(3, 9)}"
proof -
  obtain x s' where run: "dequeue ref_redis_ops two_queued = (x, s')"
    by (cases "dequeue ref_redis_ops two_queued")
  from wq.deq_ready [OF ref_redis_laws two_queued_facts(2,3) run] have "x = Inr (Some 7)"
    by (simp add: two_queued_facts)
  with run have "dequeue ref_redis_ops two_queued = (Inr (Some 7), s')" by simp
  with dequeue_least_score [OF ref_redis_laws two_queued_facts(2,3) this] show ?thesis
    by (auto simp: two_queued_facts(1))
qed

text \<open>Draining the queue hands out every queued id exactly once, in the order of the scores.\<close>

theorem drain_in_order:
  assumes "redis_laws R" "queue_ids_ok R s" "queue_ready R s"
  shows "drain (dequeue R) (length (queue_entries R s)) s = map (\<lambda>e. Some (fst e)) (queue_entries R s) \<and>
    sorted (map snd (queue_entries R s)) \<and> distinct (map fst (queue_entries R s))"
  using wq.drain_entries [OF assms] wq.entries_ordered [OF assms(1,2)] by simp

theorem drain_in_order_witness:
  "drain (dequeue ref_redis_ops) 2 two_queued = [Some 7, Some 3]"
  using drain_in_order [OF ref_redis_laws two_queued_facts(2,3)]
  by (simp add: two_queued_facts(1) numeral_2_eq_2 del: drain.simps)

text \<open>Enqueueing an id that is queued already changes neither its score nor anything else in the
  queue, whatever priority it is given and whether or not Redis answers.\<close>

theorem enqueue_keeps_place:
  assumes "redis_laws R" "queue_ids_ok R s" "exact_score (queue_stamp s p)"
    "i \<in> fst ` set (queue_entries R s)" "enqueue R i p s = (x, s')"
  shows "queue_entries R s' = queue_entries R s"
  using wq.enq_idempotent [OF assms] .

theorem enqueue_keeps_place_witness:
  "queue_entries ref_redis_ops (snd (enqueue ref_redis_ops 3 1 two_queued)) = [(7, 5), (3, 9)]"
proof -
  have "exact_score (queue_stamp two_queued 1)" by (simp add: two_queued_facts exact_score_def)
  moreover have "3 \<in> fst ` set (queue_entries ref_redis_ops two_queued)" by (simp add: two_queued_facts)
  moreover obtain x s' where run: "enqueue ref_redis_ops 3 1 two_queued = (x, s')"
    by (cases "enqueue ref_redis_ops 3 1 two_queued")
  ultimately show ?thesis
    using enqueue_keeps_place [OF ref_redis_laws two_queued_facts(2) _ _ run] by (simp add: two_queued_facts(1))
qed

text \<open>What enqueue puts into an empty queue, dequeue gives back: the id survives the decimal text
  of the sorted set's member.\<close>

theorem enqueue_dequeue:
  assumes laws: "redis_laws R" and empty: "r_zset R (svc_redis s) QUEUE_KEY = []" and up: "queue_ready R s"
    and exact: "exact_score (queue_stamp s p)"
    and enq: "enqueue R i p s = (x, s1)" and deq: "dequeue R s1 = (y, s2)"
  shows "x = Inr True \<and> y = Inr (Some i) \<and> queue_entries R s2 = []"
proof -
  have ok: "queue_ids_ok R s" and none: "queue_entries R s = []"
    by (simp_all add: queue_ids_ok_def queue_entries_def empty)
  from wq.enq_ready [OF laws ok up exact enq] none
  have x: "x = Inr True" and up1: "queue_ready R s1" and one: "set (queue_entries R s1) = {(i, queue_stamp s p)}"
    by simp_all
  from wq.enq_effect [OF laws ok exact enq] have ok1: "queue_ids_ok R s1" by simp
  have "distinct (queue_entries R s1)"
    using wq.entries_ordered [OF laws ok1] by (simp add: distinct_map)
  with one have "queue_entries R s1 = [(i, queue_stamp s p)]"
    by (cases "queue_entries R s1"; cases "tl (queue_entries R s1)") auto
  with wq.deq_ready [OF laws ok1 up1 deq] x show ?thesis by simp
qed

theorem enqueue_dequeue_witness:
  "fst (dequeue ref_redis_ops (snd (enqueue ref_redis_ops 42 1 (w_svc ref_init)))) = Inr (Some 42)"
proof -
  obtain x s1 where enq: "enqueue ref_redis_ops 42 1 (w_svc ref_init) = (x, s1)"
    by (cases "enqueue ref_redis_ops 42 1 (w_svc ref_init)")
  obtain y s2 where deq: "dequeue ref_redis_ops s1 = (y, s2)" by (cases "dequeue ref_redis_ops s1")
  have "r_zset ref_redis_ops (svc_redis (w_svc ref_init)) QUEUE_KEY = []" by (simp add: ref_init_def rr_zset_def)
  moreover have "queue_ready ref_redis_ops (w_svc ref_init)" by (simp add: queue_ready_def ref_init_def)
  moreover have "exact_score (queue_stamp (w_svc ref_init) 1)" by (rule clock_exact [OF ref_init_ok(1)]) simp_all
  ultimately show ?thesis using enqueue_dequeue [OF ref_redis_laws _ _ _ enq deq] enq deq by simp
qed

section \<open>The retry policy\<close>

text \<open>The delay of the k-th retry always exists and lies in the window of the k-th retry, which is
  capped by max_delay; without jitter it is the low end. Each window starts where the one before
  ends.\<close>

theorem retry_delay_in_window:
  assumes "1 \<le> k"
  shows "\<exists>d h'. get_retry_delay k (base_delay (retry_config_for ev)) (max_delay (retry_config_for ev))
      (use_jitter (retry_config_for ev)) h = (Inr d, h') \<and>
    window_low (retry_config_for ev) k \<le> d \<and> d \<le> window_high (retry_config_for ev) k \<and>
    d \<le> max_delay (retry_config_for ev) \<and>
    window_low (retry_config_for ev) (k + 1) = window_high (retry_config_for ev) k \<and>
    (ev = PAYMENT_OTP_REQUESTED \<longrightarrow> d = window_low (retry_config_for ev) k)"
proof -
  have "0 \<le> base_delay (retry_config_for ev)" by simp
  from get_retry_delay_window [OF assms this, of h] obtain d h' where
    run: "get_retry_delay k (base_delay (retry_config_for ev)) (max_delay (retry_config_for ev))
      (use_jitter (retry_config_for ev)) h = (Inr d, h')"
    and d: "window_low (retry_config_for ev) k \<le> d" "d \<le> window_high (retry_config_for ev) k"
      "\<not> use_jitter (retry_config_for ev) \<Longrightarrow> d = window_low (retry_config_for ev) k" by blast
  have "d \<le> max_delay (retry_config_for ev)"
    using d(2) window_le_max(2) [of "retry_config_for ev" k] by linarith
  moreover have "\<not> use_jitter (retry_config_for ev)" if "ev = PAYMENT_OTP_REQUESTED" using that by simp
  ultimately show ?thesis using run d window_next [OF assms] by blast
qed

theorem retry_delay_in_window_witness:
  "\<exists>d h'. get_retry_delay 3 15 3600 True ref_host = (Inr d, h') \<and> 60 \<le> d \<and> d \<le> 120"
proof -
  obtain d h' where "get_retry_delay 3 15 3600 True ref_host = (Inr d, h')"
    "window_low (retry_config_for ORDER_CREATED) 3 \<le> d" "d \<le> window_high (retry_config_for ORDER_CREATED) 3"
    using retry_delay_in_window [of 3 ORDER_CREATED ref_host] by auto
  then show ?thesis by (auto simp: window_low_def window_high_def)
qed

text \<open>An OTP is retried after exactly 5, 10 and 20 seconds, for every state of the host's random
  numbers.\<close>

theorem otp_delays:
  "map (\<lambda>k. fst (get_retry_delay k (base_delay (retry_config_for PAYMENT_OTP_REQUESTED))
     (max_delay (retry_config_for PAYMENT_OTP_REQUESTED))
     (use_jitter (retry_config_for PAYMENT_OTP_REQUESTED)) h)) [1, 2, 3] = [Inr 5, Inr 10, Inr 20]"
  by (simp add: get_retry_delay_def io_return_run Let_def numeral_2_eq_2 numeral_3_eq_3)

text \<open>The windows of two consecutive retries are not disjoint: the first and the second retry of a
  bulk event can both be delayed by 30 seconds.\<close>

theorem windows_share_an_end:
  "\<exists>h h'. fst (get_retry_delay 1 (base_delay (retry_config_for ORDER_CREATED))
       (max_delay (retry_config_for ORDER_CREATED)) (use_jitter (retry_config_for ORDER_CREATED)) h) = Inr 30 \<and>
     fst (get_retry_delay 2 (base_delay (retry_config_for ORDER_CREATED))
       (max_delay (retry_config_for ORDER_CREATED)) (use_jitter (retry_config_for ORDER_CREATED)) h') = Inr 30"
  by (rule exI [of _ "ref_host\<lparr>h_random := (\<lambda>_. 15)\<rparr>"], rule exI [of _ "ref_host\<lparr>h_random := (\<lambda>_. 0)\<rparr>"])
    (simp add: get_retry_delay_def host_randint_def Let_def)

section \<open>Publishing retries\<close>

text \<open>publish_retry never raises and says whether it published. When it says True, exactly one
  message was added: the id in decimal, persistent, with the delay as its expiration, to the retry queue
  through the default exchange; otherwise at most this message. It touches neither Redis nor the
  clock.\<close>

theorem publish_retry_message:
  assumes laws: "amqp_laws A" and run: "publish_retry A i d s = (x, s')"
  shows "\<exists>b. x = Inr b \<and>
    svc_published A s' \<in> {svc_published A s, svc_published A s @ [('''', RETRY_QUEUE, retry_message i d)]} \<and>
    (b \<longrightarrow> svc_published A s' = svc_published A s @ [('''', RETRY_QUEUE, retry_message i d)]) \<and>
    m_body (retry_message i d) = Body_text (str_of_int i) \<and> m_expiration (retry_message i d) = Some d \<and>
    svc_redis s' = svc_redis s \<and> svc_host s' = svc_host s"
proof -
  from publish_retry_effect [OF laws run] obtain b where "x = Inr b"
    "b \<Longrightarrow> svc_published A s' = svc_published A s @ [('''', RETRY_QUEUE, retry_message i d)]"
    "svc_published A s' = svc_published A s \<or>
     svc_published A s' = svc_published A s @ [('''', RETRY_QUEUE, retry_message i d)]" by blast
  moreover have "amqp_only s s'" by (rule evolvesD [OF publish_retry_amqp_only run])
  ultimately show ?thesis by (auto simp: amqp_only_def retry_message_def)
qed

theorem publish_retry_message_witness:
  "svc_published ref_amqp_ops (snd (publish_retry ref_amqp_ops 7 15 (w_svc ref_init))) =
     [('''', ''notification.retry'', retry_message 7 15)]"
proof -
  have up: "q_up ref_amqp_ops (svc_amqp (w_svc ref_init))" "rmq_connection (w_svc ref_init) = None"
    by (simp_all add: ref_init_def ref_amqp_ops_def)
  obtain s' where run: "publish_retry ref_amqp_ops 7 15 (w_svc ref_init) = (Inr True, s')"
    by (rule publish_retry_fresh [OF ref_amqp_laws up])
  have "svc_published ref_amqp_ops (w_svc ref_init) = []" by (simp add: ref_init_def ref_amqp_ops_def)
  with publish_retry_message [OF ref_amqp_laws run] run show ?thesis by (auto simp: RETRY_QUEUE_def)
qed

text \<open>Where is_closed is a property, as it is in the version of aio-pika the code pins, a cached
  connection makes publish_retry fail: it publishes nothing and drops the connection without
  closing it. Right after a successful call the next one fails.\<close>

theorem publish_retry_fails_on_cached_connection:
  assumes laws: "amqp_laws A" and isprop: "is_closed_is_property A"
    and up: "q_up A (svc_amqp s)" and none: "rmq_connection s = None"
  shows "\<exists>s1 s2. publish_retry A i d s = (Inr True, s1) \<and> publish_retry A j e s1 = (Inr False, s2) \<and>
    svc_published A s2 = svc_published A s @ [('''', RETRY_QUEUE, retry_message i d)] \<and>
    rmq_connection s2 = None"
proof -
  obtain s1 where run: "publish_retry A i d s = (Inr True, s1)" and "rmq_connection s1 \<noteq> None"
    using publish_retry_fresh [OF laws up none, of i d] by metis
  then obtain c where "rmq_connection s1 = Some c" by blast
  note second = publish_retry_cached [OF isprop this, of j e]
  from publish_retry_effect [OF laws run] have
    "svc_published A s1 = svc_published A s @ [('''', RETRY_QUEUE, retry_message i d)]" by auto
  with run second show ?thesis by simp
qed

theorem publish_retry_fails_on_cached_connection_witness:
  "\<exists>s1 s2. publish_retry ref_amqp_ops 7 15 (w_svc ref_init) = (Inr True, s1) \<and>
     publish_retry ref_amqp_ops 8 15 s1 = (Inr False, s2)"
proof -
  have up: "q_up ref_amqp_ops (svc_amqp (w_svc ref_init))" "rmq_connection (w_svc ref_init) = None"
    by (simp_all add: ref_init_def ref_amqp_ops_def)
  from publish_retry_fails_on_cached_connection [OF ref_amqp_laws ref_amqp_property up]
  show ?thesis by blast
qed

section \<open>The mock providers\<close>

text \<open>Every mock of main.py answers a send: either it fails with an error code and logs nothing, or
  it was healthy, succeeds and logs exactly one message under its own channel. A mock that is down
  reports the provider down.\<close>

theorem mock_providers_answer:
  "\<exists>p r s'. main_providers c = Some p \<and> p_channel p = c \<and> provider_ok p \<and>
     p_send p rcpt body s = (Inr r, s') \<and> mock_outcome c rcpt s r s' \<and>
     (\<not> mk_healthy s c \<longrightarrow> r = failed_result PROVIDER_DOWN \<and> s' = s \<and> p_health_check p s = (Inr False, s))"
proof -
  obtain p where p: "main_providers c = Some p" by (cases c) simp_all
  from main_providers_ok [OF p] have ok: "provider_ok p" "p_channel p = c" by simp_all
  have "\<exists>r s'. p_send p rcpt body s = (Inr r, s') \<and> mock_outcome c rcpt s r s'"
    using p email_send_outcome sms_send_outcome push_send_outcome
    by (cases c) (auto simp: mock_email_provider_def mock_sms_provider_def mock_push_provider_def)
  with p ok mock_down(1) [OF _ p, of s] mock_down(2) [OF _ p, of s rcpt body] show ?thesis by (cases "mk_healthy s c") auto
qed

theorem mock_providers_answer_witness:
  "\<exists>p. main_providers SMS = Some p \<and>
     fst (p_send p ''+4912'' (JObj []) ((w_prov ref_init)\<lparr>mk_healthy := (\<lambda>_. False)\<rparr>)) =
       Inr (failed_result PROVIDER_DOWN)"
  using mock_providers_answer [of SMS "''+4912''" "JObj []" "(w_prov ref_init)\<lparr>mk_healthy := (\<lambda>_. False)\<rparr>"]
  by auto

end
