(* ===== verification/Creation_Properties.thy ===== *)
theory Creation_Properties
  imports Sample_Data
begin

text \<open>
  Properties of the creation of notifications, of the manual retry and of the listing
  (\<open>Manager\<close>), each with an instance.
\<close>

section \<open>Creation\<close>

text \<open>C10. While PostgreSQL and Redis answer, a valid request under a new key creates exactly one row per
  channel of its event type, in the order of the map, each pending and with the request's recipient,
  content and priority; all of them are committed and queued, no row that was there is lost or
  changed, and the key is taken.\<close>

theorem create_one_row_per_channel:
  assumes "services_laws S" "validated p src ev prio" "all_up S w"
    and "w_kv S w (redis_idem_key (req_idempotency_key p)) = None"
    and "\<forall>c \<in> set (event_channels ev). fits p src ev prio c \<and>
      \<not> key_taken (w_rows S w) (channel_idem_key (req_idempotency_key p) c)"
  shows "\<exists>ns w'. create_notification S p w = (Inr (ns, False), w') \<and>
    list_all2 (created_row p src ev prio) (event_channels ev) ns \<and>
    (\<forall>n \<in> set ns. stored_and_queued S w' n) \<and> distinct (map nid ns) \<and>
    w_rows S w \<subseteq>\<^sub>m w_rows S w' \<and> dom (w_rows S w') = dom (w_rows S w) \<union> nid ` set ns \<and>
    nid ` set ns \<inter> dom (w_rows S w) = {} \<and>
    w_kv S w' (redis_idem_key (req_idempotency_key p)) \<noteq> None"
proof -
  obtain ns w' where "create_notification S p w = (Inr (ns, False), w')"
    "created_all S p src ev prio (event_channels ev) w ns w'" "w_rows S w \<subseteq>\<^sub>m w_rows S w'"
    "w_kv S w' (redis_idem_key (req_idempotency_key p)) = Some ''1''"
    by (rule create_notification_up [OF assms])
  then show ?thesis unfolding created_all_def by (intro exI [of _ ns] exI [of _ w']) simp
qed

theorem create_one_row_per_channel_witness:
  "\<exists>n w'. create_notification ref_services sample_payload ref_init = (Inr ([n], False), w') \<and>
     created_row sample_payload PAYMENT PAYMENT_OTP_REQUESTED CRITICAL SMS n \<and>
     dom (w_rows ref_services w') = {nid n}"
proof -
  have "all_up ref_services ref_init" by (simp add: all_up_def)
  moreover have "\<forall>c \<in> set (event_channels PAYMENT_OTP_REQUESTED).
      fits sample_payload PAYMENT PAYMENT_OTP_REQUESTED CRITICAL c \<and>
      \<not> key_taken (w_rows ref_services ref_init) (channel_idem_key (req_idempotency_key sample_payload) c)"
    using sample_fits by (simp add: key_taken_def)
  ultimately show ?thesis
    using create_one_row_per_channel [OF ref_services_laws sample_validated _ ref_no_keys]
    by (auto simp: list_all2_Cons1)
qed

text \<open>A request whose key is taken is answered as a duplicate: no row, no entry of the queue and no
  key changes, and the database is not even asked.\<close>

theorem duplicate_changes_nothing:
  assumes "services_laws S" "redis_up S w" "w_kv S w (redis_idem_key (req_idempotency_key p)) \<noteq> None"
  shows "\<exists>w'. create_notification S p w = (Inr ([], True), w') \<and> w_db w' = w_db w \<and>
    w_entries S w' = w_entries S w \<and> w_kv S w' = w_kv S w \<and> w_prov w' = w_prov w \<and>
    w_published S w' = w_published S w"
proof -
  obtain w' where "create_notification S p w = (Inr ([], True), w')" "client_frame S w w'"
    "w_kv S w' = w_kv S w" by (rule create_notification_duplicate [OF assms])
  then show ?thesis by (auto simp: client_frame_def)
qed

definition key_in_use :: ref_world where
  "key_in_use = ref_init\<lparr>w_svc := (w_svc ref_init)\<lparr>svc_redis :=
     (svc_redis (w_svc ref_init))\<lparr>rr_strings := [''idem:k1'' \<mapsto> ''1'']\<rparr>\<rparr>\<rparr>"

theorem duplicate_changes_nothing_witness:
  "\<exists>w'. create_notification ref_services sample_payload key_in_use = (Inr ([], True), w') \<and>
     w_db w' = w_db key_in_use"
proof -
  have "redis_up ref_services key_in_use"
    "w_kv ref_services key_in_use (redis_idem_key (req_idempotency_key sample_payload)) \<noteq> None"
    by (simp_all add: key_in_use_def redis_up_def ref_init_def redis_idem_key_def)
  from duplicate_changes_nothing [OF ref_services_laws this] show ?thesis by blast
qed

text \<open>Once the key has expired in Redis, a request whose rows are all in the table is answered as a
  success that created nothing: the unique keys of the rows keep a second set from being stored.\<close>

theorem expired_key_creates_nothing:
  assumes "services_laws S" "validated p src ev prio" "db_up S w" "redis_up S w"
    and "w_kv S w (redis_idem_key (req_idempotency_key p)) = None"
    and "\<forall>c \<in> set (event_channels ev). fits p src ev prio c \<and>
      key_taken (w_rows S w) (channel_idem_key (req_idempotency_key p) c)"
  shows "\<exists>w'. create_notification S p w = (Inr ([], False), w') \<and> w_rows S w' = w_rows S w \<and>
    w_entries S w' = w_entries S w"
  using create_notification_taken [OF assms] by metis

theorem expired_key_creates_nothing_witness:
  "\<exists>w'. create_notification ref_services sample_payload (world_with sample_row) = (Inr ([], False), w') \<and>
     w_rows ref_services w' = [1 \<mapsto> sample_row]"
proof -
  have id: "nid sample_row = 1" "idempotency_key sample_row = ''k1-sms''" by (simp_all add: sample_row_def)
  have "\<forall>c \<in> set (event_channels PAYMENT_OTP_REQUESTED).
      fits sample_payload PAYMENT PAYMENT_OTP_REQUESTED CRITICAL c \<and>
      key_taken (w_rows ref_services (world_with sample_row))
        (channel_idem_key (req_idempotency_key sample_payload) c)"
    using sample_fits id by (simp add: key_taken_def channel_idem_key_def)
  moreover have "w_kv ref_services (world_with sample_row)
      (redis_idem_key (req_idempotency_key sample_payload)) = None" by simp
  ultimately obtain w' where
    "create_notification ref_services sample_payload (world_with sample_row) = (Inr ([], False), w')"
    "w_rows ref_services w' = w_rows ref_services (world_with sample_row)"
    using expired_key_creates_nothing [OF ref_services_laws sample_validated world_with_up(1,2)] by blast
  with id show ?thesis by simp
qed

section \<open>Manual retry\<close>

text \<open>While the services answer, a manual retry of a row that is neither sent nor queued makes it
  pending, counts one retry more without a limit, clears the error, and queues it; only this row
  changes.\<close>

theorem manual_retry_requeues:
  assumes "services_laws S" "all_up S w" "w_rows S w i = Some n" "1 \<le> priority n" "priority n \<le> 4"
    and "status n \<noteq> status_value SENT" "status n \<noteq> status_value QUEUED"
    and "storable (set_attrs [Status (status_value PENDING), Retry_count (retry_count n + 1),
      Error_code None, Next_retry_time None] n)"
  shows "\<exists>m t w'. retry_notification S i w = (Inr (Some m, ''''), w') \<and>
    m = n\<lparr>status := status_value PENDING, retry_count := retry_count n + 1, error_code := None,
      next_retry_time := None, mtime := t\<rparr> \<and>
    w_rows S w' = (w_rows S w)(i \<mapsto> m) \<and> i \<in> fst ` set (w_entries S w')"
proof -
  obtain m t w' where "retry_notification S i w = (Inr (Some m, ''''), w')"
    "m = n\<lparr>status := status_value PENDING, retry_count := retry_count n + 1, error_code := None,
      next_retry_time := None, mtime := t\<rparr>"
    "w_rows S w' = (w_rows S w)(i \<mapsto> m)" "fst ` set (w_entries S w') = insert i (fst ` set (w_entries S w))"
    by (rule retry_notification_accepted [OF assms])
  then show ?thesis by blast
qed

theorem manual_retry_requeues_witness:
  "\<exists>m w'. retry_notification ref_services 1 (world_with (row_with FAILED 5)) = (Inr (Some m, ''''), w') \<and>
     retry_count m = 6 \<and> status m = status_value PENDING \<and> 1 \<in> fst ` set (w_entries ref_services w')"
proof -
  let ?n = "row_with FAILED 5"
  have "storable (set_attrs [Status (status_value PENDING), Retry_count (retry_count ?n + 1),
      Error_code None, Next_retry_time None] ?n)"
    using row_with_storable [of 5 FAILED] by (simp del: set_attr.simps status_value.simps)
  moreover have "w_rows ref_services (world_with ?n) 1 = Some ?n" by simp
  ultimately have "\<exists>m t w'. retry_notification ref_services 1 (world_with ?n) = (Inr (Some m, ''''), w') \<and>
    m = ?n\<lparr>status := status_value PENDING, retry_count := retry_count ?n + 1, error_code := None,
      next_retry_time := None, mtime := t\<rparr> \<and>
    w_rows ref_services w' = (w_rows ref_services (world_with ?n))(1 \<mapsto> m) \<and>
    1 \<in> fst ` set (w_entries ref_services w')"
    by (intro manual_retry_requeues [OF ref_services_laws world_with_up(5)]) simp_all
  then show ?thesis by (elim exE conjE) (intro exI conjI, assumption, simp_all)
qed

text \<open>A manual retry of an id without a row, or of a row that is sent or queued, is refused with a
  message, and neither a row nor the queue changes.\<close>

theorem manual_retry_refused:
  assumes "services_laws S" "db_up S w"
    and "case w_rows S w i of None \<Rightarrow> True
      | Some n \<Rightarrow> status n = status_value SENT \<or> status n = status_value QUEUED"
  shows "\<exists>err w'. retry_notification S i w = (Inr (None, err), w') \<and> err \<noteq> '''' \<and>
    w_rows S w' = w_rows S w \<and> w_svc w' = w_svc w"
proof -
  have "status n = status_value SENT \<or> status n = status_value QUEUED" if "w_rows S w i = Some n" for n
    using assms(3) that by simp
  from retry_notification_refused [OF assms(1,2) this] obtain w' err where
    "retry_notification S i w = (Inr (None, err), w')" "err \<noteq> ''''"
    "w_rows S w' = w_rows S w" "w_svc w' = w_svc w" by blast
  then show ?thesis by blast
qed

theorem manual_retry_refused_witness:
  "\<exists>err w'. retry_notification ref_services 1 (world_with (row_with SENT 0)) = (Inr (None, err), w')"
  using manual_retry_refused [OF ref_services_laws world_with_up(1), of "row_with SENT 0" 1] by auto

section \<open>Listing\<close>

text \<open>A listing whose filters are absent or name members returns a page of the table as it is: at
  most limit rows, each once, latest first, each of which matches every filter; and it changes no
  row.\<close>

theorem list_returns_a_page:
  assumes "services_laws S"
    and "filter_value status_members status_name status_value st = Inr st'"
    and "filter_value channel_members channel_name channel_value ch = Inr ch'"
    and "filter_value source_members source_name source_value src = Inr src'"
    and "filter_value event_members event_name event_value ev = Inr ev'"
    and run: "list_notifications S st ch src ev limit offset w = (Inr ns, w')"
  shows "length ns \<le> nat limit \<and> distinct ns \<and> sorted_wrt (\<lambda>m n. ctime n \<le> ctime m) ns \<and>
    set ns \<subseteq> {n \<in> ran (w_rows S w). (st' = None \<or> st' = Some (status n)) \<and>
      (ch' = None \<or> ch' = Some (channel n)) \<and> (src' = None \<or> src' = Some (source_service n)) \<and>
      (ev' = None \<or> ev' = Some (event_type n))} \<and>
    w_rows S w' = w_rows S w"
proof -
  note page = page_of_bounds [OF list_notifications_page [OF assms]]
  have "w_rows S w' = w_rows S w"
    using evolvesD [OF list_notifications_reads [OF assms(1)] run] by (simp add: same_def)
  with page show ?thesis by (simp add: list_query_where)
qed

theorem list_returns_a_page_witness:
  "\<exists>ns w'. list_notifications ref_services (Some ''sent'') None None None 20 0 (world_with (row_with SENT 0)) =
     (Inr ns, w') \<and> set ns \<subseteq> {row_with SENT 0}"
proof -
  have label: "str_upper ''sent'' = status_name SENT" by code_simp
  have st: "filter_value status_members status_name status_value (Some ''sent'') = Inr (Some (status_value SENT))"
    by (rule status_enum.filter_member [OF _ label]) simp
  obtain ns where run: "list_notifications ref_services (Some ''sent'') None None None 20 0
      (world_with (row_with SENT 0)) = (Inr ns, world_with (row_with SENT 0))"
    unfolding list_notifications_def st
    by (auto simp: on_db_def io_zoom_def repository_list_def rd_select_def list_query_def Let_def
        world_with_def io_return_run)
  from list_returns_a_page [OF ref_services_laws st channel_enum.filter_absent(1)
      source_enum.filter_absent(1) event_enum.filter_absent(1) run] run
  show ?thesis by (auto simp: ran_def split: if_splits)
qed

end
