(* ===== verification/Worker_Liveness.thy ===== *)
theory Worker_Liveness
  imports Worker
begin

text \<open>
  What the workers get done: while Redis answers, each turn takes the first entry of the queue,
  whatever happens to its dispatch; and while the services answer and the providers send, every
  queued notification is sent.
\<close>

section \<open>A dispatch leaves Redis and the clock alone\<close>

definition queue_side :: "('r, 'q) qsvc \<Rightarrow> 'r \<times> (nat \<Rightarrow> int)" where
  "queue_side s = (svc_redis s, h_clock (svc_host s))"

definition world_queue :: "('d, 'r, 'q, 'p) world \<Rightarrow> 'r \<times> (nat \<Rightarrow> int)" where
  "world_queue w = queue_side (w_svc w)"

lemma world_queue_parts:
  "evolves (same world_queue) (on_db m)" "evolves (same world_queue) (on_prov k)"
  by (auto simp: evolves_def same_def world_queue_def on_db_def on_prov_def io_zoom_def split: prod.splits)

lemma world_queue_svc: "evolves (same queue_side) m \<Longrightarrow> evolves (same world_queue) (on_svc m)"
  by (auto simp: evolves_def same_def world_queue_def on_svc_def io_zoom_def split: prod.splits)
    (metis snd_conv)

lemma amqp_only_queue: "evolves amqp_only m \<Longrightarrow> evolves (same queue_side) m"
  by (auto simp: evolves_def amqp_only_def same_def queue_side_def)

lemma queue_side_amqp: "evolves (same queue_side) (on_amqp m)"
  by (rule amqp_only_queue) (rule amqp_only_on_amqp)

lemma queue_side_host: "evolves (same h_clock) m \<Longrightarrow> evolves (same queue_side) (on_host m)"
  by (auto simp: evolves_def same_def queue_side_def on_host_def io_zoom_def split: prod.splits)
    (metis snd_conv)

lemma clock_kept:
  "evolves (same h_clock) host_now" "evolves (same h_clock) host_isoformat"
  "evolves (same h_clock) (get_retry_delay k base mx jitter)"
  by (auto simp: evolves_def same_def host_now_def host_isoformat_def get_retry_delay_def io_bind_def
      io_gets_def io_return_def io_raise_def host_randint_def Let_def split: if_splits)

lemmas queue_frame = queue_side_amqp queue_side_host clock_kept

lemma dlq_publish_queue: "evolves (same queue_side) (dlq_publish S k n code)"
  unfolding dlq_publish_def Let_def
  by (intro unchanged.evolves_bind unchanged.evolves_of queue_frame)

lemma send_to_dlq_queue: "evolves (same world_queue) (send_to_dlq S n code)"
  unfolding send_to_dlq_def
  by (intro world_queue_svc unchanged.evolves_try unchanged.evolves_bind unchanged.evolves_finally
      unchanged.evolves_return queue_frame dlq_publish_queue)

lemma mark_failed_queue: "evolves (same world_queue) (mark_failed S n code)"
  unfolding mark_failed_def
  by (intro unchanged.evolves_bind unchanged.evolves_of unchanged.evolves_return world_queue_parts)

lemma schedule_retry_queue: "evolves (same world_queue) (schedule_retry S n code)"
  unfolding schedule_retry_def Let_def
  by (intro unchanged.evolves_bind unchanged.evolves_of unchanged.evolves_return evolves_if
      world_queue_parts world_queue_svc queue_frame amqp_only_queue publish_retry_amqp_only
      mark_failed_queue send_to_dlq_queue)

lemma mark_sent_queue: "evolves (same world_queue) (mark_sent S n x)"
  unfolding mark_sent_def
  by (intro unchanged.evolves_bind unchanged.evolves_of unchanged.evolves_return
      world_queue_parts world_queue_svc queue_frame)

lemma dispatch_queue: "evolves (same world_queue) (dispatch S providers i)"
  unfolding dispatch_def Let_def
  by (intro unchanged.evolves_bind unchanged.evolves_of unchanged.evolves_return evolves_if
      evolves_case_option world_queue_parts mark_failed_queue mark_sent_queue schedule_retry_queue)

section \<open>The queue shrinks\<close>

definition redis_ready :: "('d, 'r, 'q) services \<Rightarrow> ('d, 'r, 'q, 'p) world \<Rightarrow> bool" where
  "redis_ready S w \<longleftrightarrow> redis_up S w \<and> queue_ids_ok (srv_redis S) (w_svc w)"

lemma redis_ready_same:
  assumes "world_queue w' = world_queue w"
  shows "redis_ready S w' = redis_ready S w" "w_entries S w' = w_entries S w" "clock_ok w' = clock_ok w"
  using assms by (simp_all add: redis_ready_def redis_up_def queue_ids_ok_def queue_entries_def
      world_queue_def queue_side_def clock_ok_def)

lemma turn_dequeues:
  assumes laws: "services_laws S" and ready: "redis_ready S w"
    and deq: "dequeue (srv_redis S) (w_svc w) = (y, s)"
  shows "y = Inr (case w_entries S w of [] \<Rightarrow> None | e # _ \<Rightarrow> Some (fst e))"
    and "redis_ready S (w\<lparr>w_svc := s\<rparr>)" and "w_entries S (w\<lparr>w_svc := s\<rparr>) = tl (w_entries S w)"
proof -
  note R = services_laws_parts(2) [OF laws]
  from ready have ids: "queue_ids_ok (srv_redis S) (w_svc w)" and up: "queue_ready (srv_redis S) (w_svc w)"
    by (simp_all add: redis_ready_def queue_ready_def redis_up_def)
  from wq.deq_ready [OF R ids up deq] wq.deq_effect [OF R ids deq]
  show "y = Inr (case w_entries S w of [] \<Rightarrow> None | e # _ \<Rightarrow> Some (fst e))"
    "redis_ready S (w\<lparr>w_svc := s\<rparr>)" "w_entries S (w\<lparr>w_svc := s\<rparr>) = tl (w_entries S w)"
    by (simp_all add: redis_ready_def queue_ready_def redis_up_def)
qed

lemma dequeue_clock: "dequeue R s = (y, s') \<Longrightarrow> h_clock (svc_host s') = h_clock (svc_host s)"
  by (auto simp: dequeue_def io_bind_def io_try_def io_return_def io_raise_def on_redis_def io_zoom_def io_of_def
      split: prod.splits sum.splits option.splits)

lemma worker_turn_takes_one:
  assumes laws: "services_laws S" and ready: "redis_ready S w" and run: "worker_turn S providers w = (x, w')"
  shows "redis_ready S w' \<and> w_entries S w' = tl (w_entries S w) \<and> clock_ok w' = clock_ok w"
  using run
proof (cases rule: worker_turn_cases)
  case (idle y s)
  then show ?thesis using turn_dequeues [OF laws ready idle(1)] dequeue_clock [OF idle(1)]
    by (simp add: clock_ok_def)
next
  case (dispatched i s y)
  note deq = turn_dequeues [OF laws ready dispatched(1)]
  from evolvesD [OF dispatch_queue dispatched(2)] have "world_queue w' = world_queue (w\<lparr>w_svc := s\<rparr>)"
    by (simp add: same_def)
  from redis_ready_same(1,2) [OF this, of S] redis_ready_same(3) [OF this] deq(2,3) dequeue_clock [OF dispatched(1)] show ?thesis
    by (simp add: clock_ok_def)
qed

lemma turns_take_entries:
  assumes "services_laws S" "redis_ready S w"
  shows "redis_ready S ((after_turn S providers ^^ k) w) \<and>
    w_entries S ((after_turn S providers ^^ k) w) = drop k (w_entries S w)"
proof (induction k)
  case (Suc k)
  let ?w = "(after_turn S providers ^^ k) w"
  have "worker_turn S providers ?w = (fst (worker_turn S providers ?w), after_turn S providers ?w)" by simp
  from worker_turn_takes_one [OF assms(1) conjunct1 [OF Suc] this] Suc show ?case
    by (simp add: drop_Suc tl_drop)
qed (simp add: assms(2))

lemma worker_turns_drop:
  assumes laws: "services_laws S"
  shows "redis_ready S w \<Longrightarrow> worker_loop S providers (replicate k True) w = (x, w') \<Longrightarrow>
    redis_ready S w' \<and> w_entries S w' = drop k (w_entries S w)"
proof (induction k arbitrary: w)
  case 0
  then show ?case by (simp add: io_return_run)
next
  case (Suc k)
  obtain w1 where turn: "worker_turn S providers w = (Inr (), w1)" using worker_turn_returns by blast
  note one = worker_turn_takes_one [OF laws Suc.prems(1) turn]
  from Suc.prems(2) turn have "worker_loop S providers (replicate k True) w1 = (x, w')"
    by (simp add: io_bind_def)
  with Suc.IH [of w1] one show ?case by (simp add: drop_Suc)
qed

section \<open>Every queued notification is sent\<close>

text \<open>A provider that is up and sends, in every state.\<close>

definition always_sends :: "'p provider \<Rightarrow> notification \<Rightarrow> bool" where
  "always_sends provider n \<longleftrightarrow>
     provider_ok provider \<and>
     (\<forall>s. \<exists>r s'. provider_answers provider n s True r s' \<and> pr_success r)"

text \<open>A row the workers can send: its channel has such a provider.\<close>

definition sendable :: "(notification_channel \<Rightarrow> 'p provider option) \<Rightarrow> notification \<Rightarrow> bool" where
  "sendable providers n \<longleftrightarrow>
     row_inv n \<and> (\<exists>c provider. channel n = channel_value c \<and> providers c = Some provider \<and>
       always_sends provider n)"

text \<open>What a successful dispatch makes of a row.\<close>

definition sent_from :: "notification \<Rightarrow> notification \<Rightarrow> bool" where
  "sent_from n m \<longleftrightarrow>
     status m = status_value SENT \<and> nid m = nid n \<and> idempotency_key m = idempotency_key n \<and>
     recipient m = recipient n \<and> channel m = channel n \<and> content m = content n \<and>
     retry_count m = retry_count n \<and> external_id m \<noteq> None \<and> stime m \<noteq> None"

lemma turn_dispatches:
  assumes laws: "services_laws S" and up: "db_up S w" "redis_ready S w"
    and entries: "w_entries S w = (i, sc) # rest"
    and row: "w_rows S w i = Some n" "row_inv n" "nid n = i"
    and prov: "channel n = channel_value c" "providers c = Some provider" "provider_ok provider"
    and ans: "provider_answers provider n (w_prov w) healthy r p'"
  obtains m w' where "worker_turn S providers w = (Inr (), w')" "db_up S w'" "redis_ready S w'"
    "clock_ok w' = clock_ok w" "w_entries S w' = rest" "w_rows S w' = (w_rows S w)(i \<mapsto> m)"
    "decided (decide healthy r (retry_count n)) n m" "w_prov w' = (if healthy then p' else w_prov w)"
proof -
  obtain y s where deq: "dequeue (srv_redis S) (w_svc w) = (y, s)" by (cases "dequeue (srv_redis S) (w_svc w)")
  note d = turn_dequeues [OF laws up(2) deq]
  let ?w = "w\<lparr>w_svc := s\<rparr>"
  have db: "db_up S ?w" "w_rows S ?w i = Some n" "provider_answers provider n (w_prov ?w) healthy r p'"
    using up(1) row(1) ans by (simp_all add: db_up_def)
  obtain w' where run: "dispatch S providers i ?w = (Inr (), w')" and w': "dispatched S ?w n healthy r p' w'"
    by (rule dispatch_up [where providers = providers and c = c, OF laws db(1,2) row(2,3) prov db(3)])
  have turn: "worker_turn S providers w = (Inr (), w')"
    using deq d(1) entries run by (simp add: worker_turn_def io_try_def io_bind_def on_svc_def io_zoom_def)
  from w' row(3) obtain m where "w_rows S w' = (w_rows S w)(i \<mapsto> m)"
    "decided (decide healthy r (retry_count n)) n m" "db_up S w'"
    "w_prov w' = (if healthy then p' else w_prov w)" by (auto simp: dispatched_def)
  with turn worker_turn_takes_one [OF laws up(2) turn] entries show thesis
    by (intro that [of w' m]) simp_all
qed

lemma turn_sends:
  assumes laws: "services_laws S" and up: "db_up S w" "redis_ready S w"
    and entries: "w_entries S w = (i, sc) # rest"
    and row: "w_rows S w i = Some n" "nid n = i" "sendable providers n"
  obtains m w' where "worker_turn S providers w = (Inr (), w')" "db_up S w'" "redis_ready S w'"
    "w_entries S w' = rest" "w_rows S w' = (w_rows S w)(i \<mapsto> m)" "sent_from n m"
proof -
  from row(3) obtain c provider r p' where inv: "row_inv n" and prov: "channel n = channel_value c"
      "providers c = Some provider" "provider_ok provider"
    and ans: "provider_answers provider n (w_prov w) True r p'" "pr_success r"
    unfolding sendable_def always_sends_def by metis
  obtain m w' where turn: "worker_turn S providers w = (Inr (), w')" "db_up S w'" "redis_ready S w'"
    "w_entries S w' = rest" "w_rows S w' = (w_rows S w)(i \<mapsto> m)"
    "decided (decide True r (retry_count n)) n m"
    by (rule turn_dispatches [where providers = providers, OF laws up entries row(1) inv row(2) prov ans(1)])
  have "sent_from n m"
    using turn(6) ans(2) provider_laws(3) [OF prov(3)] ans(1)
    by (fastforce simp: sent_from_def decide_def provider_answers_def)
  with turn(1-5) show thesis by (intro that [of w' m])
qed

lemma turns_send_all:
  assumes laws: "services_laws S"
  shows "db_up S w \<Longrightarrow> redis_ready S w \<Longrightarrow> w_entries S w = es \<Longrightarrow> distinct (map fst es) \<Longrightarrow>
    (\<forall>i \<in> fst ` set es. \<exists>n. w_rows S w i = Some n \<and> nid n = i \<and> sendable providers n) \<Longrightarrow>
    \<exists>w'. worker_loop S providers (replicate (length es) True) w = (Inr (), w') \<and>
      db_up S w' \<and> redis_ready S w' \<and> w_entries S w' = [] \<and>
      (\<forall>i. i \<notin> fst ` set es \<longrightarrow> w_rows S w' i = w_rows S w i) \<and>
      (\<forall>i \<in> fst ` set es. \<exists>n m. w_rows S w i = Some n \<and> w_rows S w' i = Some m \<and> sent_from n m)"
proof (induction es arbitrary: w)
  case Nil
  then show ?case by (simp add: io_return_run)
next
  case (Cons e es)
  obtain i sc where e: "e = (i, sc)" by (cases e)
  with Cons.prems(5) obtain n where n: "w_rows S w i = Some n" "nid n = i" "sendable providers n" by auto
  obtain m w1 where turn: "worker_turn S providers w = (Inr (), w1)" "db_up S w1" "redis_ready S w1"
    "w_entries S w1 = es" "w_rows S w1 = (w_rows S w)(i \<mapsto> m)" "sent_from n m"
    by (rule turn_sends [OF laws Cons.prems(1,2) Cons.prems(3) [unfolded e] n])
  have fresh: "i \<notin> fst ` set es" "distinct (map fst es)" using Cons.prems(4) e by auto
  have "\<forall>j \<in> fst ` set es. \<exists>n. w_rows S w1 j = Some n \<and> nid n = j \<and> sendable providers n"
    using Cons.prems(5) fresh(1) turn(5) by auto
  from Cons.IH [OF turn(2-4) fresh(2) this] obtain w' where
    w': "worker_loop S providers (replicate (length es) True) w1 = (Inr (), w')" "db_up S w'" "redis_ready S w'"
      "w_entries S w' = []" "\<forall>j. j \<notin> fst ` set es \<longrightarrow> w_rows S w' j = w_rows S w1 j"
      "\<forall>j \<in> fst ` set es. \<exists>n m. w_rows S w1 j = Some n \<and> w_rows S w' j = Some m \<and> sent_from n m" by blast
  from turn(1) w'(1) have "worker_loop S providers (replicate (length (e # es)) True) w = (Inr (), w')"
    by (simp add: io_bind_def)
  moreover have "w_rows S w' i = Some m" using w'(5) fresh(1) turn(5) by simp
  moreover have "\<exists>n m. w_rows S w j = Some n \<and> w_rows S w' j = Some m \<and> sent_from n m" if "j \<in> fst ` set es" for j
    using that w'(6) fresh(1) turn(5) by (auto split: if_splits)
  ultimately show ?case
    using w'(2-5) n(1) turn(5,6) fresh(1) e by (intro exI [of _ w']) auto
qed

text \<open>A queue with one id has one entry.\<close>

lemma only_entry:
  assumes "services_laws S" "queue_ids_ok (srv_redis S) (w_svc w)" "fst ` set (w_entries S w) = {i}"
  obtains sc where "w_entries S w = [(i, sc)]"
proof -
  have "distinct (map fst (w_entries S w))"
    using wq.entries_ordered [OF services_laws_parts(2) [OF assms(1)] assms(2)] by simp
  with assms(3) have "length (w_entries S w) = 1"
    using distinct_card [of "map fst (w_entries S w)"] by simp
  then obtain e where e: "w_entries S w = [e]" by (auto simp: length_Suc_conv)
  with assms(3) show thesis by (cases e) (auto intro: that)
qed

section \<open>A retrying row can be sent\<close>

lemma row_inv_retrying:
  assumes inv: "row_inv n" and count: "retry_count n < 3" and code: "code \<in> RETRYABLE_ERROR_CODES"
    and m: "decided (Retry_later code) n m"
  shows "row_inv m"
proof -
  let ?n = "set_attrs [Status (status_value RETRYING), Retry_count (retry_count n + 1),
    Error_code (Some (error_value code))] n"
  from m obtain t where m': "m = ?n\<lparr>mtime := t\<rparr>" by auto
  from inv have parts: "row_origin n" "row_progress n" "storable n" by (simp_all add: row_inv_def)
  from row_progress_retrying [OF parts(2) count code] have "row_progress ?n" .
  moreover have "storable ?n" using parts(2,3) count by (simp add: storable_def row_progress_def)
  ultimately show ?thesis
    using parts(1) unfolding m' row_inv_def row_origin_kept row_progress_mtime storable_mtime by simp
qed

lemma row_inv_priority: "row_inv n \<Longrightarrow> 1 \<le> priority n \<and> priority n \<le> 4"
proof -
  assume "row_inv n"
  then obtain p where "priority n = priority_value p" by (auto simp: row_inv_def row_origin_def)
  then show ?thesis by (cases p) simp_all
qed

end
