(* ===== verification/Dispatch_Properties.thy ===== *)
theory Dispatch_Properties
  imports Sample_Data Worker_Liveness
begin

text \<open>
  Properties of a dispatch and of the workers (\<open>Dispatch\<close>, \<open>Worker\<close>), each with an instance.
\<close>

section \<open>One dispatch\<close>

text \<open>C12. The refinement: while PostgreSQL answers, the dispatch of an existing row returns, and the row
  becomes what the specification decides from the health check, the provider's result and the retries
  so far: sent with the provider's id; retrying with one retry more; or failed, when the three retries
  are used up or the error cannot be retried. No other row changes, a provider that is down is not
  asked to send, and the queue is not touched.\<close>

theorem dispatch_refines_decision:
  assumes "services_laws S" "db_up S w" "w_rows S w i = Some n" "row_inv n" "nid n = i"
    and "channel n = channel_value c" "providers c = Some provider" "provider_ok provider"
    and "provider_answers provider n (w_prov w) healthy r p'"
  shows "\<exists>m w'. dispatch S providers i w = (Inr (), w') \<and> w_rows S w' = (w_rows S w)(i \<mapsto> m) \<and>
    decided (decide healthy r (retry_count n)) n m \<and>
    w_prov w' = (if healthy then p' else w_prov w) \<and> svc_redis (w_svc w') = svc_redis (w_svc w)"
proof -
  obtain w' where "dispatch S providers i w = (Inr (), w')" "dispatched S w n healthy r p' w'"
    by (rule dispatch_up [where providers = providers and c = c, OF assms])
  then show ?thesis using assms(5) by (auto simp: dispatched_def)
qed

theorem dispatch_refines_decision_witness:
  "\<exists>m w'. dispatch ref_services (sms_only down_provider) 1 (world_with (row_with PENDING 3)) = (Inr (), w') \<and>
     w_rows ref_services w' 1 = Some m \<and> status m = status_value FAILED \<and>
     error_code m = Some (error_value PROVIDER_DOWN)"
proof -
  have "\<exists>m w'. dispatch ref_services (sms_only down_provider) 1 (world_with (row_with PENDING 3)) = (Inr (), w') \<and>
    w_rows ref_services w' = (w_rows ref_services (world_with (row_with PENDING 3)))(1 \<mapsto> m) \<and>
    decided (decide False (failed_result PROVIDER_DOWN) (retry_count (row_with PENDING 3))) (row_with PENDING 3) m \<and>
    w_prov w' = (if False then w_prov ref_init else w_prov (world_with (row_with PENDING 3))) \<and>
    svc_redis (w_svc w') = svc_redis (w_svc (world_with (row_with PENDING 3)))"
    by (intro dispatch_refines_decision [where c = SMS, OF ref_services_laws world_with_up(1)])
      (auto intro: row_with_inv const_providers_ok const_providers_answer)
  then show ?thesis by (auto simp: decide_def after_failure_def)
qed

text \<open>C15. Isolation: whatever the services do and wherever the dispatch raises, it changes no row but
  its own, and its own row only along writes of the life cycle.\<close>

theorem dispatch_isolated:
  assumes "services_laws S" "providers_ok providers" "table_ok (w_rows S w)"
    and "dispatch S providers i w = (x, w')"
  shows "(w_rows S w')(i := None) = (w_rows S w)(i := None) \<and>
    (life_write_at i)\<^sup>*\<^sup>* (w_rows S w) (w_rows S w')"
  using dispatch_life [OF assms] life_at_isolated by (auto simp: life_at_def)

theorem dispatch_isolated_witness:
  "(w_rows ref_services (snd (dispatch ref_services main_providers 1 ref_init)))(1 := None) = (\<lambda>_. None)"
proof -
  obtain x w' where run: "dispatch ref_services main_providers 1 ref_init = (x, w')"
    by (cases "dispatch ref_services main_providers 1 ref_init")
  have "table_ok (w_rows ref_services ref_init)" by simp
  from dispatch_isolated [OF ref_services_laws main_providers_contract this run] run show ?thesis
    by (simp add: fun_upd_idem)
qed

text \<open>An id without a row is dropped: nothing is written, sent or published.\<close>

theorem dispatch_of_missing_row:
  assumes "services_laws S" "db_up S w" "w_rows S w i = None"
  shows "\<exists>w'. dispatch S providers i w = (Inr (), w') \<and> w_rows S w' = w_rows S w \<and>
    w_svc w' = w_svc w \<and> w_prov w' = w_prov w"
proof -
  obtain w' where "dispatch S providers i w = (Inr (), w')" "w_rows S w' = w_rows S w"
    "w_svc w' = w_svc w" "w_prov w' = w_prov w" by (rule dispatch_missing [OF assms])
  then show ?thesis by blast
qed

theorem dispatch_of_missing_row_witness:
  "\<exists>w'. dispatch ref_services main_providers 9 ref_init = (Inr (), w') \<and> w_prov w' = w_prov ref_init"
  using dispatch_of_missing_row [OF ref_services_laws ref_init_ok(3), of 9 main_providers] by auto

text \<open>C18. dispatch does not look at the status: a notification that was sent already is sent again when
  its id is dispatched again, by a late retry message or a second entry, and the provider is asked
  once more.\<close>

theorem sent_notification_is_sent_again:
  assumes "services_laws S" "db_up S w" "w_rows S w i = Some n" "row_inv n" "nid n = i"
    and "status n = status_value SENT"
    and "channel n = channel_value c" "providers c = Some provider" "provider_ok provider"
    and "provider_answers provider n (w_prov w) True r p'" "pr_success r"
  shows "\<exists>m w'. dispatch S providers i w = (Inr (), w') \<and> w_prov w' = p' \<and>
    w_rows S w' = (w_rows S w)(i \<mapsto> m) \<and> status m = status_value SENT \<and>
    external_id m = pr_external_id r"
proof -
  obtain w' where "dispatch S providers i w = (Inr (), w')" "dispatched S w n True r p' w'"
    by (rule dispatch_up [where providers = providers and c = c, OF assms(1-5,7-10)])
  with assms(5,11) show ?thesis by (auto simp: dispatched_def decide_def)
qed

definition sent_row :: notification where
  "sent_row = (row_with SENT 0)\<lparr>external_id := Some ''mock-sms-first'', stime := Some 1700000000\<rparr>"

lemma sent_row_inv: "row_inv sent_row"
proof -
  have "row_origin sent_row" using row_with_origin [of SENT 0] by (simp add: sent_row_def row_origin_def)
  moreover have "row_progress sent_row"
    by (simp add: row_progress_def sent_row_def status_enum.value_inject row_with_def sample_row_def
        del: status_value.simps)
  moreover have "storable sent_row"
    using row_with_storable [of 0 SENT] by (simp add: sent_row_def storable_def varchar_255_def text_ok_def)
  ultimately show ?thesis by (simp add: row_inv_def)
qed

theorem sent_notification_is_sent_again_witness:
  "\<exists>w'. dispatch ref_services main_providers 1 (world_with sent_row) = (Inr (), w') \<and>
     mk_sent (w_prov w') = [(SMS, ''+4912'', ''mock-sms-0000abcd'')]"
proof -
  have fields: "nid sent_row = 1" "status sent_row = status_value SENT" "channel sent_row = channel_value SMS"
    by (simp_all add: sent_row_def)
  have ans: "provider_answers (mock_sms_provider (1 / 10)) sent_row (w_prov (world_with sent_row)) True
      (sent_result ''mock-sms-0000abcd'') sms_after_send"
    using sms_mock_answers [of SENT 0] by (simp add: sent_row_def provider_answers_def)
  have row: "w_rows ref_services (world_with sent_row) 1 = Some sent_row" by (simp add: fields)
  have ok: "provider_ok (mock_sms_provider (1 / 10))" using main_providers_ok [of SMS] by simp
  from sent_notification_is_sent_again [where providers = main_providers and c = SMS,
      OF ref_services_laws world_with_up(1) row sent_row_inv fields main_providers_simps(2) ok ans]
  show ?thesis by (auto simp: sent_result_def sms_after_send_def)
qed

section \<open>Retries and the dead letter\<close>

text \<open>C20. A failed attempt with retries left: the row is retrying with one retry more, and while the
  broker answers and no connection is cached, exactly one message is published, to the retry queue,
  with a delay in the window of that retry.\<close>

theorem retry_is_scheduled:
  assumes "services_laws S" "db_up S w" "w_rows S w (nid n) = Some n" "row_inv n"
    and "event_type n = event_value ev" "retry_count n < 3"
    and "amqp_up S w" "rmq_connection (w_svc w) = None"
  shows "\<exists>m d w'. schedule_retry S n code w = (Inr (), w') \<and> w_rows S w' = (w_rows S w)(nid n \<mapsto> m) \<and>
    status m = status_value RETRYING \<and> retry_count m = retry_count n + 1 \<and>
    error_code m = Some (error_value code) \<and>
    w_published S w' = w_published S w @ [('''', RETRY_QUEUE, retry_message (nid n) d)] \<and>
    window_low (retry_config_for ev) (retry_count n + 1) \<le> d \<and>
    d \<le> window_high (retry_config_for ev) (retry_count n + 1)"
proof -
  obtain m w' where run: "schedule_retry S n code w = (Inr (), w')" "w_rows S w' = (w_rows S w)(nid n \<mapsto> m)"
    "decided (Retry_later code) n m" and sent: "retry_sent S w n ev w'"
    using schedule_retry_message [OF assms(1-6), of code] assms(7,8) by metis
  from sent obtain d where
    d: "w_published S w' = w_published S w @ [('''', RETRY_QUEUE, retry_message (nid n) d)]"
      "window_low (retry_config_for ev) (retry_count n + 1) \<le> d"
      "d \<le> window_high (retry_config_for ev) (retry_count n + 1)"
    unfolding retry_sent_def by blast
  from run(3) have "status m = status_value RETRYING" "retry_count m = retry_count n + 1"
    "error_code m = Some (error_value code)" by auto
  with run(1,2) d show ?thesis by blast
qed

lemma ref_no_connection [simp]: "rmq_connection (w_svc ref_init) = None"
  by (simp add: ref_init_def)

theorem retry_is_scheduled_witness:
  "\<exists>d w'. schedule_retry ref_services (row_with QUEUED 1) TIMEOUT (world_with (row_with QUEUED 1)) = (Inr (), w') \<and>
     w_published ref_services w' = [('''', RETRY_QUEUE, retry_message 1 d)] \<and> 10 \<le> d \<and> d \<le> 20"
proof -
  let ?n = "row_with QUEUED 1"
  have row: "w_rows ref_services (world_with ?n) (nid ?n) = Some ?n" by simp
  have inv: "row_inv ?n" by (rule row_with_inv) simp_all
  have "amqp_up ref_services (world_with ?n)" "rmq_connection (w_svc (world_with ?n)) = None"
    "retry_count ?n < 3" by simp_all
  from retry_is_scheduled [OF ref_services_laws world_with_up(1) row inv row_with_fields(3) this(3,1,2), of TIMEOUT]
  show ?thesis by (auto simp: window_low_def window_high_def ref_amqp_ops_def)
qed

text \<open>C22. With retries left and a connection in the cache, where is_closed is a property, the row is
  retrying but nothing is published: no retry message will ever come back for it.\<close>

theorem retry_is_lost_on_cached_connection:
  assumes "services_laws S" "db_up S w" "w_rows S w (nid n) = Some n" "row_inv n"
    and "event_type n = event_value ev" "retry_count n < 3"
    and "is_closed_is_property (srv_amqp S)" "rmq_connection (w_svc w) \<noteq> None"
  shows "\<exists>m w'. schedule_retry S n code w = (Inr (), w') \<and> w_rows S w' = (w_rows S w)(nid n \<mapsto> m) \<and>
    status m = status_value RETRYING \<and> w_published S w' = w_published S w"
proof -
  obtain m w' where run: "schedule_retry S n code w = (Inr (), w')" "w_rows S w' = (w_rows S w)(nid n \<mapsto> m)"
    "decided (Retry_later code) n m" and "w_published S w' = w_published S w"
    using schedule_retry_message [OF assms(1-6), of code] assms(7,8) by metis
  moreover from run(3) have "status m = status_value RETRYING" by auto
  ultimately show ?thesis by blast
qed

definition connected :: "notification \<Rightarrow> ref_world" where
  "connected n = (world_with n)\<lparr>w_svc := (w_svc ref_init)\<lparr>rmq_connection := Some 1, rmq_channel := Some 2\<rparr>\<rparr>"

theorem retry_is_lost_on_cached_connection_witness:
  "\<exists>w'. schedule_retry ref_services (row_with QUEUED 1) TIMEOUT (connected (row_with QUEUED 1)) = (Inr (), w') \<and>
     w_published ref_services w' = []"
proof -
  let ?n = "row_with QUEUED 1"
  have row: "w_rows ref_services (connected ?n) (nid ?n) = Some ?n" by (simp add: connected_def)
  have inv: "row_inv ?n" by (rule row_with_inv) simp_all
  have up: "db_up ref_services (connected ?n)" using world_with_up(1) [of ?n] by (simp add: connected_def db_up_def)
  have "rmq_connection (w_svc (connected ?n)) \<noteq> None" "retry_count ?n < 3"
    "is_closed_is_property (srv_amqp ref_services)" by (simp_all add: connected_def ref_amqp_property)
  from retry_is_lost_on_cached_connection [OF ref_services_laws up row inv row_with_fields(3) this(2,3,1), of TIMEOUT]
  show ?thesis by (auto simp: connected_def ref_amqp_ops_def)
qed

text \<open>C23. A failed attempt when the three retries are used up: the row is failed with the error, and while
  the broker answers one dead letter is published to the DLQ exchange, which carries the row's id, key,
  event, channel, recipient, error and retries.\<close>

theorem exhausted_goes_to_dlq:
  assumes laws: "services_laws S" and up: "db_up S w" "amqp_up S w"
    and row: "w_rows S w (nid n) = Some n" and inv: "row_inv n" and count: "3 \<le> retry_count n"
  shows "\<exists>m ev c iso w'. schedule_retry S n code w = (Inr (), w') \<and>
    w_rows S w' = (w_rows S w)(nid n \<mapsto> m) \<and> status m = status_value FAILED \<and>
    error_code m = Some (error_value code) \<and> retry_count m = retry_count n \<and>
    event_type n = event_value ev \<and> channel n = channel_value c \<and>
    w_published S w' = w_published S w @ [(DLQ_EXCHANGE, '''', dlq_message (dlq_payload m ev c code iso))]"
proof -
  from row_inv_codes(1,2) [OF inv] obtain ev c where
    ev: "enum_of_value event_members event_value (event_type n) = Inr ev" "event_type n = event_value ev"
    and c: "channel n = channel_value c" by blast
  obtain m w1 where failed: "mark_failed S n code w = (Inr m, w1)" "w_rows S w1 = (w_rows S w)(nid n \<mapsto> m)"
    "decided (Reject code) n m" "w_svc w1 = w_svc w"
    by (rule mark_failed_up [OF laws up(1) row inv])
  from failed(3) have m: "status m = status_value FAILED" "error_code m = Some (error_value code)"
    "retry_count m = retry_count n" "event_type m = event_value ev" "channel m = channel_value c"
    using ev(2) c by auto
  have up1: "amqp_up S w1" using up(2) failed(4) by (simp add: amqp_up_def)
  obtain w' iso where dlq: "send_to_dlq S m code w1 = (Inr (), w')"
    "w_published S w' = w_published S w1 @ [(DLQ_EXCHANGE, '''', dlq_message (dlq_payload m ev c code iso))]"
    by (rule send_to_dlq_up [OF laws up1 m(4,5)])
  from evolvesD [OF send_to_dlq_db dlq(1)] have rows: "w_rows S w' = w_rows S w1" by (simp add: same_def)
  have "schedule_retry S n code w = (Inr (), w')"
    using count failed(1) dlq(1) by (simp add: schedule_retry_branches [OF ev(1)] io_simps)
  with m failed(2,4) dlq(2) rows ev(2) c show ?thesis by (metis (no_types, lifting))
qed

theorem exhausted_goes_to_dlq_witness:
  "\<exists>m w' ev c iso. schedule_retry ref_services (row_with QUEUED 3) TIMEOUT (world_with (row_with QUEUED 3)) = (Inr (), w') \<and>
     w_rows ref_services w' 1 = Some m \<and> status m = status_value FAILED \<and>
     w_published ref_services w' = [(DLQ_EXCHANGE, '''', dlq_message (dlq_payload m ev c TIMEOUT iso))]"
proof -
  let ?n = "row_with QUEUED 3"
  have row: "w_rows ref_services (world_with ?n) (nid ?n) = Some ?n" by simp
  have inv: "row_inv ?n" by (rule row_with_inv) simp_all
  have "3 \<le> retry_count ?n" by simp
  from exhausted_goes_to_dlq [OF ref_services_laws world_with_up(1,3) row inv this, of TIMEOUT]
  obtain m ev c iso w' where
    "schedule_retry ref_services ?n TIMEOUT (world_with ?n) = (Inr (), w')"
    "w_rows ref_services w' = (w_rows ref_services (world_with ?n))(nid ?n \<mapsto> m)" "status m = status_value FAILED"
    "w_published ref_services w' = w_published ref_services (world_with ?n) @
      [(DLQ_EXCHANGE, '''', dlq_message (dlq_payload m ev c TIMEOUT iso))]" by blast
  moreover have "w_published ref_services (world_with ?n) = []" by (simp add: ref_amqp_ops_def)
  ultimately show ?thesis by (intro exI [of _ m] exI [of _ w'] exI [of _ ev] exI [of _ c] exI [of _ iso]) simp
qed

section \<open>Workers\<close>

text \<open>C38. A worker never dies of an exception: its loop runs exactly as many turns as its guard is read True
  in a row, each from the state the one before it left, whatever PostgreSQL, RabbitMQ and the providers do
  and whatever a dispatch raises; so while Redis answers, each of these turns takes the next entry.\<close>

theorem worker_never_dies:
  assumes "services_laws S"
  shows "worker_loop S providers readings w = (Inr (), (after_turn S providers ^^ turns_taken readings) w) \<and>
    (redis_ready S w \<longrightarrow> w_entries S (snd (worker_loop S providers readings w)) =
       drop (turns_taken readings) (w_entries S w))"
  using turns_take_entries [where k = "turns_taken readings" and providers = providers, OF assms] unfolding worker_loop_turns by simp

text \<open>Two entries while PostgreSQL is down: the dispatch of the first raises, and both are taken.\<close>

definition outage_queue :: ref_world where
  "outage_queue = db_outage\<lparr>w_svc := (w_svc ref_init)\<lparr>svc_redis :=
     (svc_redis (w_svc ref_init))\<lparr>rr_sets := (\<lambda>_. [(''1'', 5), (''2'', 6)])\<rparr>\<rparr>\<rparr>"

lemma outage_queue_facts:
  "w_entries ref_services outage_queue = [(1, 5), (2, 6)]" "redis_ready ref_services outage_queue"
proof -
  have z: "rr_zset (svc_redis (w_svc outage_queue)) k = [(''1'', 5), (''2'', 6)]" for k
    by (simp add: outage_queue_def rr_zset_def zset_wf_def zset_key_def less_eq_prod_def)
  have ids: "int_of_str ''1'' = Some 1" "int_of_str ''2'' = Some 2" by code_simp+
  from z ids show "w_entries ref_services outage_queue = [(1, 5), (2, 6)]" by (simp add: queue_entries_def)
  have "''1'' = str_of_int 1" "''2'' = str_of_int 2" by code_simp+
  with z show "redis_ready ref_services outage_queue"
    by (simp add: redis_ready_def redis_up_def queue_ids_ok_def outage_queue_def ref_init_def)
qed

theorem worker_never_dies_witness:
  "\<exists>w'. worker_loop ref_services main_providers [True, True] outage_queue = (Inr (), w') \<and> w_entries ref_services w' = [] \<and>
     fst (dispatch ref_services main_providers 1 outage_queue) = Inl ConnectionError"
proof -
  have "fst (dispatch ref_services main_providers 1 outage_queue) = Inl ConnectionError"
    by (simp add: dispatch_def io_bind_def on_db_def io_zoom_def get_by_id_def rd_select_id_def outage_queue_def db_outage_def)
  moreover obtain w' where w': "worker_loop ref_services main_providers [True, True] outage_queue = (Inr (), w')"
    using worker_never_dies [OF ref_services_laws] by blast
  moreover have "w_entries ref_services w' = drop (turns_taken [True, True]) (w_entries ref_services outage_queue)"
    using worker_never_dies [OF ref_services_laws, of main_providers "[True, True]" outage_queue,
        THEN conjunct2, THEN mp, OF outage_queue_facts(2)] unfolding w' snd_conv .
  then have "w_entries ref_services w' = []" unfolding outage_queue_facts(1) by simp
  ultimately show ?thesis by blast
qed

text \<open>C13. One turn of a worker on a queue with entries, while the services answer: it takes the entry with
  the least score, its row becomes what the specification decides, and the rest of the queue stays.\<close>

theorem worker_dispatches_first_entry:
  assumes laws: "services_laws S" and up: "all_up S w" and entries: "w_entries S w = (i, sc) # rest"
    and row: "w_rows S w i = Some n" "row_inv n" "nid n = i"
    and prov: "channel n = channel_value c" "providers c = Some provider" "provider_ok provider"
    and ans: "provider_answers provider n (w_prov w) healthy r p'"
  shows "\<exists>m w'. worker_turn S providers w = (Inr (), w') \<and> w_entries S w' = rest \<and>
    w_rows S w' = (w_rows S w)(i \<mapsto> m) \<and> decided (decide healthy r (retry_count n)) n m \<and>
    w_prov w' = (if healthy then p' else w_prov w)"
proof -
  from up have "db_up S w" "redis_ready S w" by (simp_all add: all_up_def queue_ok_def redis_ready_def)
  then obtain m w' where "worker_turn S providers w = (Inr (), w')" "w_entries S w' = rest"
    "w_rows S w' = (w_rows S w)(i \<mapsto> m)" "decided (decide healthy r (retry_count n)) n m"
    "w_prov w' = (if healthy then p' else w_prov w)"
    by (rule turn_dispatches [where providers = providers, OF laws _ _ entries row prov ans])
  then show ?thesis by blast
qed

theorem worker_dispatches_first_entry_witness:
  "\<exists>m w'. worker_turn ref_services (sms_only good_provider) one_queued = (Inr (), w') \<and>
     w_entries ref_services w' = [] \<and> w_rows ref_services w' 1 = Some m \<and> status m = status_value SENT"
proof -
  have inv: "row_inv (row_with PENDING 0)" by (rule row_with_inv) simp_all
  from worker_dispatches_first_entry [where providers = "sms_only good_provider" and c = SMS,
      OF ref_services_laws one_queued_facts(2,1,3) inv _ _ _ const_providers_ok(1) const_providers_answer(1)]
  show ?thesis by (auto simp: decide_def ok_result_def sent_result_def)
qed

end
