(* ===== verification/Delivery_Properties.thy ===== *)
theory Delivery_Properties
  imports Sample_Data
begin

text \<open>
  Properties of the message callbacks (\<open>Rabbit_Handler\<close>) and of the HTTP routes
  (\<open>Controller\<close>), each with an instance.
\<close>

section \<open>New events\<close>

text \<open>C31. While the broker answers, every delivery of a new event is settled, whatever happens to it:
  acknowledged when the creation returned (a duplicate included), dropped when the body is no JSON or a
  field is missing, otherwise requeued until its delivery count reaches three. Settling changes no row,
  no key and no entry of the queue.\<close>

theorem new_event_is_settled:
  assumes "services_laws S" "amqp_up S w" "process_event S msg w = (x, w1)"
  shows "\<exists>w'. on_new_event S msg w = (Inr (), w') \<and>
    w_settled S w' = (w_settled S w)(dl_tag msg \<mapsto>
      (case x of
         Inr _ \<Rightarrow> Acked
       | Inl e \<Rightarrow> Nacked (e \<noteq> JSONDecodeError \<and> e \<noteq> KeyError \<and> delivery_count msg < 3))) \<and>
    w_db w' = w_db w1 \<and> svc_redis (w_svc w') = svc_redis (w_svc w1) \<and> amqp_up S w'"
proof -
  obtain w' where "on_new_event S msg w = (Inr (), w')" "wire_frame S w1 w'"
    "w_settled S w' = (w_settled S w)(dl_tag msg \<mapsto> settlement_of msg x)"
    by (rule on_new_event_settles [OF assms])
  then show ?thesis by (auto simp: wire_frame_def settlement_of_def)
qed

definition garbage :: delivery where
  "garbage = \<lparr>dl_tag = 4, dl_text = Inr ''nope'', dl_json = Inl JSONDecodeError, dl_headers = []\<rparr>"

theorem new_event_is_settled_witness:
  "\<exists>w'. on_new_event ref_services garbage ref_init = (Inr (), w') \<and>
     w_settled ref_services w' 4 = Some (Nacked False)"
proof -
  have run: "process_event ref_services garbage ref_init = (Inl JSONDecodeError, ref_init)"
    by (rule process_event_invalid) (simp add: garbage_def delivery_payload_def)
  have tag: "dl_tag garbage = 4" by (simp add: garbage_def)
  from new_event_is_settled [OF ref_services_laws ref_init_ok(5) run] show ?thesis
    by (auto simp: tag)
qed

text \<open>The broker delivers a message again and again; each delivery runs the callback.\<close>

fun redeliver ::
  "('d, 'r, 'q) services \<Rightarrow> delivery \<Rightarrow> nat \<Rightarrow> ('d, 'r, 'q, 'p) world \<Rightarrow> ('d, 'r, 'q, 'p) world"
where
  "redeliver S msg 0 w = w"
| "redeliver S msg (Suc k) w = redeliver S msg k (snd (on_new_event S msg w))"

text \<open>A message whose payload does not validate and that carries no delivery count, as deliveries of a
  classic queue do, is requeued, now and at every later delivery: it never leaves the queue, and
  reaches no service.\<close>

theorem invalid_message_is_requeued_forever:
  assumes laws: "services_laws S" and up: "amqp_up S w"
    and bad: "delivery_payload msg = Inl ValueError" and headers: "map_of (dl_headers msg) ''x-delivery-count'' = None"
  shows "w_settled S (redeliver S msg (Suc k) w) (dl_tag msg) = Some (Nacked True) \<and>
    w_db (redeliver S msg (Suc k) w) = w_db w \<and>
    svc_redis (w_svc (redeliver S msg (Suc k) w)) = svc_redis (w_svc w)"
  using up
proof (induction k arbitrary: w)
  case 0
  note run = process_event_invalid [OF bad, of S]
  from headers have "delivery_count msg = 0" by (simp add: delivery_count_def)
  then have nack: "settlement_of msg (Inl ValueError :: py_exn + notification list \<times> bool) = Nacked True"
    by (simp add: settlement_of_def)
  obtain w' where "on_new_event S msg w = (Inr (), w')" "wire_frame S w w'"
    "w_settled S w' = (w_settled S w)(dl_tag msg \<mapsto> Nacked True)"
    using on_new_event_settles [OF laws 0 run] unfolding nack by blast
  then show ?case by (simp add: wire_frame_def)
next
  case (Suc k)
  note run = process_event_invalid [OF bad, of S]
  obtain w' where w': "on_new_event S msg w = (Inr (), w')" "wire_frame S w w'"
    by (rule on_new_event_settles [OF laws Suc.prems run])
  then have "amqp_up S w'" by (simp add: wire_frame_def)
  from Suc.IH [OF this] w' show ?case by (simp add: wire_frame_def)
qed

definition unknown_event :: delivery where
  "unknown_event =
     \<lparr>dl_tag = 5, dl_text = Inr ''{...}'',
      dl_json = Inr (JObj
        [(''idempotency_key'', JStr ''k2''), (''source_service'', JStr ''order''),
         (''event_type'', JStr ''order_lost''),
         (''recipient'', JObj [(''email'', JStr ''a@b.c'')]),
         (''content'', JObj [(''email'', JObj [])])]),
      dl_headers = []\<rparr>"

lemma unknown_event_payload: "delivery_payload unknown_event = Inl ValueError"
  by code_simp

theorem invalid_message_is_requeued_forever_witness:
  "w_settled ref_services (redeliver ref_services unknown_event 100 ref_init) 5 = Some (Nacked True)"
proof -
  have "map_of (dl_headers unknown_event) ''x-delivery-count'' = None" "dl_tag unknown_event = 5"
    by (simp_all add: unknown_event_def)
  with invalid_message_is_requeued_forever [OF ref_services_laws ref_init_ok(5) unknown_event_payload, of 99]
  show ?thesis by (simp del: redeliver.simps)
qed

section \<open>Retry events\<close>

text \<open>A retry event of an existing row queues the id again and is acknowledged, whatever the status of
  the row is, sent included; no row changes and nothing leaves the queue.\<close>

theorem retry_event_requeues_any_status:
  assumes "services_laws S" "all_up S w" "amqp_up S w" "dl_text msg = Inr (str_of_int i)"
    and "w_rows S w i = Some n" "nid n = i" "1 \<le> priority n" "priority n \<le> 4"
  shows "\<exists>w'. on_retry_event S msg w = (Inr (), w') \<and> i \<in> fst ` set (w_entries S w') \<and>
    set (w_entries S w) \<subseteq> set (w_entries S w') \<and> w_rows S w' = w_rows S w \<and>
    w_settled S w' = (w_settled S w)(dl_tag msg \<mapsto> Acked)"
proof -
  from assms(4) have id: "decoded_id msg = Inr i" by (rule decoded_retry_message)
  obtain w' where "on_retry_event S msg w = (Inr (), w')" "w_rows S w' = w_rows S w"
    "fst ` set (w_entries S w') = insert i (fst ` set (w_entries S w))"
    "set (w_entries S w) \<subseteq> set (w_entries S w')"
    "w_settled S w' = (w_settled S w)(dl_tag msg \<mapsto> Acked)"
    by (rule on_retry_event_requeues [OF assms(1-3) id assms(5-8)])
  then show ?thesis by (intro exI [of _ w']) simp
qed

definition expired_retry :: delivery where
  "expired_retry = \<lparr>dl_tag = 6, dl_text = Inr (str_of_int 1), dl_json = Inr (JInt 1), dl_headers = []\<rparr>"

theorem retry_event_requeues_any_status_witness:
  "\<exists>w'. on_retry_event ref_services expired_retry (world_with (row_with SENT 1)) = (Inr (), w') \<and>
     1 \<in> fst ` set (w_entries ref_services w')"
proof -
  let ?n = "row_with SENT 1"
  have row: "w_rows ref_services (world_with ?n) 1 = Some ?n" by simp
  have body: "dl_text expired_retry = Inr (str_of_int 1)" by (simp add: expired_retry_def)
  have "1 \<le> priority ?n" "priority ?n \<le> 4" by simp_all
  from retry_event_requeues_any_status [OF ref_services_laws world_with_up(5,3) body row row_with_fields(1) this]
  show ?thesis by blast
qed

text \<open>A retry event whose body is no integer is rejected without being requeued, and reaches no
  service.\<close>

theorem malformed_retry_event_is_rejected:
  assumes "services_laws S" "amqp_up S w" "dl_text msg = Inr s" "int_of_str s = None"
  shows "\<exists>w'. on_retry_event S msg w = (Inr (), w') \<and> w_db w' = w_db w \<and>
    svc_redis (w_svc w') = svc_redis (w_svc w) \<and>
    w_settled S w' = (w_settled S w)(dl_tag msg \<mapsto> Nacked False)"
proof -
  from assms(3,4) have "decoded_id msg = Inl ValueError" by (simp add: decoded_id_def)
  then obtain w' where "on_retry_event S msg w = (Inr (), w')" "wire_frame S w w'"
    "w_settled S w' = (w_settled S w)(dl_tag msg \<mapsto> Nacked False)"
    by (rule on_retry_event_malformed [OF assms(1,2)])
  then show ?thesis by (auto simp: wire_frame_def)
qed

theorem malformed_retry_event_is_rejected_witness:
  "\<exists>w'. on_retry_event ref_services garbage ref_init = (Inr (), w') \<and>
     w_settled ref_services w' 4 = Some (Nacked False)"
proof -
  have "int_of_str ''nope'' = None" by code_simp
  moreover have "dl_text garbage = Inr ''nope''" "dl_tag garbage = 4" by (simp_all add: garbage_def)
  ultimately show ?thesis
    using malformed_retry_event_is_rejected [OF ref_services_laws ref_init_ok(5), of garbage "''nope''"] by auto
qed

section \<open>Routes\<close>

text \<open>Every POST of a notification is answered, whatever happens below: 201 with the created rows, 409
  when the key is taken, 422 for a payload that does not validate or a ValueError, and 500 for any
  other exception; the answer adds nothing to what the creation did.\<close>

theorem post_is_answered:
  "\<exists>r w'. post_notification S parsed w = (Inr r, w') \<and>
     (case parsed of
        Inl _ \<Rightarrow> http_status r = 422 \<and> w' = w
      | Inr p \<Rightarrow>
          (case create_notification S p w of
             (Inr (ns, dup), w1) \<Rightarrow> w' = w1 \<and>
               (if dup then http_status r = 409
                else http_status r = 201 \<and> http_body r = Created
                  \<lparr>cr_idempotency_key = req_idempotency_key p, cr_event_type = req_event_type p,
                   cr_notifications = map channel_status_convert ns\<rparr>)
           | (Inl e, w1) \<Rightarrow> w' = w1 \<and> http_status r = (if is_value_error e then 422 else 500)))"
  by (auto simp: post_notification_def with_handlers_def io_try_def io_bind_def io_return_def
      value_error_handler_def generic_error_handler_def split: sum.splits prod.splits)

lemma io_of_InrE: "io_of v s = (Inr x, t) \<Longrightarrow> v = Inr x \<and> t = s"
  by (cases v) (auto simp: io_of_def io_raise_def io_return_def)

lemma list_notifications_length:
  assumes laws: "services_laws S" and run: "list_notifications S st ch src ev limit offset w = (Inr ns, w')"
  shows "length ns \<le> nat limit"
proof -
  from run obtain st' ch' src' ev' where "filter_value status_members status_name status_value st = Inr st'"
    "filter_value channel_members channel_name channel_value ch = Inr ch'"
    "filter_value source_members source_name source_value src = Inr src'"
    "filter_value event_members event_name event_value ev = Inr ev'"
    unfolding list_notifications_def by (auto elim!: io_bind_InrE dest!: io_of_InrE)
  from page_of_bounds [OF list_notifications_page [OF laws this run]] show ?thesis by (simp add: list_query_where)
qed

text \<open>A listing never answers with more than a hundred rows, whatever limit is asked for.\<close>

theorem listing_is_bounded:
  assumes laws: "services_laws S" and run: "list_route S st ch src ev limit offset w = (Inr r, w')"
    and body: "http_body r = Listing rows"
  shows "length rows \<le> 100 \<and> http_status r = 200"
proof -
  let ?limit = "case limit of None \<Rightarrow> 20 | Some k \<Rightarrow> k"
  let ?offset = "case offset of None \<Rightarrow> 0 | Some k \<Rightarrow> k"
  from run body have small: "?limit \<le> 100"
    and run': "with_handlers (io_bind (list_notifications S st ch src ev ?limit ?offset)
      (\<lambda>ns. io_return \<lparr>http_status = 200, http_body = Listing (map list_convert ns)\<rparr>)) w = (Inr r, w')"
    by (auto simp: list_route_def Let_def io_return_def split: if_splits)
  from run' obtain ns where ns: "list_notifications S st ch src ev ?limit ?offset w = (Inr ns, w')"
    and r: "r = \<lparr>http_status = 200, http_body = Listing (map list_convert ns)\<rparr>"
    using body
    by (cases rule: with_handlers_cases)
      (auto simp: value_error_handler_def generic_error_handler_def io_return_def elim!: io_bind_InrE)
  from list_notifications_length [OF laws ns] small r body show ?thesis by auto
qed

theorem listing_is_bounded_witness:
  "\<exists>r w' rows. list_route ref_services None None None None (Some 100) None (world_with (row_with SENT 0)) = (Inr r, w') \<and>
     http_body r = Listing rows \<and> length rows \<le> 100"
proof -
  obtain ns where "list_notifications ref_services None None None None 100 0 (world_with (row_with SENT 0)) =
      (Inr ns, world_with (row_with SENT 0))"
    unfolding list_notifications_def
    by (auto simp: filter_value_def on_db_def io_zoom_def repository_list_def rd_select_def list_query_def Let_def
        world_with_def io_return_run io_of_def io_bind_def)
  then have run: "list_route ref_services None None None None (Some 100) None (world_with (row_with SENT 0)) =
      (Inr \<lparr>http_status = 200, http_body = Listing (map list_convert ns)\<rparr>, world_with (row_with SENT 0))"
    by (simp add: list_route_def Let_def with_handlers_def io_try_def io_bind_def io_return_def)
  from listing_is_bounded [OF ref_services_laws run] run show ?thesis by auto
qed

text \<open>A listing with a status filter that names no status raises a KeyError, which is answered 500
  rather than 422; the services are not asked.\<close>

theorem unknown_filter_is_server_error:
  assumes "str_upper s \<notin> range status_name" "s \<noteq> ''''" "limit \<le> 100"
  shows "list_route S (Some s) ch src ev (Some limit) offset w = (Inr generic_error_handler, w)"
proof -
  from assms(1) have "enum_of_name status_members status_name (str_upper s) = Inl KeyError"
    by (simp add: status_enum.of_name_error)
  with assms(2,3) show ?thesis
    by (simp add: list_route_def Let_def with_handlers_def io_try_def list_notifications_def
        filter_value_def io_bind_def io_of_def io_raise_def io_return_def is_value_error_def)
qed

theorem unknown_filter_is_server_error_witness:
  "list_route ref_services (Some ''lost'') None None None (Some 20) None ref_init =
     (Inr generic_error_handler, ref_init)"
proof -
  have "str_upper ''lost'' = ''LOST''" by code_simp
  moreover have "''LOST'' \<noteq> status_name x" for x by (cases x) simp_all
  ultimately have "str_upper ''lost'' \<notin> range status_name" by auto
  from unknown_filter_is_server_error [OF this, of 20] show ?thesis by simp
qed

end
