(* ===== verification/Publisher.thy ===== *)
theory Publisher
  imports Rabbit_Handler
begin

text \<open>
  The publisher script, \<open>scripts/publisher.py\<close>, which plays the order, payment and shipping
  services: its sample events, the load test, and what it leaves on the exchange. Its events are
  then read by the callback of \<open>Rabbit_Handler\<close>. Printing is left out.
\<close>

section \<open>Sample events\<close>

text \<open>The rupee sign, the one character of the script's texts outside ASCII, as its bytes in UTF-8.\<close>

definition RUPEE :: string where
  "RUPEE = [CHR 0xE2, CHR 0x82, CHR 0xB9]"

text \<open>Each event with its routing key; \<open>u\<close> is what \<open>uuid4().hex[:8]\<close> gave.\<close>

definition order_created_event :: "string \<Rightarrow> string \<times> json" where
  "order_created_event u =
     (''order.created'', JObj
       [(''idempotency_key'', JStr (''order-001-order_created-'' @ u)),
        (''source_service'', JStr ''order''),
        (''event_type'', JStr ''order_created''),
        (''priority'', JStr ''high''),
        (''recipient'', JObj [(''email'', JStr ''john@gmail.com''), (''device_token'', JStr ''fcm-token-abc123'')]),
        (''content'', JObj
          [(''email'', JObj [(''subject'', JStr ''Order Confirmed!''), (''body'', JStr ''Hi John, your order #001 has been confirmed.'')]),
           (''push'', JObj [(''title'', JStr ''Order Confirmed''), (''body'', JStr ''Your order #001 is confirmed.'')])])])"

definition payment_confirmed_event :: "string \<Rightarrow> string \<times> json" where
  "payment_confirmed_event u =
     (''payment.confirmed'', JObj
       [(''idempotency_key'', JStr (''payment-001-payment_confirmed-'' @ u)),
        (''source_service'', JStr ''payment''),
        (''event_type'', JStr ''payment_confirmed''),
        (''priority'', JStr ''high''),
        (''recipient'', JObj [(''email'', JStr ''john@gmail.com''), (''device_token'', JStr ''fcm-token-abc123'')]),
        (''content'', JObj
          [(''email'', JObj [(''subject'', JStr ''Payment Successful''), (''body'', JStr (''Your payment of '' @ RUPEE @ ''1299 was successful.''))]),
           (''push'', JObj [(''title'', JStr ''Payment Successful''), (''body'', JStr (RUPEE @ ''1299 payment confirmed.''))])])])"

definition payment_failed_event :: "string \<Rightarrow> string \<times> json" where
  "payment_failed_event u =
     (''payment.failed'', JObj
       [(''idempotency_key'', JStr (''payment-002-payment_failed-'' @ u)),
        (''source_service'', JStr ''payment''),
        (''event_type'', JStr ''payment_failed''),
        (''priority'', JStr ''high''),
        (''recipient'', JObj [(''email'', JStr ''john@gmail.com''), (''phone'', JStr ''+919876543210''), (''device_token'', JStr ''fcm-token-abc123'')]),
        (''content'', JObj
          [(''email'', JObj [(''subject'', JStr ''Payment Failed''), (''body'', JStr (''Your payment of '' @ RUPEE @ ''1299 failed. Please retry.''))]),
           (''sms'', JObj [(''body'', JStr (''Payment of '' @ RUPEE @ ''1299 failed. Retry now.''))]),
           (''push'', JObj [(''title'', JStr ''Payment Failed''), (''body'', JStr ''Your payment failed. Tap to retry.'')])])])"

definition payment_otp_event :: "string \<Rightarrow> string \<times> json" where
  "payment_otp_event u =
     (''payment.otp'', JObj
       [(''idempotency_key'', JStr (''payment-003-payment_otp_requested-'' @ u)),
        (''source_service'', JStr ''payment''),
        (''event_type'', JStr ''payment_otp_requested''),
        (''priority'', JStr ''critical''),
        (''recipient'', JObj [(''phone'', JStr ''+919876543210'')]),
        (''content'', JObj
          [(''sms'', JObj [(''body'', JStr ''Your OTP is 123456. Valid for 5 minutes. Do not share.'')])])])"

definition shipment_dispatched_event :: "string \<Rightarrow> string \<times> json" where
  "shipment_dispatched_event u =
     (''shipping.dispatched'', JObj
       [(''idempotency_key'', JStr (''shipping-001-shipment_dispatched-'' @ u)),
        (''source_service'', JStr ''shipping''),
        (''event_type'', JStr ''shipment_dispatched''),
        (''priority'', JStr ''medium''),
        (''recipient'', JObj [(''email'', JStr ''john@gmail.com''), (''device_token'', JStr ''fcm-token-abc123'')]),
        (''content'', JObj
          [(''email'', JObj [(''subject'', JStr ''Your order is on the way!''), (''body'', JStr ''Your order #001 has been dispatched. Track: TRK123456'')]),
           (''push'', JObj [(''title'', JStr ''Order Dispatched''), (''body'', JStr ''Your order is on the way!'')])])])"

text \<open>The list is built when the module is loaded: the uuids are drawn in its order.\<close>

definition SAMPLE_EVENTS :: "(host, (string \<times> json) list) io" where
  "SAMPLE_EVENTS =
     io_bind host_uuid8 (\<lambda>u1.
     io_bind host_uuid8 (\<lambda>u2.
     io_bind host_uuid8 (\<lambda>u3.
     io_bind host_uuid8 (\<lambda>u4.
     io_bind host_uuid8 (\<lambda>u5.
     io_return [order_created_event u1, payment_confirmed_event u2, payment_failed_event u3,
                payment_otp_event u4, shipment_dispatched_event u5])))))"

section \<open>Publishing\<close>

text \<open>The script's state: its host and the broker it talks to.\<close>

record 'q publisher =
  pb_host :: host
  pb_amqp :: 'q

definition on_pb_host :: "(host, 'a) io \<Rightarrow> ('q publisher, 'a) io" where
  "on_pb_host = io_zoom pb_host (\<lambda>h s. s\<lparr>pb_host := h\<rparr>)"

definition on_pb_amqp :: "('q, 'a) io \<Rightarrow> ('q publisher, 'a) io" where
  "on_pb_amqp = io_zoom pb_amqp (\<lambda>q s. s\<lparr>pb_amqp := q\<rparr>)"

definition event_message :: "json \<Rightarrow> amqp_message" where
  "event_message event =
     \<lparr>m_body = Body_json event, m_persistent = True, m_expiration = None,
      m_content_type = Some ''application/json''\<rparr>"

text \<open>The line that is printed after publishing reads \<open>event['event_type']\<close>.\<close>

definition publish_event :: "'q amqp \<Rightarrow> nat \<Rightarrow> string \<Rightarrow> json \<Rightarrow> ('q publisher, unit) io" where
  "publish_event A ch routing_key event =
     io_bind (on_pb_amqp (q_publish A ch EXCHANGE_NAME routing_key (event_message event))) (\<lambda>_.
     io_bind (io_of (json_get event ''event_type'')) (\<lambda>_.
     io_return ()))"

definition run_sample_events :: "'q amqp \<Rightarrow> (string \<times> json) list \<Rightarrow> ('q publisher, unit) io" where
  "run_sample_events A events =
     io_bind (on_pb_amqp (q_connect A)) (\<lambda>connection.
     io_finally
       (io_bind (on_pb_amqp (q_open_channel A connection)) (\<lambda>ch.
        io_bind (on_pb_amqp (q_declare_exchange A ch EXCHANGE_NAME Topic)) (\<lambda>_.
        io_foreach (\<lambda>(routing_key, event) _. publish_event A ch routing_key event) events ())))
       (on_pb_amqp (q_close A connection)))"

text \<open>The event of one round of the load test, with the two uuids it draws.\<close>

definition load_test_event :: "int \<Rightarrow> string \<Rightarrow> string \<Rightarrow> json" where
  "load_test_event i u v =
     JObj
       [(''idempotency_key'', JStr (''load-test-order-'' @ u)),
        (''source_service'', JStr ''order''),
        (''event_type'', JStr ''order_created''),
        (''priority'', JStr ''medium''),
        (''recipient'', JObj
          [(''email'', JStr (''user'' @ str_of_int i @ ''@gmail.com'')),
           (''device_token'', JStr (''fcm-token-'' @ v))]),
        (''content'', JObj
          [(''email'', JObj
             [(''subject'', JStr (''Order #'' @ str_of_int i @ '' Confirmed'')),
              (''body'', JStr (''Your order #'' @ str_of_int i @ '' has been confirmed.''))]),
           (''push'', JObj
             [(''title'', JStr ''Order Confirmed''),
              (''body'', JStr (''Order #'' @ str_of_int i @ '' confirmed.''))])])]"

definition load_test_round :: "'q amqp \<Rightarrow> nat \<Rightarrow> int \<Rightarrow> unit \<Rightarrow> ('q publisher, unit) io" where
  "load_test_round A ch i acc =
     io_bind (on_pb_host host_uuid8) (\<lambda>u.
     io_bind (on_pb_host host_uuid8) (\<lambda>v.
     publish_event A ch ''order.created'' (load_test_event i u v)))"

text \<open>
  \<open>run_load_test\<close> returns the rate in events per second. When the clock reads the same before
  and after, the division raises, inside the connection's context.
\<close>

definition load_test_rate :: "int \<Rightarrow> int \<Rightarrow> ('q publisher, real) io" where
  "load_test_rate count start =
     io_bind (on_pb_host host_now) (\<lambda>stop.
     let elapsed = real_of_int (stop - start) / 1000000
     in if elapsed = 0 then io_raise OtherException
        else io_return (real_of_int count / elapsed))"

definition load_test_body :: "'q amqp \<Rightarrow> int \<Rightarrow> nat \<Rightarrow> ('q publisher, real) io" where
  "load_test_body A count connection =
     io_bind (on_pb_amqp (q_open_channel A connection)) (\<lambda>ch.
     io_bind (on_pb_amqp (q_declare_exchange A ch EXCHANGE_NAME Topic)) (\<lambda>_.
     io_bind (on_pb_host host_now) (\<lambda>start.
     io_bind (io_foreach (load_test_round A ch) [0..count - 1] ()) (\<lambda>_.
     load_test_rate count start))))"

definition run_load_test :: "'q amqp \<Rightarrow> int \<Rightarrow> ('q publisher, real) io" where
  "run_load_test A count =
     io_bind (on_pb_amqp (q_connect A)) (\<lambda>connection.
     io_finally (load_test_body A count connection) (on_pb_amqp (q_close A connection)))"

text \<open>The entry point, after the arguments have been parsed.\<close>

definition publisher_main :: "'q amqp \<Rightarrow> bool \<Rightarrow> int \<Rightarrow> ('q publisher, unit) io" where
  "publisher_main A load_test count =
     io_bind (on_pb_host SAMPLE_EVENTS) (\<lambda>events.
     if load_test then io_bind (run_load_test A count) (\<lambda>_. io_return ())
     else run_sample_events A events)"

section \<open>The callback accepts the events\<close>

text \<open>What validation makes of the body of an event.\<close>

definition decodes_to ::
  "json \<Rightarrow> source_service_t \<Rightarrow> event_type_t \<Rightarrow> notification_priority \<Rightarrow> string \<Rightarrow> bool"
where
  "decodes_to body src ev prio key \<longleftrightarrow>
     (case payload_of_body body of Inl _ \<Rightarrow> False
      | Inr p \<Rightarrow> validated p src ev prio \<and> req_idempotency_key p = key)"

lemma decodes_toI:
  assumes "json_get body ''idempotency_key'' = Inr (JStr key)" "json_get body ''source_service'' = Inr (JStr s)"
    "json_get body ''event_type'' = Inr (JStr v)" "json_get_default body ''priority'' (JStr ''medium'') = Inr (JStr pr)"
    "json_get body ''recipient'' = Inr rcpt" "recipient_info_of_json rcpt = Inr r"
    "json_get body ''content'' = Inr (JObj cont)"
    and labels: "str_lower s = str_lower (source_name src)" "str_lower v = str_lower (event_name ev)"
      "str_lower pr = str_lower (priority_name prio)"
    and chans: "check_channels r cont (event_channels ev) = Inr ()"
  shows "decodes_to body src ev prio key"
proof -
  let ?p = "\<lparr>req_idempotency_key = key, req_source_service = s, req_event_type = v, req_priority = pr,
    req_recipient = r, req_content = cont\<rparr>"
  from chans have serves: "\<forall>c \<in> set (event_channels ev). serves ?p c"
    using check_channels_Inr [of ?p] by simp
  with labels have "acceptable ?p" unfolding acceptable_def by auto
  then have "payload_of_body body = Inr (lowered ?p)"
    using assms(1-7) by (simp add: payload_of_body_def notification_create_of_json_def init_Inr_iff)
  with labels serves show ?thesis
    by (simp add: decodes_to_def validated_def)
qed

lemma decodes_toD:
  assumes "decodes_to body src ev prio key"
  obtains p where "payload_of_body body = Inr p" "validated p src ev prio" "req_idempotency_key p = key"
  using assms by (auto simp: decodes_to_def split: sum.splits)

lemma sample_event_payloads:
  "decodes_to (snd (order_created_event u)) ORDER ORDER_CREATED HIGH (''order-001-order_created-'' @ u)"
  "decodes_to (snd (payment_confirmed_event u)) PAYMENT PAYMENT_CONFIRMED HIGH
     (''payment-001-payment_confirmed-'' @ u)"
  "decodes_to (snd (payment_failed_event u)) PAYMENT PAYMENT_FAILED HIGH (''payment-002-payment_failed-'' @ u)"
  "decodes_to (snd (payment_otp_event u)) PAYMENT PAYMENT_OTP_REQUESTED CRITICAL
     (''payment-003-payment_otp_requested-'' @ u)"
  "decodes_to (snd (shipment_dispatched_event u)) SHIPPING SHIPMENT_DISPATCHED MEDIUM
     (''shipping-001-shipment_dispatched-'' @ u)"
  unfolding order_created_event_def payment_confirmed_event_def payment_failed_event_def
    payment_otp_event_def shipment_dispatched_event_def
  by (rule decodes_toI, (simp; fail)+, code_simp, code_simp, code_simp, simp)+

lemma load_test_payload:
  "decodes_to (load_test_event i u v) ORDER ORDER_CREATED MEDIUM (''load-test-order-'' @ u)"
  unfolding load_test_event_def
  by (rule decodes_toI, (simp; fail)+, code_simp, code_simp, code_simp, simp)

text \<open>The sample events, with the events their bodies name.\<close>

lemma SAMPLE_EVENTS_run:
  obtains h' us where "SAMPLE_EVENTS h = (Inr
    [order_created_event (us 0), payment_confirmed_event (us 1), payment_failed_event (us 2),
     payment_otp_event (us 3), shipment_dispatched_event (us (4 :: nat))], h')"
proof -
  show thesis
    by (rule that [of "\<lambda>k. h_uuid h (h_tick h + k)"])
      (simp add: SAMPLE_EVENTS_def io_bind_def host_uuid8_def io_return_def numeral_eq_Suc)
qed

section \<open>What reaches the exchange\<close>

lemma on_pb_amqp_run: "m (pb_amqp s) = (x, q) \<Longrightarrow> on_pb_amqp m s = (x, s\<lparr>pb_amqp := q\<rparr>)"
  by (simp add: on_pb_amqp_def io_zoom_def)

lemma on_pb_amqp_cases:
  assumes "on_pb_amqp m s = (x, s')"
  obtains q where "m (pb_amqp s) = (x, q)" "s' = s\<lparr>pb_amqp := q\<rparr>"
  using assms by (auto simp: on_pb_amqp_def elim: io_zoom_cases)

lemma on_pb_host_cases:
  assumes "on_pb_host m s = (x, s')"
  obtains h where "m (pb_host s) = (x, h)" "s' = s\<lparr>pb_host := h\<rparr>"
  using assms by (auto simp: on_pb_host_def elim: io_zoom_cases)

abbreviation pb_published :: "'q amqp \<Rightarrow> 'q publisher \<Rightarrow> publication list" where
  "pb_published A s \<equiv> q_published A (pb_amqp s)"

text \<open>An event as it stands on the exchange.\<close>

definition event_publication :: "string \<times> json \<Rightarrow> publication" where
  "event_publication e = (EXCHANGE_NAME, fst e, event_message (snd e))"

text \<open>
  \<open>emits A msgs s x s'\<close>: a part of \<open>msgs\<close> from the front was published, and all of it if no
  exception was raised.
\<close>

definition emits ::
  "'q amqp \<Rightarrow> publication list \<Rightarrow> 'q publisher \<Rightarrow> py_exn + 'a \<Rightarrow> 'q publisher \<Rightarrow> bool"
where
  "emits A msgs s x s' \<longleftrightarrow>
     (\<exists>k \<le> length msgs. pb_published A s' = pb_published A s @ take k msgs \<and>
        (\<not> isl x \<longrightarrow> k = length msgs))"

lemma emits_Nil: "emits A [] s x s' \<longleftrightarrow> pb_published A s' = pb_published A s"
  by (simp add: emits_def)

lemma emits_Inl:
  assumes "emits A msgs s (Inl e) s'"
  shows "emits A (msgs @ later) s (Inl d) s'"
proof -
  from assms obtain k where "k \<le> length msgs" "pb_published A s' = pb_published A s @ take k msgs"
    unfolding emits_def by blast
  then show ?thesis unfolding emits_def by (intro exI [of _ k]) simp
qed

lemma emits_append:
  assumes "emits A ms s (Inr y) t" "emits A ns t x u"
  shows "emits A (ms @ ns) s x u"
proof -
  from assms(1) have t: "pb_published A t = pb_published A s @ ms" by (auto simp: emits_def)
  from assms(2) obtain k where k: "k \<le> length ns" "pb_published A u = pb_published A t @ take k ns"
    "\<not> isl x \<longrightarrow> k = length ns" unfolding emits_def by blast
  with t show ?thesis
    unfolding emits_def by (intro exI [of _ "length ms + k"]) simp
qed

lemma emits_bind:
  assumes "\<And>x t. m s = (x, t) \<Longrightarrow> emits A ms s x t"
    and "\<And>y t. m s = (Inr y, t) \<Longrightarrow> f y t = (x, u) \<Longrightarrow> emits A ns t x u"
    and "io_bind m f s = (x, u)"
  shows "emits A (ms @ ns) s x u"
  using assms(3)
proof (cases rule: io_bind_cases)
  case (raised e)
  with assms(1) [of "Inl e" u] show ?thesis by (simp add: emits_Inl)
next
  case (returned y t)
  with assms(1,2) show ?thesis by (blast intro: emits_append)
qed

lemma emits_quiet:
  assumes "q_quiet A m" "on_pb_amqp m s = (x, t)"
  shows "emits A [] s x t"
  using assms by (auto simp: emits_Nil q_quiet_def elim!: on_pb_amqp_cases)

lemma emits_host: "on_pb_host m s = (x, t) \<Longrightarrow> emits A [] s x t"
  by (auto simp: emits_Nil elim!: on_pb_host_cases)

lemma emits_pure: "io_of v s = (x, t) \<Longrightarrow> emits A [] s x t"
  by (auto simp: emits_Nil io_of_def io_raise_def io_return_def split: sum.splits)

lemma emits_return: "io_return y s = (x, t) \<Longrightarrow> emits A [] s x t"
  by (auto simp: emits_Nil io_return_def)

lemma publish_event_emits:
  assumes laws: "amqp_laws A" and run: "publish_event A ch rk e s = (x, t)"
  shows "emits A [event_publication (rk, e)] s x t"
proof -
  have 1: "emits A [event_publication (rk, e)] s y u"
    if "on_pb_amqp (q_publish A ch EXCHANGE_NAME rk (event_message e)) s = (y, u)" for y u
  proof -
    from that obtain q where q: "q_publish A ch EXCHANGE_NAME rk (event_message e) (pb_amqp s) = (y, q)"
      and u: "u = s\<lparr>pb_amqp := q\<rparr>" by (rule on_pb_amqp_cases)
    note law = publish_law(1,2) [OF laws q]
    show ?thesis
    proof (cases y)
      case (Inl err)
      with law(2) have "\<exists>k \<le> 1. pb_published A u = pb_published A s @ take k [event_publication (rk, e)]"
        by (auto simp: u event_publication_def intro: exI [of _ 0] exI [of _ 1])
      then show ?thesis using Inl by (auto simp: emits_def)
    next
      case (Inr z)
      with law(1) show ?thesis by (auto simp: emits_def u event_publication_def)
    qed
  qed
  have "emits A ([event_publication (rk, e)] @ []) s x t"
  proof (rule emits_bind [OF 1 _ run [unfolded publish_event_def]])
    fix y u
    assume "io_bind (io_of (json_get e ''event_type'')) (\<lambda>_. io_return ()) u = (x, t)"
    then show "emits A [] u x t"
      by (auto simp: emits_Nil io_bind_def io_of_def io_raise_def io_return_def split: sum.splits)
  qed
  then show ?thesis by simp
qed

lemma foreach_emits:
  assumes "\<And>x acc s r t. x \<in> set xs \<Longrightarrow> f x acc s = (r, t) \<Longrightarrow> emits A (g x) s r t"
    and "io_foreach f xs acc s = (r, t)"
  shows "emits A (concat (map g xs)) s r t"
  using assms
proof (induction xs arbitrary: acc s)
  case Nil
  then show ?case by (simp add: emits_return)
next
  case (Cons y ys)
  have "emits A (g y @ concat (map g ys)) s r t"
    by (rule emits_bind [OF _ _ Cons.prems(2) [unfolded io_foreach.simps]], simp add: Cons.prems(1),
        rule Cons.IH, simp_all add: Cons.prems(1))
  then show ?case by simp
qed

lemma finally_emits:
  assumes "\<And>r t. m s = (r, t) \<Longrightarrow> emits A ms s r t"
    and "\<And>t r u. fin t = (r, u) \<Longrightarrow> emits A [] t r u"
    and "io_finally m fin s = (r, u)"
  shows "emits A ms s r u"
proof -
  obtain q t where m: "m s = (q, t)" by (cases "m s")
  obtain q' u' where fin: "fin t = (q', u')" by (cases "fin t")
  from assms(3) m fin have "u = u'" "\<not> isl r \<Longrightarrow> \<not> isl q"
    by (auto simp: io_finally_def split: sum.splits)
  with assms(1) [OF m] assms(2) [OF fin] show ?thesis by (auto simp: emits_def)
qed

lemma finally_emits_ex:
  assumes "\<And>r t. m s = (r, t) \<Longrightarrow> \<exists>ms. P ms \<and> emits A ms s r t"
    and "\<And>t r u. fin t = (r, u) \<Longrightarrow> emits A [] t r u"
    and "io_finally m fin s = (r, u)"
  shows "\<exists>ms. P ms \<and> emits A ms s r u"
proof -
  obtain q t where m: "m s = (q, t)" by (cases "m s")
  from assms(1) [OF m] obtain ms where ms: "P ms" "emits A ms s q t" by blast
  have "emits A ms s r u"
    by (rule finally_emits [OF _ assms(2,3)]) (use m ms in auto)
  with ms(1) show ?thesis by blast
qed

lemma run_sample_events_emits:
  assumes laws: "amqp_laws A" and run: "run_sample_events A events s = (x, s')"
  shows "emits A (map event_publication events) s x s'"
proof -
  have loop: "emits A (map event_publication events) t r u"
    if "io_foreach (\<lambda>(routing_key, event) _. publish_event A ch routing_key event) events () t = (r, u)"
    for ch t r u
  proof -
    have "emits A (concat (map (\<lambda>e. [event_publication e]) events)) t r u"
      using that by (rule foreach_emits [rotated]) (auto intro: publish_event_emits [OF laws])
    then show ?thesis by simp
  qed
  note quiet = emits_quiet [OF quiet_laws(1) [OF laws]] emits_quiet [OF quiet_laws(2) [OF laws]]
    emits_quiet [OF quiet_laws(6) [OF laws]] emits_quiet [OF quiet_laws(10) [OF laws]]
  note after = emits_bind [where ms = "[]", simplified]
  from run show ?thesis
    unfolding run_sample_events_def
    by (rule after [rotated 2]) (erule quiet, erule finally_emits [rotated 2],
      erule after [rotated 2], erule quiet, erule after [rotated 2], erule quiet, erule loop, erule quiet)
qed

section \<open>The load test\<close>

text \<open>The publications of the rounds, whose uuids depend on the state they start from.\<close>

definition load_test_publication :: "int \<Rightarrow> publication \<Rightarrow> bool" where
  "load_test_publication i m \<longleftrightarrow>
     (\<exists>u v. m = event_publication (''order.created'', load_test_event i u v))"

lemma load_test_round_emits:
  assumes laws: "amqp_laws A" and run: "load_test_round A ch i acc s = (x, t)"
  shows "\<exists>m. load_test_publication i m \<and> emits A [m] s x t"
proof -
  obtain u s1 where u: "on_pb_host host_uuid8 s = (Inr u, s1)"
    by (simp add: on_pb_host_def io_zoom_def host_uuid8_def)
  obtain v s2 where v: "on_pb_host host_uuid8 s1 = (Inr v, s2)"
    by (simp add: on_pb_host_def io_zoom_def host_uuid8_def)
  have "publish_event A ch ''order.created'' (load_test_event i u v) s2 = (x, t)"
    using run u v by (simp add: load_test_round_def io_bind_def)
  from publish_event_emits [OF laws this] have
    "emits A [event_publication (''order.created'', load_test_event i u v)] s x t"
    using emits_append [OF emits_host [OF u]] emits_append [OF emits_host [OF v]] by fastforce
  then show ?thesis unfolding load_test_publication_def by blast
qed

lemma rounds_emit:
  fixes f :: "'x \<Rightarrow> 'c \<Rightarrow> ('q publisher, 'c) io"
  assumes "\<And>x acc s r t. f x acc s = (r, t) \<Longrightarrow> \<exists>m. P x m \<and> emits A [m] s r t"
    and "io_foreach f xs acc s = (r, t)"
  shows "\<exists>ms. list_all2 P xs ms \<and> emits A ms s r t"
  using assms(2)
proof (induction xs arbitrary: acc s)
  case Nil
  then have "emits A [] s r t" by (simp add: emits_return)
  then show ?case by auto
next
  case (Cons y ys)
  have inhabited: "\<exists>ms. list_all2 P zs ms" for zs
  proof (induction zs)
    case (Cons z zs)
    obtain r' t' where "f z acc s = (r', t')" by (cases "f z acc s")
    from assms(1) [OF this] Cons show ?case by (metis list_all2_Cons)
  qed simp
  from Cons.prems show ?case
  proof (cases rule: io_bind_cases [OF Cons.prems [unfolded io_foreach.simps]])
    case (1 e)
    from assms(1) [OF 1(1)] obtain m where
      m: "P y m" "emits A [m] s (Inl e :: py_exn + 'c) t" by blast
    from inhabited obtain ms where "list_all2 P ys ms" by blast
    with m emits_Inl [OF m(2), of ms e] 1(2) show ?thesis by (intro exI [of _ "m # ms"]) simp
  next
    case (2 acc' u)
    from assms(1) [OF 2(1)] obtain m where
      m: "P y m" "emits A [m] s (Inr acc' :: py_exn + 'c) u" by blast
    from Cons.IH [OF 2(2)] obtain ms where "list_all2 P ys ms" "emits A ms u r t" by blast
    with m emits_append [OF m(2)] show ?thesis by (intro exI [of _ "m # ms"]) simp
  qed
qed

lemma emits_after_quiet:
  assumes "\<And>x t. m s = (x, t) \<Longrightarrow> emits A [] s x t" "\<exists>ms. P ms"
    and "\<And>y t. m s = (Inr y, t) \<Longrightarrow> f y t = (x, u) \<Longrightarrow> \<exists>ms. P ms \<and> emits A ms t x u"
    and "io_bind m f s = (x, u)"
  shows "\<exists>ms. P ms \<and> emits A ms s x u"
  using assms(4)
proof (cases rule: io_bind_cases)
  case (raised e)
  with assms(1) [of "Inl e" u] assms(2) show ?thesis by (metis append_Nil emits_Inl)
next
  case (returned y t)
  from assms(3) [OF this] obtain ms where "P ms" "emits A ms t x u" by blast
  with emits_append [OF assms(1) [OF returned(1)]] show ?thesis by (metis append_Nil)
qed

lemma emits_before_quiet:
  assumes "\<And>x t. m s = (x, t) \<Longrightarrow> \<exists>ms. P ms \<and> emits A ms s x t"
    and "\<And>y t x u. f y t = (x, u) \<Longrightarrow> emits A [] t x u"
    and "io_bind m f s = (x, u)"
  shows "\<exists>ms. P ms \<and> emits A ms s x u"
  using assms(3)
proof (cases rule: io_bind_cases)
  case (raised e)
  with assms(1) [of "Inl e" u] show ?thesis by (metis append_Nil2 emits_Inl)
next
  case (returned y t)
  from assms(1) [OF returned(1)] obtain ms where ms: "P ms" "emits A ms s (Inr y) t" by blast
  from emits_append [OF ms(2) assms(2) [OF returned(2)]] ms(1) show ?thesis by auto
qed

lemma load_test_publications: "\<exists>ms. list_all2 load_test_publication is ms"
proof (induction "is")
  case (Cons i js)
  moreover have "\<exists>m. load_test_publication i m" unfolding load_test_publication_def by blast
  ultimately show ?case by (metis list_all2_Cons)
qed simp

lemma load_test_loop_emits:
  assumes laws: "amqp_laws A" and run: "io_foreach (load_test_round A ch) [0..count - 1] () s = (r, t)"
  shows "\<exists>ms. list_all2 load_test_publication [0..count - 1] ms \<and> emits A ms s r t"
  using load_test_round_emits [OF laws] run by (rule rounds_emit)

lemma run_load_test_emits:
  assumes laws: "amqp_laws A" and run: "run_load_test A count s = (x, s')"
  shows "\<exists>ms. list_all2 load_test_publication [0..count - 1] ms \<and> emits A ms s x s'"
proof -
  let ?P = "list_all2 load_test_publication [0..count - 1]"
  note quiet = emits_quiet [OF quiet_laws(1) [OF laws]] emits_quiet [OF quiet_laws(2) [OF laws]]
    emits_quiet [OF quiet_laws(6) [OF laws]]
  note after = emits_after_quiet [where P = ?P, OF _ load_test_publications]
  have tail: "emits A [] t r u" if "load_test_rate count start t = (r, u)" for start t r u
    by (rule emits_bind [where ms = "[]" and ns = "[]", unfolded append_Nil,
          OF emits_host _ that [unfolded load_test_rate_def]], assumption)
      (auto simp: emits_Nil Let_def io_raise_def io_return_def split: if_splits)
  have loop: "\<exists>ms. ?P ms \<and> emits A ms t r u"
    if "io_foreach (load_test_round A ch) [0..count - 1] () t = (r, u)" for ch t r u
    using laws that by (rule load_test_loop_emits)
  have body: "\<exists>ms. ?P ms \<and> emits A ms t r u" if "load_test_body A count connection t = (r, u)"
    for connection t r u
    using that unfolding load_test_body_def
    by (rule after [rotated 2]) (erule quiet, erule after [rotated 2], erule quiet,
        erule after [rotated 2], erule emits_host, erule emits_before_quiet [rotated 2], erule loop, erule tail)
  have close: "emits A [] t r u" if "on_pb_amqp (q_close A connection) t = (r, u)" for connection t r u
    using quiet_laws(10) [OF laws] that by (rule emits_quiet)
  from run show ?thesis
    unfolding run_load_test_def
    by (rule after [rotated 2]) (erule quiet, erule finally_emits_ex [rotated 2], erule body, erule close)
qed

section \<open>While the broker answers\<close>

definition pb_up :: "'q amqp \<Rightarrow> 'q publisher \<Rightarrow> bool" where
  "pb_up A s \<longleftrightarrow> q_up A (pb_amqp s)"

text \<open>\<open>returns A m\<close>: run where the broker answers, \<open>m\<close> returns and the broker still does.\<close>

definition returns :: "'q amqp \<Rightarrow> ('q publisher, 'a) io \<Rightarrow> bool" where
  "returns A m \<longleftrightarrow> (\<forall>s. pb_up A s \<longrightarrow> (\<exists>y t. m s = (Inr y, t) \<and> pb_up A t))"

lemma returnsD: "returns A m \<Longrightarrow> pb_up A s \<Longrightarrow> m s = (x, t) \<Longrightarrow> (\<exists>y. x = Inr y) \<and> pb_up A t"
  by (fastforce simp: returns_def)

lemma returns_answers: "q_answers A m \<Longrightarrow> returns A (on_pb_amqp m)"
  unfolding returns_def pb_up_def q_answers_def
  by (auto simp: on_pb_amqp_def io_zoom_def split: prod.splits)

lemma returns_return: "returns A (io_return y)"
  by (simp add: returns_def io_return_def)

lemma returns_host: "(\<And>h. \<exists>y h'. m h = (Inr y, h')) \<Longrightarrow> returns A (on_pb_host m)"
  unfolding returns_def pb_up_def on_pb_host_def io_zoom_def by (auto split: prod.splits) (metis prod.inject)

lemma returns_bind: "returns A m \<Longrightarrow> (\<And>y. returns A (f y)) \<Longrightarrow> returns A (io_bind m f)"
  unfolding returns_def by (fastforce simp: io_bind_def)

lemma returns_finally: "returns A m \<Longrightarrow> returns A fin \<Longrightarrow> returns A (io_finally m fin)"
  unfolding returns_def by (fastforce simp: io_finally_def)

lemma returns_foreach: "(\<And>x acc. x \<in> set xs \<Longrightarrow> returns A (f x acc)) \<Longrightarrow> returns A (io_foreach f xs acc)"
  by (induction xs arbitrary: acc) (auto intro: returns_return returns_bind)

lemma returns_publish_event:
  assumes "amqp_laws A" "json_get e ''event_type'' = Inr j"
  shows "returns A (publish_event A ch rk e)"
  unfolding publish_event_def assms(2) io_of_simps
  by (intro returns_bind returns_answers up_laws(4) [OF assms(1)] returns_return)

lemma run_sample_events_returns:
  assumes laws: "amqp_laws A" and events: "\<And>rk e. (rk, e) \<in> set events \<Longrightarrow> \<exists>j. json_get e ''event_type'' = Inr j"
  shows "returns A (run_sample_events A events)"
  unfolding run_sample_events_def
  by (intro returns_bind returns_finally returns_answers returns_foreach up_laws(1,2,6,9) [OF laws])
    (auto dest!: events intro: returns_publish_event [OF laws])

lemma load_test_event_type: "json_get (load_test_event i u v) ''event_type'' = Inr (JStr ''order_created'')"
  by (simp add: load_test_event_def)

lemma returns_round: "amqp_laws A \<Longrightarrow> returns A (load_test_round A ch i acc)"
  unfolding load_test_round_def
  by (intro returns_bind returns_host returns_publish_event [OF _ load_test_event_type])
    (simp_all add: host_uuid8_def)

text \<open>The load test publishes every event, and then returns the rate or divides by zero.\<close>

lemma emits_all: "emits A ms s (Inr y) t \<Longrightarrow> pb_published A t = pb_published A s @ ms"
  by (auto simp: emits_def)

lemma load_test_body_up:
  assumes laws: "amqp_laws A" and up: "pb_up A s" and run: "load_test_body A count connection s = (x, t)"
  shows "\<exists>ms. list_all2 load_test_publication [0..count - 1] ms \<and> pb_published A t = pb_published A s @ ms"
proof -
  obtain ch s1 where 1: "on_pb_amqp (q_open_channel A connection) s = (Inr ch, s1)" "pb_up A s1"
    using returns_answers [OF up_laws(2) [OF laws]] up unfolding returns_def by blast
  obtain u s2 where 2: "on_pb_amqp (q_declare_exchange A ch EXCHANGE_NAME Topic) s1 = (Inr u, s2)" "pb_up A s2"
    using returns_answers [OF up_laws(6) [OF laws]] 1(2) unfolding returns_def by blast
  obtain start s3 where 3: "on_pb_host host_now s2 = (Inr start, s3)" "pb_up A s3"
    using 2(2) by (simp add: on_pb_host_def io_zoom_def host_now_def pb_up_def)
  have loop: "returns A (io_foreach (load_test_round A ch) [0..count - 1] ())"
    by (intro returns_foreach returns_round laws)
  obtain v s4 where 4: "io_foreach (load_test_round A ch) [0..count - 1] () s3 = (Inr v, s4)"
    using loop 3(2) unfolding returns_def by blast
  from load_test_loop_emits [OF laws 4] obtain ms where
    ms: "list_all2 load_test_publication [0..count - 1] ms" "emits A ms s3 (Inr v) s4" by blast
  from run 1(1) 2(1) 3(1) 4 have "load_test_rate count start s4 = (x, t)"
    by (simp add: load_test_body_def io_bind_def)
  then have "pb_published A t = pb_published A s4"
    by (auto simp: load_test_rate_def Let_def io_raise_def io_return_def split: if_splits
        elim!: io_bind_cases on_pb_host_cases)
  then show ?thesis
    using ms emits_all [OF ms(2)] emits_all [OF emits_quiet [OF quiet_laws(2) [OF laws] 1(1)]]
      emits_all [OF emits_quiet [OF quiet_laws(6) [OF laws] 2(1)]] emits_all [OF emits_host [OF 3(1)]]
    by auto
qed

lemma run_load_test_up:
  assumes laws: "amqp_laws A" and up: "pb_up A s" and run: "run_load_test A count s = (x, s')"
  shows "\<exists>ms. list_all2 load_test_publication [0..count - 1] ms \<and> pb_published A s' = pb_published A s @ ms"
proof -
  obtain c s1 where 1: "on_pb_amqp (q_connect A) s = (Inr c, s1)" "pb_up A s1"
    using returns_answers [OF up_laws(1) [OF laws]] up unfolding returns_def by blast
  obtain y s2 where 2: "load_test_body A count c s1 = (y, s2)" by (cases "load_test_body A count c s1")
  obtain z s3 where 3: "on_pb_amqp (q_close A c) s2 = (z, s3)" by (cases "on_pb_amqp (q_close A c) s2")
  from run 1(1) 2 3 have "s' = s3"
    by (auto simp: run_load_test_def io_bind_def io_finally_def split: sum.splits)
  moreover have "pb_published A s3 = pb_published A s2" "pb_published A s1 = pb_published A s"
    using emits_quiet [OF quiet_laws(10) [OF laws] 3] emits_quiet [OF quiet_laws(1) [OF laws] 1(1)]
    by (simp_all add: emits_Nil)
  ultimately show ?thesis using load_test_body_up [OF laws 1(2) 2] by simp
qed

end
