(* ===== verification/Publisher_Properties.thy ===== *)
theory Publisher_Properties
  imports Publisher Sample_Data
begin

text \<open>
  Properties of the publisher script (\<open>Publisher\<close>) and of its events on their way through the
  callback of \<open>Rabbit_Handler\<close>, each with an instance.
\<close>

section \<open>Sample events\<close>

text \<open>
  The documented rule of a topic exchange, as far as the code's patterns use it: a star stands for
  exactly one word.
\<close>

definition topic_law :: "(string \<Rightarrow> string \<Rightarrow> bool) \<Rightarrow> bool" where
  "topic_law matches \<longleftrightarrow>
     (\<forall>u v w. CHR ''.'' \<notin> set u \<and> CHR ''.'' \<notin> set v \<and> CHR ''.'' \<notin> set w \<and> u \<noteq> [] \<and> v \<noteq> [] \<and> w \<noteq> [] \<longrightarrow>
       (matches (u @ ''.*'') (v @ ''.'' @ w) \<longleftrightarrow> u = v))"

text \<open>Exactly one of the bound patterns takes a key whose first word is one of the three services.\<close>

lemma routing_patterns: "ROUTING_KEYS = map (\<lambda>u. u @ ''.*'') [''order'', ''payment'', ''shipping'']"
  by (simp add: ROUTING_KEYS_def)

lemma topic_patterns:
  assumes law: "topic_law matches" and v: "v \<in> {''order'', ''payment'', ''shipping''}"
    and w: "CHR ''.'' \<notin> set w" "w \<noteq> []"
  shows "filter (\<lambda>p. matches p (v @ ''.'' @ w)) ROUTING_KEYS = [v @ ''.*'']"
proof -
  let ?services = "[''order'', ''payment'', ''shipping'']"
  have m: "matches (u @ ''.*'') (v @ ''.'' @ w) \<longleftrightarrow> u = v" if "u \<in> set ?services" for u
  proof -
    have "CHR ''.'' \<notin> set u \<and> CHR ''.'' \<notin> set v \<and> CHR ''.'' \<notin> set w \<and> u \<noteq> [] \<and> v \<noteq> [] \<and> w \<noteq> []"
      using that v w by auto
    with law show ?thesis unfolding topic_law_def by blast
  qed
  have "filter (\<lambda>p. matches p (v @ ''.'' @ w)) (map (\<lambda>u. u @ ''.*'') ?services) =
      map (\<lambda>u. u @ ''.*'') (filter (\<lambda>u. u = v) ?services)"
    unfolding filter_map o_def by (rule arg_cong [where f = "map _"], rule filter_cong [OF refl], rule m)
  also have "filter (\<lambda>u. u = v) ?services = [v]" using v by auto
  finally show ?thesis by (simp add: routing_patterns)
qed

lemma sample_event_shape:
  assumes "SAMPLE_EVENTS h = (Inr events, h')" "(routing_key, body) \<in> set events"
  shows "\<exists>v w. routing_key = v @ ''.'' @ w \<and> v \<in> {''order'', ''payment'', ''shipping''} \<and>
    CHR ''.'' \<notin> set w \<and> w \<noteq> [] \<and> (\<exists>src ev prio key. decodes_to body src ev prio key)"
proof -
  have shape: ?thesis if "(routing_key, body) = e" "fst e = v @ ''.'' @ w" "v \<in> {''order'', ''payment'', ''shipping''}"
    "CHR ''.'' \<notin> set w" "w \<noteq> []" "decodes_to (snd e) src ev prio key" for e v w src ev prio key
    using that by (metis fst_conv snd_conv)
  obtain us h'' where "SAMPLE_EVENTS h = (Inr
    [order_created_event (us 0), payment_confirmed_event (us 1), payment_failed_event (us 2),
     payment_otp_event (us 3), shipment_dispatched_event (us (4 :: nat))], h'')"
    by (rule SAMPLE_EVENTS_run)
  with assms consider "(routing_key, body) = order_created_event (us 0)"
    | "(routing_key, body) = payment_confirmed_event (us 1)" | "(routing_key, body) = payment_failed_event (us 2)"
    | "(routing_key, body) = payment_otp_event (us 3)" | "(routing_key, body) = shipment_dispatched_event (us 4)"
    by auto
  then show ?thesis
  proof cases
    case 1
    then show ?thesis by (rule shape [where v = "''order''" and w = "''created''"])
        (rule sample_event_payloads | simp add: order_created_event_def)+
  next
    case 2
    then show ?thesis by (rule shape [where v = "''payment''" and w = "''confirmed''"])
        (rule sample_event_payloads | simp add: payment_confirmed_event_def)+
  next
    case 3
    then show ?thesis by (rule shape [where v = "''payment''" and w = "''failed''"])
        (rule sample_event_payloads | simp add: payment_failed_event_def)+
  next
    case 4
    then show ?thesis by (rule shape [where v = "''payment''" and w = "''otp''"])
        (rule sample_event_payloads | simp add: payment_otp_event_def)+
  next
    case 5
    then show ?thesis by (rule shape [where v = "''shipping''" and w = "''dispatched''"])
        (rule sample_event_payloads | simp add: shipment_dispatched_event_def)+
  qed
qed

text \<open>Every sample event is taken by exactly one of the bound patterns, its routing key's first word
  being a service, and its body is a request the callback accepts.\<close>

theorem sample_events_reach_the_service:
  assumes law: "topic_law matches" and run: "SAMPLE_EVENTS h = (Inr events, h')"
    and event: "(routing_key, body) \<in> set events"
  shows "\<exists>pattern p src ev prio. filter (\<lambda>q. matches q routing_key) ROUTING_KEYS = [pattern] \<and>
    payload_of_body body = Inr p \<and> validated p src ev prio"
proof -
  from sample_event_shape [OF run event] obtain v w where
    key: "routing_key = v @ ''.'' @ w" "v \<in> {''order'', ''payment'', ''shipping''}" "CHR ''.'' \<notin> set w" "w \<noteq> []"
    and body: "\<exists>src ev prio key. decodes_to body src ev prio key" by blast
  from body obtain p src ev prio where "payload_of_body body = Inr p" "validated p src ev prio"
    by (blast elim: decodes_toD)
  with topic_patterns [OF law key(2-4)] key(1) show ?thesis by blast
qed

definition first_word_topic :: "string \<Rightarrow> string \<Rightarrow> bool" where
  "first_word_topic p k \<longleftrightarrow> takeWhile (\<lambda>c. c \<noteq> CHR ''.'') p = takeWhile (\<lambda>c. c \<noteq> CHR ''.'') k"

lemma first_word_topic_law: "topic_law first_word_topic"
proof -
  have "takeWhile (\<lambda>c. c \<noteq> CHR ''.'') (u @ CHR ''.'' # rest) = u" if "CHR ''.'' \<notin> set u" for u rest
    using that by (induction u) auto
  then show ?thesis by (simp add: topic_law_def first_word_topic_def)
qed

theorem sample_events_reach_the_service_witness:
  "\<exists>u pattern p. filter (\<lambda>q. first_word_topic q ''payment.otp'') ROUTING_KEYS = [pattern] \<and>
     payload_of_body (snd (payment_otp_event u)) = Inr p"
proof -
  obtain us h' where run: "SAMPLE_EVENTS ref_host = (Inr
    [order_created_event (us 0), payment_confirmed_event (us 1), payment_failed_event (us 2),
     payment_otp_event (us 3), shipment_dispatched_event (us (4 :: nat))], h')"
    by (rule SAMPLE_EVENTS_run)
  have "(''payment.otp'', snd (payment_otp_event (us 3))) = payment_otp_event (us 3)"
    by (simp add: payment_otp_event_def)
  then have "(''payment.otp'', snd (payment_otp_event (us 3))) \<in> set
    [order_created_event (us 0), payment_confirmed_event (us 1), payment_failed_event (us 2),
     payment_otp_event (us 3), shipment_dispatched_event (us (4 :: nat))]" by simp
  from sample_events_reach_the_service [OF first_word_topic_law run this] show ?thesis by blast
qed

section \<open>Publishing\<close>

text \<open>The script publishes its events in order, each once: whatever fails, what is on the exchange is a
  part of them from the front, and all of them when the broker answers.\<close>

theorem sample_events_are_published_in_order:
  assumes laws: "amqp_laws A" and run: "run_sample_events A events s = (x, s')"
  shows "\<exists>k \<le> length events.
    q_published A (pb_amqp s') = q_published A (pb_amqp s) @
      map (\<lambda>(routing_key, body). (EXCHANGE_NAME, routing_key, event_message body)) (take k events) \<and>
    (q_up A (pb_amqp s) \<and> (\<forall>(routing_key, body) \<in> set events. \<exists>j. json_get body ''event_type'' = Inr j) \<longrightarrow>
       x = Inr () \<and> k = length events)"
proof -
  have pub: "event_publication = (\<lambda>(routing_key, body). (EXCHANGE_NAME, routing_key, event_message body))"
    by (auto simp: event_publication_def)
  from run_sample_events_emits [OF laws run] obtain k where k: "k \<le> length events"
    "q_published A (pb_amqp s') = q_published A (pb_amqp s) @ map event_publication (take k events)"
    "\<not> isl x \<longrightarrow> k = length events" by (auto simp: emits_def take_map)
  have "x = Inr ()" if "q_up A (pb_amqp s)" "\<forall>(routing_key, body) \<in> set events. \<exists>j. json_get body ''event_type'' = Inr j"
  proof -
    have "returns A (run_sample_events A events)"
      by (rule run_sample_events_returns [OF laws]) (use that(2) in auto)
    from returnsD [OF this _ run] that(1) show ?thesis by (auto simp: pb_up_def)
  qed
  with k show ?thesis by (auto simp: pub [symmetric])
qed

definition ref_publisher :: "ref_amqp publisher" where
  "ref_publisher = \<lparr>pb_host = ref_host, pb_amqp = svc_amqp (w_svc ref_init)\<rparr>"

lemma ref_publisher_up: "q_up ref_amqp_ops (pb_amqp ref_publisher)" "q_published ref_amqp_ops (pb_amqp ref_publisher) = []"
  by (simp_all add: ref_publisher_def ref_init_def ref_amqp_ops_def)

theorem sample_events_are_published_in_order_witness:
  "\<exists>s'. run_sample_events ref_amqp_ops [payment_otp_event ''0000abcd''] ref_publisher = (Inr (), s') \<and>
     map (fst \<circ> snd) (q_published ref_amqp_ops (pb_amqp s')) = [''payment.otp'']"
proof -
  obtain x s' where run: "run_sample_events ref_amqp_ops [payment_otp_event ''0000abcd''] ref_publisher = (x, s')"
    by (cases "run_sample_events ref_amqp_ops [payment_otp_event ''0000abcd''] ref_publisher")
  have "\<forall>(routing_key, body) \<in> set [payment_otp_event ''0000abcd'']. \<exists>j. json_get body ''event_type'' = Inr j"
    by (simp add: payment_otp_event_def)
  with sample_events_are_published_in_order [OF ref_amqp_laws run] ref_publisher_up
  have "x = Inr ()" "q_published ref_amqp_ops (pb_amqp s') =
      map (\<lambda>(routing_key, body). (EXCHANGE_NAME, routing_key, event_message body)) [payment_otp_event ''0000abcd'']"
    by auto
  with run show ?thesis by (simp add: payment_otp_event_def)
qed

text \<open>The load test publishes order events numbered from zero, each of which the callback accepts:
  whatever fails, at most as many as asked for, and exactly as many when the broker answers, even
  when the rate cannot be computed.\<close>

theorem load_test_publishes_valid_orders:
  assumes laws: "amqp_laws A" and run: "run_load_test A count s = (x, s')"
  shows "\<exists>us vs. (\<exists>k \<le> nat count. q_published A (pb_amqp s') = q_published A (pb_amqp s) @
      map (\<lambda>i. (EXCHANGE_NAME, ''order.created'', event_message (load_test_event (int i) (us i) (vs i)))) [0..<k] \<and>
      (q_up A (pb_amqp s) \<or> \<not> isl x \<longrightarrow> k = nat count)) \<and>
    (\<forall>i. \<exists>p. payload_of_body (load_test_event (int i) (us i) (vs i)) = Inr p \<and>
      validated p ORDER ORDER_CREATED MEDIUM)"
proof -
  have "\<exists>ms k. list_all2 load_test_publication [0..count - 1] ms \<and> k \<le> length ms \<and>
      q_published A (pb_amqp s') = q_published A (pb_amqp s) @ take k ms \<and>
      (q_up A (pb_amqp s) \<or> \<not> isl x \<longrightarrow> k = length ms)"
  proof (cases "q_up A (pb_amqp s)")
    case True
    with run_load_test_up [OF laws _ run] show ?thesis by (auto simp: pb_up_def)
  next
    case False
    with run_load_test_emits [OF laws run] show ?thesis by (auto simp: emits_def)
  qed
  then obtain ms k where ms: "list_all2 load_test_publication [0..count - 1] ms" and k: "k \<le> length ms"
    and pub: "q_published A (pb_amqp s') = q_published A (pb_amqp s) @ take k ms"
      "q_up A (pb_amqp s) \<or> \<not> isl x \<longrightarrow> k = length ms" by blast
  have len: "length ms = nat count" using list_all2_lengthD [OF ms] by simp
  have "\<exists>u v. ms ! i = (EXCHANGE_NAME, ''order.created'', event_message (load_test_event (int i) u v))"
    if "i < nat count" for i
    using list_all2_nthD [OF ms, of i] that by (auto simp: load_test_publication_def event_publication_def)
  then obtain us vs where "\<And>i. i < nat count \<Longrightarrow>
      ms ! i = (EXCHANGE_NAME, ''order.created'', event_message (load_test_event (int i) (us i) (vs i)))"
    by metis
  with k len have "take k ms = map (\<lambda>i. (EXCHANGE_NAME, ''order.created'',
      event_message (load_test_event (int i) (us i) (vs i)))) [0..<k]"
    by (intro nth_equalityI) simp_all
  moreover have "\<exists>p. payload_of_body (load_test_event i u v) = Inr p \<and> validated p ORDER ORDER_CREATED MEDIUM"
    for i u v using load_test_payload by (blast elim: decodes_toD)
  ultimately show ?thesis using k pub len by (intro exI [of _ us] exI [of _ vs]) auto
qed

theorem load_test_publishes_valid_orders_witness:
  "length (q_published ref_amqp_ops (pb_amqp (snd (run_load_test ref_amqp_ops 100 ref_publisher)))) = 100"
proof -
  obtain x s' where run: "run_load_test ref_amqp_ops 100 ref_publisher = (x, s')"
    by (cases "run_load_test ref_amqp_ops 100 ref_publisher")
  from load_test_publishes_valid_orders [OF ref_amqp_laws run] ref_publisher_up
  have "length (q_published ref_amqp_ops (pb_amqp s')) = 100" by auto
  with run show ?thesis by simp
qed

section \<open>From the exchange to the table\<close>

text \<open>C11. End to end: while the services answer, the delivery of a valid event under a new key is
  acknowledged, and by then one pending row per channel of the event is committed and queued, no other
  row is lost or changed, and the key is taken, so that a second delivery creates nothing.\<close>

theorem new_event_creates_rows:
  assumes laws: "services_laws S" and payload: "delivery_payload msg = Inr p" "validated p src ev prio"
    and up: "all_up S w" "amqp_up S w"
    and new: "w_kv S w (redis_idem_key (req_idempotency_key p)) = None"
    and fits: "\<forall>c \<in> set (event_channels ev). fits p src ev prio c \<and>
      \<not> key_taken (w_rows S w) (channel_idem_key (req_idempotency_key p) c)"
  shows "\<exists>ns w'. on_new_event S msg w = (Inr (), w') \<and> w_settled S w' = (w_settled S w)(dl_tag msg \<mapsto> Acked) \<and>
    list_all2 (created_row p src ev prio) (event_channels ev) ns \<and>
    (\<forall>n \<in> set ns. stored_and_queued S w' n) \<and> w_rows S w \<subseteq>\<^sub>m w_rows S w' \<and>
    dom (w_rows S w') = dom (w_rows S w) \<union> nid ` set ns \<and>
    w_kv S w' (redis_idem_key (req_idempotency_key p)) \<noteq> None"
proof -
  obtain ns w1 where run: "create_notification S p w = (Inr (ns, False), w1)"
    and rows: "created_all S p src ev prio (event_channels ev) w ns w1" "w_rows S w \<subseteq>\<^sub>m w_rows S w1"
    and kv: "w_kv S w1 (redis_idem_key (req_idempotency_key p)) = Some ''1''"
    using create_notification_up [OF laws payload(2) up(1) new fits] by metis
  have "process_event S msg w = (Inr (ns, False), w1)"
    using payload(1) run by (simp add: process_event_def)
  from on_new_event_settles [OF laws up(2) this] obtain w' where
    w': "on_new_event S msg w = (Inr (), w')" "wire_frame S w1 w'"
      "w_settled S w' = (w_settled S w)(dl_tag msg \<mapsto> settlement_of msg (Inr (ns, False) :: py_exn + _))" by blast
  from w'(2) have "w_db w' = w_db w1" "svc_redis (w_svc w') = svc_redis (w_svc w1)" by (simp_all add: wire_frame_def)
  with rows kv w'(1,3) show ?thesis
    by (intro exI [of _ ns] exI [of _ w'])
      (simp add: settlement_of_def created_all_def stored_and_queued_def queue_entries_def)
qed

definition otp_delivery :: delivery where
  "otp_delivery =
     \<lparr>dl_tag = 7, dl_text = Inr ''{...}'', dl_json = Inr (snd (payment_otp_event ''0000abcd'')), dl_headers = []\<rparr>"

theorem new_event_creates_rows_witness:
  "\<exists>n w'. on_new_event ref_services otp_delivery ref_init = (Inr (), w') \<and>
     w_settled ref_services w' 7 = Some Acked \<and> w_rows ref_services w' (nid n) = Some n \<and>
     recipient n = ''+919876543210''"
proof -
  let ?p = "\<lparr>req_idempotency_key = ''payment-003-payment_otp_requested-'' @ ''0000abcd'', req_source_service = ''payment'',
      req_event_type = ''payment_otp_requested'', req_priority = ''critical'',
      req_recipient = \<lparr>email = None, phone = Some ''+919876543210'', device_token = None\<rparr>,
      req_content = [(''sms'', JObj
        [(''body'', JStr ''Your OTP is 123456. Valid for 5 minutes. Do not share.'')])]\<rparr>"
  have body: "payload_of_body (snd (payment_otp_event ''0000abcd'')) = Inr ?p" by code_simp
  then have p: "delivery_payload otp_delivery = Inr ?p"
    by (simp add: delivery_payload_def otp_delivery_def)
  have v: "validated ?p PAYMENT PAYMENT_OTP_REQUESTED CRITICAL"
    using sample_event_payloads(4) [of "''0000abcd''"] body by (simp add: decodes_to_def)
  have tag: "dl_tag otp_delivery = 7" by (simp add: otp_delivery_def)
  have up: "all_up ref_services ref_init" by (simp add: all_up_def)
  have new: "w_kv ref_services ref_init (redis_idem_key (req_idempotency_key ?p)) = None"
    by (simp add: ref_init_def)
  have fits: "\<forall>c \<in> set (event_channels PAYMENT_OTP_REQUESTED). fits ?p PAYMENT PAYMENT_OTP_REQUESTED CRITICAL c \<and>
      \<not> key_taken (w_rows ref_services ref_init) (channel_idem_key (req_idempotency_key ?p) c)"
    by (simp add: key_taken_def fits_def request_args_def row_of_args_def storable_def varchar_255_def text_ok_def
      channel_idem_key_def)
  from new_event_creates_rows [OF ref_services_laws p v up ref_init_ok(5) new fits]
  obtain ns w' where run: "on_new_event ref_services otp_delivery ref_init = (Inr (), w')"
    "w_settled ref_services w' = (w_settled ref_services ref_init)(dl_tag otp_delivery \<mapsto> Acked)"
    and ns: "list_all2 (created_row ?p PAYMENT PAYMENT_OTP_REQUESTED CRITICAL) (event_channels PAYMENT_OTP_REQUESTED) ns"
      "\<forall>n \<in> set ns. stored_and_queued ref_services w' n" by blast
  from ns(1) obtain n where n: "ns = [n]" "created_row ?p PAYMENT PAYMENT_OTP_REQUESTED CRITICAL SMS n"
    by (auto simp: list_all2_Cons1)
  from n(2) have "recipient n = ''+919876543210''" by (auto simp: created_row_def request_args_def)
  with run ns(2) n(1) tag show ?thesis by (auto simp: stored_and_queued_def)
qed

end
