(* ===== verification/Migration.thy ===== *)
theory Migration
  imports Notification_Model
begin

text \<open>
  The table as it is declared twice: the ORM columns of \<open>app/models/notification.py\<close> and the
  migration \<open>alembic/versions/0001_create_notifications_table.py\<close>, with what the column types
  say about the rows of \<open>Notification_Model\<close>.
\<close>

section \<open>Declarations\<close>

datatype column_type = Big_integer | Integer_32 | String_of nat | Timestamp_tz | Jsonb

text \<open>
  \<open>cl_default\<close> and \<open>cl_on_update\<close> (\<open>onupdate=func.now()\<close>) are applied by SQLAlchemy when it writes;
  the others are part of the table. A column is nullable unless it says otherwise or is the primary
  key.
\<close>

record column =
  cl_name :: string
  cl_type :: column_type
  cl_primary :: bool
  cl_autoincrement :: bool
  cl_nullable :: bool
  cl_server_now :: bool
  cl_default :: "int option"
  cl_on_update :: bool

definition plain_column :: "string \<Rightarrow> column_type \<Rightarrow> bool \<Rightarrow> column" where
  "plain_column nm ty null =
     \<lparr>cl_name = nm, cl_type = ty, cl_primary = False, cl_autoincrement = False, cl_nullable = null,
      cl_server_now = False, cl_default = None, cl_on_update = False\<rparr>"

definition orm_columns :: "column list" where
  "orm_columns =
     [(plain_column ''id'' Big_integer False)\<lparr>cl_primary := True, cl_autoincrement := True\<rparr>,
      plain_column ''idempotency_key'' (String_of 255) False,
      plain_column ''source_service'' Integer_32 False,
      plain_column ''event_type'' Integer_32 False,
      plain_column ''channel'' Integer_32 False,
      plain_column ''recipient'' (String_of 255) False,
      (plain_column ''priority'' Integer_32 False)\<lparr>cl_default := Some (priority_value MEDIUM)\<rparr>,
      (plain_column ''status'' Integer_32 False)\<lparr>cl_default := Some (status_value PENDING)\<rparr>,
      plain_column ''error_code'' Integer_32 True,
      (plain_column ''retry_count'' Integer_32 True)\<lparr>cl_default := Some 0\<rparr>,
      plain_column ''next_retry_time'' Timestamp_tz True,
      plain_column ''external_id'' (String_of 255) True,
      plain_column ''content'' Jsonb False,
      (plain_column ''ctime'' Timestamp_tz True)\<lparr>cl_server_now := True\<rparr>,
      (plain_column ''mtime'' Timestamp_tz True)\<lparr>cl_on_update := True\<rparr>,
      plain_column ''stime'' Timestamp_tz True]"

text \<open>\<open>__table_args__\<close>: the unique constraints and the indexes, each with its columns.\<close>

definition orm_uniques :: "(string \<times> string list) list" where
  "orm_uniques = [(''uq_notifications_idempotency_key'', [''idempotency_key''])]"

definition orm_indexes :: "(string \<times> string list) list" where
  "orm_indexes =
     [(''ix_notifications_worker'', [''status'', ''priority'', ''next_retry_time'']),
      (''ix_notifications_channel'', [''channel'']),
      (''ix_notifications_event_type'', [''event_type''])]"

section \<open>The migration\<close>

datatype ddl =
    Create_table string "column list"
  | Create_unique string string "string list"
  | Create_index string string "string list"
  | Drop_index string string
  | Drop_constraint string string
  | Drop_table string

definition migration_columns :: "column list" where
  "migration_columns =
     [(plain_column ''id'' Big_integer False)\<lparr>cl_primary := True, cl_autoincrement := True\<rparr>,
      plain_column ''idempotency_key'' (String_of 255) False,
      plain_column ''source_service'' Integer_32 False,
      plain_column ''event_type'' Integer_32 False,
      plain_column ''channel'' Integer_32 False,
      plain_column ''recipient'' (String_of 255) False,
      (plain_column ''priority'' Integer_32 False)\<lparr>cl_default := Some 3\<rparr>,
      (plain_column ''status'' Integer_32 False)\<lparr>cl_default := Some 1\<rparr>,
      plain_column ''error_code'' Integer_32 True,
      (plain_column ''retry_count'' Integer_32 True)\<lparr>cl_default := Some 0\<rparr>,
      plain_column ''next_retry_time'' Timestamp_tz True,
      plain_column ''external_id'' (String_of 255) True,
      plain_column ''content'' Jsonb False,
      (plain_column ''ctime'' Timestamp_tz True)\<lparr>cl_server_now := True\<rparr>,
      plain_column ''mtime'' Timestamp_tz True,
      plain_column ''stime'' Timestamp_tz True]"

definition upgrade :: "ddl list" where
  "upgrade =
     [Create_table ''notifications'' migration_columns,
      Create_unique ''uq_notifications_idempotency_key'' ''notifications'' [''idempotency_key''],
      Create_index ''ix_notifications_worker'' ''notifications'' [''status'', ''priority'', ''next_retry_time''],
      Create_index ''ix_notifications_channel'' ''notifications'' [''channel''],
      Create_index ''ix_notifications_event_type'' ''notifications'' [''event_type'']]"

definition downgrade :: "ddl list" where
  "downgrade =
     [Drop_index ''ix_notifications_event_type'' ''notifications'',
      Drop_index ''ix_notifications_channel'' ''notifications'',
      Drop_index ''ix_notifications_worker'' ''notifications'',
      Drop_constraint ''uq_notifications_idempotency_key'' ''notifications'',
      Drop_table ''notifications'']"

section \<open>Comparing the two\<close>

text \<open>What the table consists of, apart from what SQLAlchemy adds when it writes.\<close>

definition table_part :: "column \<Rightarrow> string \<times> column_type \<times> bool \<times> bool \<times> bool \<times> bool" where
  "table_part c =
     (cl_name c, cl_type c, cl_primary c, cl_autoincrement c, cl_nullable c, cl_server_now c)"

fun undo :: "ddl \<Rightarrow> ddl" where
  "undo (Create_table t cs) = Drop_table t"
| "undo (Create_unique nm t cols) = Drop_constraint nm t"
| "undo (Create_index nm t cols) = Drop_index nm t"
| "undo d = d"

fun created_columns :: "ddl list \<Rightarrow> column list" where
  "created_columns (Create_table t cs # ds) = cs @ created_columns ds"
| "created_columns (d # ds) = created_columns ds"
| "created_columns [] = []"

fun created_uniques :: "ddl list \<Rightarrow> (string \<times> string list) list" where
  "created_uniques (Create_unique nm t cols # ds) = (nm, cols) # created_uniques ds"
| "created_uniques (d # ds) = created_uniques ds"
| "created_uniques [] = []"

fun created_indexes :: "ddl list \<Rightarrow> (string \<times> string list) list" where
  "created_indexes (Create_index nm t cols # ds) = (nm, cols) # created_indexes ds"
| "created_indexes (d # ds) = created_indexes ds"
| "created_indexes [] = []"

section \<open>Rows against the column types\<close>

datatype column_value = Null | Int_value int | Text_value string | Json_value json | Time_value int

text \<open>The row as the values of its columns, in their order.\<close>

definition row_values :: "notification \<Rightarrow> (string \<times> column_value) list" where
  "row_values n =
     [(''id'', Int_value (nid n)), (''idempotency_key'', Text_value (idempotency_key n)),
      (''source_service'', Int_value (source_service n)), (''event_type'', Int_value (event_type n)),
      (''channel'', Int_value (channel n)), (''recipient'', Text_value (recipient n)),
      (''priority'', Int_value (priority n)), (''status'', Int_value (status n)),
      (''error_code'', (case error_code n of None \<Rightarrow> Null | Some e \<Rightarrow> Int_value e)),
      (''retry_count'', Int_value (retry_count n)),
      (''next_retry_time'', (case next_retry_time n of None \<Rightarrow> Null | Some t \<Rightarrow> Time_value t)),
      (''external_id'', (case external_id n of None \<Rightarrow> Null | Some x \<Rightarrow> Text_value x)),
      (''content'', Json_value (content n)), (''ctime'', Time_value (ctime n)),
      (''mtime'', (case mtime n of None \<Rightarrow> Null | Some t \<Rightarrow> Time_value t)),
      (''stime'', (case stime n of None \<Rightarrow> Null | Some t \<Rightarrow> Time_value t))]"

fun type_holds :: "column_type \<Rightarrow> column_value \<Rightarrow> bool" where
  "type_holds Big_integer (Int_value v) \<longleftrightarrow> - (2 ^ 63) \<le> v \<and> v < 2 ^ 63"
| "type_holds Integer_32 (Int_value v) \<longleftrightarrow> - (2 ^ 31) \<le> v \<and> v < 2 ^ 31"
| "type_holds (String_of k) (Text_value s) \<longleftrightarrow> length s \<le> k \<and> text_ok s"
| "type_holds Jsonb (Json_value j) \<longleftrightarrow> json_text_ok j"
| "type_holds Timestamp_tz (Time_value t) \<longleftrightarrow> True"
| "type_holds _ _ \<longleftrightarrow> False"

fun column_holds :: "column \<Rightarrow> string \<times> column_value \<Rightarrow> bool" where
  "column_holds c (nm, Null) \<longleftrightarrow> nm = cl_name c \<and> cl_nullable c"
| "column_holds c (nm, v) \<longleftrightarrow> nm = cl_name c \<and> type_holds (cl_type c) v"

lemma enum_values_small:
  "0 \<le> source_value s \<and> source_value s \<le> 8" "0 \<le> event_value e \<and> event_value e \<le> 8"
  "0 \<le> channel_value c \<and> channel_value c \<le> 8" "0 \<le> priority_value p \<and> priority_value p \<le> 8"
  "0 \<le> status_value st \<and> status_value st \<le> 8" "0 \<le> error_value er \<and> error_value er \<le> 8"
proof -
  show "0 \<le> source_value s \<and> source_value s \<le> 8" by (cases s) simp_all
  show "0 \<le> event_value e \<and> event_value e \<le> 8" by (cases e) simp_all
  show "0 \<le> channel_value c \<and> channel_value c \<le> 8" by (cases c) simp_all
  show "0 \<le> priority_value p \<and> priority_value p \<le> 8" by (cases p) simp_all
  show "0 \<le> status_value st \<and> status_value st \<le> 8" by (cases st) simp_all
  show "0 \<le> error_value er \<and> error_value er \<le> 8" by (cases er) simp_all
qed

lemma valid_codes_small:
  assumes "valid_codes n"
  shows "0 \<le> source_service n \<and> source_service n \<le> 8" "0 \<le> event_type n \<and> event_type n \<le> 8"
    "0 \<le> channel n \<and> channel n \<le> 8" "0 \<le> priority n \<and> priority n \<le> 8"
    "0 \<le> status n \<and> status n \<le> 8" "error_code n = Some v \<Longrightarrow> 0 \<le> v \<and> v \<le> 8"
proof -
  from assms obtain s ev c p st where "source_service n = source_value s" "event_type n = event_value ev"
    "channel n = channel_value c" "priority n = priority_value p" "status n = status_value st"
    by (rule valid_codesE)
  then show "0 \<le> source_service n \<and> source_service n \<le> 8" "0 \<le> event_type n \<and> event_type n \<le> 8"
    "0 \<le> channel n \<and> channel n \<le> 8" "0 \<le> priority n \<and> priority n \<le> 8"
    "0 \<le> status n \<and> status n \<le> 8"
    using enum_values_small by simp_all
  show "0 \<le> v \<and> v \<le> 8" if "error_code n = Some v"
    using assms that enum_values_small(6) unfolding valid_codes_def by blast
qed

text \<open>The migration and the ORM declare the same table: the same columns in the same order, with the
  same types, nullability and server defaults, the same unique keys and indexes, and the same values
  for the defaults SQLAlchemy fills in; only the update of mtime is the ORM's alone. The downgrade
  drops, in the reverse order, exactly what the upgrade creates.\<close>

theorem migration_matches_model:
  "map table_part (created_columns upgrade) = map table_part orm_columns \<and>
   map cl_default (created_columns upgrade) = map cl_default orm_columns \<and>
   created_uniques upgrade = orm_uniques \<and> created_indexes upgrade = orm_indexes \<and>
   downgrade = map undo (rev upgrade)"
  by (simp add: upgrade_def downgrade_def migration_columns_def orm_columns_def orm_uniques_def
      orm_indexes_def table_part_def plain_column_def)

text \<open>A row with valid codes and a 64-bit id is one the declared columns can hold exactly if it is
  storable, the condition under which a write of it is assumed to succeed.\<close>

theorem storable_rows_fit_the_columns:
  assumes "valid_codes n" "- (2 ^ 63) \<le> nid n" "nid n < 2 ^ 63"
  shows "list_all2 column_holds orm_columns (row_values n) \<longleftrightarrow> storable n"
proof -
  note small = valid_codes_small [OF assms(1)]
  have "column_holds (plain_column ''error_code'' Integer_32 True)
      (''error_code'', (case error_code n of None \<Rightarrow> Null | Some e \<Rightarrow> Int_value e))"
    using small(6) by (cases "error_code n") (auto simp: plain_column_def)
  then show ?thesis
    using small(1-5) assms(2,3)
    by (auto simp: orm_columns_def row_values_def plain_column_def storable_def varchar_255_def
        split: option.splits)
qed

definition stored_args :: notification_args where
  "stored_args =
     \<lparr>a_idempotency_key = ''k-sms'', a_source_service = source_value PAYMENT,
      a_event_type = event_value PAYMENT_OTP_REQUESTED, a_channel = channel_value SMS,
      a_recipient = Some ''+4912'', a_priority = priority_value CRITICAL, a_status = status_value PENDING,
      a_content = JObj []\<rparr>"

theorem storable_rows_fit_the_columns_witness:
  "list_all2 column_holds orm_columns (row_values (row_of_args 1 0 ''+4912'' stored_args)) \<and>
   \<not> list_all2 column_holds orm_columns (row_values (row_of_args 1 0 (replicate 256 CHR ''x'') stored_args))"
proof -
  have codes: "valid_codes (row_of_args 1 0 r stored_args)" for r
    by (simp add: valid_codes_def row_of_args_def stored_args_def del: source_value.simps event_value.simps
        channel_value.simps priority_value.simps status_value.simps)
  have id: "nid (row_of_args 1 0 r stored_args) = 1" for r by (simp add: row_of_args_def)
  have "storable (row_of_args 1 0 ''+4912'' stored_args)"
    "\<not> storable (row_of_args 1 0 (replicate 256 CHR ''x'') stored_args)"
    by (simp_all add: storable_def varchar_255_def text_ok_def row_of_args_def stored_args_def)
  then show ?thesis
    using storable_rows_fit_the_columns [OF codes] by (simp add: id)
qed

end
