(* ===== verification/Liveness_Properties.thy ===== *)
theory Liveness_Properties
  imports Worker_Liveness Sample_Data
begin

text \<open>
  What the workers get done (\<open>Worker_Liveness\<close>) and the way of a request to the providers, each
  with an instance.
\<close>

section \<open>The queue\<close>

text \<open>While Redis answers, the queue is worked off: after any number of turns of a worker exactly that
  many entries have left it, from the front, whatever the database, the broker and the providers do,
  and whatever the dispatches raise.\<close>

theorem workers_empty_the_queue:
  assumes "services_laws S" "redis_up S w" "queue_ids_ok (srv_redis S) (w_svc w)"
    and "worker_loop S providers (replicate k True) w = (x, w')"
  shows "w_entries S w' = drop k (w_entries S w)"
  using worker_turns_drop [OF assms(1) _ assms(4)] assms(2,3) by (simp add: redis_ready_def)

text \<open>A queue of two ids without rows, on a database that is down.\<close>

definition stale_queue :: ref_world where
  "stale_queue = db_outage\<lparr>w_svc := two_queued\<rparr>"

theorem workers_empty_the_queue_witness:
  "w_entries ref_services (snd (worker_loop ref_services main_providers [True, True] stale_queue)) = []"
proof -
  have up: "redis_up ref_services stale_queue"
    by (simp add: redis_up_def stale_queue_def two_queued_def ref_init_def)
  have ids: "queue_ids_ok (srv_redis ref_services) (w_svc stale_queue)"
    using two_queued_facts(2) by (simp add: stale_queue_def)
  obtain x w' where run: "worker_loop ref_services main_providers (replicate 2 True) stale_queue = (x, w')"
    by (cases "worker_loop ref_services main_providers (replicate 2 True) stale_queue")
  from workers_empty_the_queue [OF ref_services_laws up ids run] have "w_entries ref_services w' = []"
    by (simp add: stale_queue_def two_queued_facts(1))
  with run show ?thesis by (simp add: numeral_2_eq_2)
qed

section \<open>Sending\<close>

text \<open>While the services answer and the providers send, the workers send every queued notification: as
  many turns as there are entries leave the queue empty, every queued row is sent, with its content
  and its recipient as they were, and no other row is touched.\<close>

theorem queued_notifications_are_sent:
  assumes "services_laws S" "db_up S w" "redis_up S w" "queue_ids_ok (srv_redis S) (w_svc w)"
    and "\<forall>i \<in> fst ` set (w_entries S w). \<exists>n. w_rows S w i = Some n \<and> nid n = i \<and> sendable providers n"
  shows "\<exists>w'. worker_loop S providers (replicate (length (w_entries S w)) True) w = (Inr (), w') \<and>
    w_entries S w' = [] \<and>
    (\<forall>i. i \<notin> fst ` set (w_entries S w) \<longrightarrow> w_rows S w' i = w_rows S w i) \<and>
    (\<forall>i \<in> fst ` set (w_entries S w). \<exists>n m. w_rows S w i = Some n \<and> w_rows S w' i = Some m \<and> sent_from n m)"
proof -
  have ready: "redis_ready S w" using assms(3,4) by (simp add: redis_ready_def)
  have distinct: "distinct (map fst (w_entries S w))"
    using wq.entries_ordered [OF services_laws_parts(2) [OF assms(1)] assms(4)] by simp
  obtain w' where "worker_loop S providers (replicate (length (w_entries S w)) True) w = (Inr (), w')"
    "w_entries S w' = []" "\<forall>i. i \<notin> fst ` set (w_entries S w) \<longrightarrow> w_rows S w' i = w_rows S w i"
    "\<forall>i \<in> fst ` set (w_entries S w). \<exists>n m. w_rows S w i = Some n \<and> w_rows S w' i = Some m \<and> sent_from n m"
    using turns_send_all [OF assms(1,2) ready refl distinct assms(5)] by blast
  then show ?thesis by (intro exI [of _ w'] conjI)
qed

text \<open>A provider that is up and sends everything.\<close>

definition sending_provider :: "notification_channel \<Rightarrow> mock_state provider" where
  "sending_provider c = const_provider c True (sent_result ''ext-1'')"

lemma sent_success: "pr_success (sent_result x)"
  by (simp add: sent_result_def)

lemma sending_provider_sends: "always_sends (sending_provider c) n"
proof -
  have "provider_ok (sending_provider c)"
    unfolding sending_provider_def by (rule const_provider_ok) (simp_all add: sent_result_def)
  moreover have "provider_answers (sending_provider c) n s True (sent_result ''ext-1'') s" for s
    unfolding sending_provider_def
    by (rule const_provider_answers) (simp add: sent_result_def varchar_255_def text_ok_def)
  ultimately show ?thesis unfolding always_sends_def by (metis sent_success)
qed

text \<open>A queued row.\<close>

definition one_waiting :: ref_world where
  "one_waiting = (world_with (row_with QUEUED 1))\<lparr>w_svc := (w_svc ref_init)\<lparr>svc_redis :=
     (svc_redis (w_svc ref_init))\<lparr>rr_sets := (\<lambda>_. [(''1'', 5)])\<rparr>\<rparr>\<rparr>"

lemma one_waiting_facts:
  "w_entries ref_services one_waiting = [(1, 5)]" "queue_ids_ok (srv_redis ref_services) (w_svc one_waiting)"
  "db_up ref_services one_waiting" "redis_up ref_services one_waiting"
  "w_rows ref_services one_waiting = [1 \<mapsto> row_with QUEUED 1]"
proof -
  have "''1'' = str_of_int 1" "int_of_str ''1'' = Some 1" by code_simp+
  moreover have "rr_zset (svc_redis (w_svc one_waiting)) k = [(''1'', 5)]" for k
    by (simp add: rr_zset_def one_waiting_def zset_wf_def)
  ultimately show "w_entries ref_services one_waiting = [(1, 5)]"
    "queue_ids_ok (srv_redis ref_services) (w_svc one_waiting)"
    by (auto simp: queue_entries_def queue_ids_ok_def)
  show "db_up ref_services one_waiting" "redis_up ref_services one_waiting"
    "w_rows ref_services one_waiting = [1 \<mapsto> row_with QUEUED 1]"
    using world_with_up(1) [of "row_with QUEUED 1"]
    by (simp_all add: one_waiting_def db_up_def redis_up_def ref_init_def)
qed

theorem queued_notifications_are_sent_witness:
  "\<exists>w' m. worker_loop ref_services (\<lambda>c. Some (sending_provider c)) [True] one_waiting = (Inr (), w') \<and>
     w_rows ref_services w' 1 = Some m \<and> status m = status_value SENT"
proof -
  have "sendable (\<lambda>c. Some (sending_provider c)) (row_with QUEUED 1)"
    unfolding sendable_def using row_with_inv [of QUEUED 1]
    by (intro conjI exI [of _ SMS] exI [of _ "sending_provider SMS"]) (simp_all add: sending_provider_sends)
  then have "\<forall>i \<in> fst ` set (w_entries ref_services one_waiting). \<exists>n.
      w_rows ref_services one_waiting i = Some n \<and> nid n = i \<and> sendable (\<lambda>c. Some (sending_provider c)) n"
    unfolding one_waiting_facts by simp
  from queued_notifications_are_sent [OF ref_services_laws one_waiting_facts(3,4,2) this]
  show ?thesis unfolding one_waiting_facts by (auto simp: sent_from_def)
qed

section \<open>From a request to the provider\<close>

lemma created_row_sendable:
  assumes p: "validated p src ev prio" "c \<in> set (event_channels ev)" "fits p src ev prio c"
    and row: "created_row p src ev prio c n"
    and prov: "providers c = Some provider" "always_sends provider n"
  shows "sendable providers n"
proof -
  from row obtain i now r where r: "a_recipient (request_args p src ev prio c) = Some r"
    and n: "n = row_of_args i now r (request_args p src ev prio c)" by (auto simp: created_row_def)
  from p(3) r have "storable (row_of_args 0 0 r (request_args p src ev prio c))" by (simp add: fits_def)
  then have "storable n" by (simp add: n storable_def row_of_args_def)
  with request_args_event(1) [OF p(1,2)] have "row_inv n"
    unfolding n by (intro row_inv_created [OF _ r])
  moreover have "channel n = channel_value c" by (simp add: n request_args_def row_of_args_def)
  ultimately show ?thesis using prov unfolding sendable_def by blast
qed

text \<open>The rows a creation leaves on an empty queue are its entries, each once, and can be sent.\<close>

lemma created_all_queued:
  assumes laws: "services_laws S" and ok: "queue_ids_ok (srv_redis S) (w_svc w1)"
    and all: "created_all S p src ev prio (event_channels ev) w ns w1" and empty: "w_entries S w = []"
  shows "fst ` set (w_entries S w1) = nid ` set ns" and "distinct (map fst (w_entries S w1))"
    and "length (w_entries S w1) = length (event_channels ev)"
proof -
  from all have rows: "list_all2 (created_row p src ev prio) (event_channels ev) ns" and dist: "distinct (map nid ns)"
    and ids: "fst ` set (w_entries S w1) = nid ` set ns"
    by (simp_all add: created_all_def empty)
  show "fst ` set (w_entries S w1) = nid ` set ns" by (rule ids)
  show once: "distinct (map fst (w_entries S w1))"
    using wq.entries_ordered [OF services_laws_parts(2) [OF laws] ok] by simp
  have "length (w_entries S w1) = card (nid ` set ns)"
    using distinct_card [OF once] ids by simp
  also have "card (nid ` set ns) = length (event_channels ev)"
    using distinct_card [OF dist] list_all2_lengthD [OF rows] by simp
  finally show "length (w_entries S w1) = length (event_channels ev)" .
qed

lemma created_all_sendable:
  assumes p: "validated p src ev prio"
    and all: "created_all S p src ev prio (event_channels ev) w ns w1"
    and fits: "\<forall>c \<in> set (event_channels ev). fits p src ev prio c"
    and prov: "\<forall>c \<in> set (event_channels ev). \<exists>provider. providers c = Some provider \<and> (\<forall>n. always_sends provider n)"
  shows "\<forall>i \<in> nid ` set ns. \<exists>n. w_rows S w1 i = Some n \<and> nid n = i \<and> sendable providers n"
proof
  fix i assume "i \<in> nid ` set ns"
  then obtain n where n: "n \<in> set ns" "nid n = i" by blast
  from all have rows: "list_all2 (created_row p src ev prio) (event_channels ev) ns"
    and stored: "\<forall>n \<in> set ns. stored_and_queued S w1 n" by (simp_all add: created_all_def)
  from rows n obtain c where c: "c \<in> set (event_channels ev)" "created_row p src ev prio c n"
    by (metis in_set_conv_nth list_all2_conv_all_nth)
  then have "sendable providers n" using prov fits created_row_sendable [OF p c(1) _ c(2)] by blast
  with n stored show "\<exists>n. w_rows S w1 i = Some n \<and> nid n = i \<and> sendable providers n"
    unfolding stored_and_queued_def by blast
qed

lemma created_all_delivered:
  assumes all: "created_all S p src ev prio (event_channels ev) w ns w1"
    and sent: "\<forall>i \<in> nid ` set ns. \<exists>n m. w_rows S w1 i = Some n \<and> w_rows S w2 i = Some m \<and> sent_from n m"
    and c: "c \<in> set (event_channels ev)"
  shows "\<exists>m. w_rows S w2 (nid m) = Some m \<and> status m = status_value SENT \<and>
     idempotency_key m = channel_idem_key (req_idempotency_key p) c \<and>
     recipient_value (req_recipient p) (CHANNEL_RECIPIENT_FIELD c) = Some (recipient m)"
proof -
  from all c obtain n where n: "n \<in> set ns" "created_row p src ev prio c n"
    by (metis created_all_def in_set_conv_nth list_all2_conv_all_nth)
  with all have row: "w_rows S w1 (nid n) = Some n" by (simp add: created_all_def stored_and_queued_def)
  from sent n(1) row obtain m where m: "w_rows S w2 (nid n) = Some m" "sent_from n m" by fastforce
  from n(2) have "idempotency_key n = channel_idem_key (req_idempotency_key p) c"
    "recipient_value (req_recipient p) (CHANNEL_RECIPIENT_FIELD c) = Some (recipient n)"
    by (auto simp: created_row_def request_args_def row_of_args_def)
  with m show ?thesis by (intro exI [of _ m]) (simp add: sent_from_def)
qed

text \<open>C8. End to end: while the services answer and the providers of the event's channels send, a valid
  request under a new key is answered 201, and after one turn of a worker per channel every channel's
  row is sent to the request's recipient and the queue is empty again.\<close>

theorem request_is_delivered:
  assumes laws: "services_laws S" and p: "validated p src ev prio" and up: "all_up S w"
    and empty: "w_entries S w = []" and new: "w_kv S w (redis_idem_key (req_idempotency_key p)) = None"
    and fits: "\<forall>c \<in> set (event_channels ev). fits p src ev prio c \<and>
      \<not> key_taken (w_rows S w) (channel_idem_key (req_idempotency_key p) c)"
    and prov: "\<forall>c \<in> set (event_channels ev). \<exists>provider. providers c = Some provider \<and> (\<forall>n. always_sends provider n)"
  shows "\<exists>r w1 w2. post_notification S (Inr p) w = (Inr r, w1) \<and> http_status r = 201 \<and>
    worker_loop S providers (replicate (length (event_channels ev)) True) w1 = (Inr (), w2) \<and>
    w_entries S w2 = [] \<and>
    (\<forall>c \<in> set (event_channels ev). \<exists>m. w_rows S w2 (nid m) = Some m \<and> status m = status_value SENT \<and>
       idempotency_key m = channel_idem_key (req_idempotency_key p) c \<and>
       recipient_value (req_recipient p) (CHANNEL_RECIPIENT_FIELD c) = Some (recipient m))"
proof -
  obtain ns w1 where create: "create_notification S p w = (Inr (ns, False), w1)" and up1: "all_up S w1"
    and all: "created_all S p src ev prio (event_channels ev) w ns w1"
    using create_notification_up [OF laws p up new fits] by metis
  from up1 have parts: "db_up S w1" "redis_up S w1" "queue_ids_ok (srv_redis S) (w_svc w1)"
    by (simp_all add: all_up_def queue_ok_def)
  note queued = created_all_queued [OF laws parts(3) all empty]
  have "\<forall>i \<in> fst ` set (w_entries S w1). \<exists>n. w_rows S w1 i = Some n \<and> nid n = i \<and> sendable providers n"
    unfolding queued(1) using created_all_sendable [OF p all _ prov] fits by blast
  moreover have "redis_ready S w1" using parts by (simp add: redis_ready_def)
  ultimately obtain w2 where run: "worker_loop S providers (replicate (length (event_channels ev)) True) w1 = (Inr (), w2)"
    and w2: "w_entries S w2 = []"
      "\<forall>i \<in> nid ` set ns. \<exists>n m. w_rows S w1 i = Some n \<and> w_rows S w2 i = Some m \<and> sent_from n m"
    using turns_send_all [OF laws parts(1) _ refl queued(2)] unfolding queued(1,3) by blast
  note sent = created_all_delivered [OF all w2(2)]
  let ?r = "\<lparr>http_status = 201, http_body = Created
      \<lparr>cr_idempotency_key = req_idempotency_key p, cr_event_type = req_event_type p,
       cr_notifications = map channel_status_convert ns\<rparr>\<rparr>"
  from create have "post_notification S (Inr p) w = (Inr ?r, w1)"
    by (simp add: post_notification_def with_handlers_def io_try_def io_bind_def io_return_def)
  with run w2(1) sent show ?thesis
    by (intro exI [of _ ?r] exI [of _ w1] exI [of _ w2] conjI ballI) simp_all
qed

theorem request_is_delivered_witness:
  "\<exists>r w1 w2 m. post_notification ref_services (Inr sample_payload) ref_init = (Inr r, w1) \<and> http_status r = 201 \<and>
     worker_loop ref_services (\<lambda>c. Some (sending_provider c)) [True] w1 = (Inr (), w2) \<and>
     w_rows ref_services w2 (nid m) = Some m \<and> status m = status_value SENT \<and> recipient m = ''+4912''"
proof -
  have up: "all_up ref_services ref_init" by (simp add: all_up_def)
  have new: "w_kv ref_services ref_init (redis_idem_key (req_idempotency_key sample_payload)) = None"
    by (simp add: ref_init_def)
  have empty: "w_entries ref_services ref_init = []"
    by (simp add: queue_entries_def rr_zset_def ref_init_def)
  have fits: "\<forall>c \<in> set (event_channels PAYMENT_OTP_REQUESTED).
      fits sample_payload PAYMENT PAYMENT_OTP_REQUESTED CRITICAL c \<and>
      \<not> key_taken (w_rows ref_services ref_init) (channel_idem_key (req_idempotency_key sample_payload) c)"
    using sample_fits by (simp add: key_taken_def)
  have prov: "\<forall>c \<in> set (event_channels PAYMENT_OTP_REQUESTED). \<exists>provider.
      Some (sending_provider c) = Some provider \<and> (\<forall>n. always_sends provider n)"
    by (intro ballI, rule exI, rule conjI, rule refl, intro allI, rule sending_provider_sends)
  from request_is_delivered [OF ref_services_laws sample_validated up empty new fits prov]
  show ?thesis by auto
qed

end
