(* ===== verification/Recovery_Properties.thy ===== *)
theory Recovery_Properties
  imports Worker_Liveness Rabbit_Handler Sample_Data Liveness_Properties
begin

text \<open>
  The way of a failed attempt: from the dispatch that schedules the retry, over the message that
  waits in the retry queue, back to the workers.
\<close>

lemma retry_event_then_turn:
  assumes laws: "services_laws S" and up: "all_up S w" "amqp_up S w" and empty: "w_entries S w = []"
    and msg: "decoded_id msg = Inr (nid n)" and row: "w_rows S w (nid n) = Some n" "sendable providers n"
  obtains w1 w2 m where "on_retry_event S msg w = (Inr (), w1)"
    "w_settled S w1 = (w_settled S w)(dl_tag msg \<mapsto> Acked)"
    "worker_turn S providers w1 = (Inr (), w2)" "w_entries S w2 = []"
    "w_rows S w2 = (w_rows S w)(nid n \<mapsto> m)" "sent_from n m"
proof -
  from row(2) have "row_inv n" by (simp add: sendable_def)
  then have prio: "1 \<le> priority n" "priority n \<le> 4" using row_inv_priority by blast+
  obtain w1 where w1: "on_retry_event S msg w = (Inr (), w1)" "w_rows S w1 = w_rows S w"
    "fst ` set (w_entries S w1) = insert (nid n) (fst ` set (w_entries S w))"
    "w_settled S w1 = (w_settled S w)(dl_tag msg \<mapsto> Acked)"
    "db_up S w1 \<and> redis_up S w1 \<and> queue_ids_ok (srv_redis S) (w_svc w1)"
    by (rule on_retry_event_requeues [OF laws up msg row(1) refl prio])
  then have ready: "db_up S w1" "redis_ready S w1" by (simp_all add: redis_ready_def)
  have ids: "fst ` set (w_entries S w1) = {nid n}" using w1(3) empty by simp
  obtain sc where entries: "w_entries S w1 = [(nid n, sc)]"
    by (rule only_entry [OF laws _ ids]) (use w1(5) in simp)
  have "w_rows S w1 (nid n) = Some n" using row(1) w1(2) by simp
  from turn_sends [OF laws ready entries this refl row(2)] w1 show thesis using that by metis
qed

text \<open>C9. A failed attempt recovers: while the services answer, no connection is cached and retries are
  left, a retryable failure publishes a message that carries the id; whenever that message comes back
  while the row is as the attempt left it, the callback acknowledges it, and the next turn of a worker
  sends the notification, with the failed attempt counted, and leaves the queue empty.\<close>

theorem failed_attempt_recovers:
  assumes laws: "services_laws S" and up: "db_up S w" "amqp_up S w" and fresh: "rmq_connection (w_svc w) = None"
    and row: "w_rows S w (nid n) = Some n" "row_inv n" "retry_count n < 3"
    and code: "code \<in> RETRYABLE_ERROR_CODES"
    and prov: "channel n = channel_value c" "providers c = Some provider" "\<forall>m. always_sends provider m"
  shows "\<exists>m d w1. schedule_retry S n code w = (Inr (), w1) \<and> w_rows S w1 (nid n) = Some m \<and>
    status m = status_value RETRYING \<and>
    w_published S w1 = w_published S w @ [('''', RETRY_QUEUE, retry_message (nid n) d)] \<and>
    (\<forall>w2 msg s. all_up S w2 \<and> amqp_up S w2 \<and> w_entries S w2 = [] \<and> w_rows S w2 (nid n) = Some m \<and>
        m_body (retry_message (nid n) d) = Body_text s \<and> dl_text msg = Inr s \<longrightarrow>
      (\<exists>w3 w4 l. on_retry_event S msg w2 = (Inr (), w3) \<and> w_settled S w3 (dl_tag msg) = Some Acked \<and>
        worker_turn S providers w3 = (Inr (), w4) \<and> w_entries S w4 = [] \<and>
        w_rows S w4 (nid n) = Some l \<and> status l = status_value SENT \<and>
        retry_count l = retry_count n + 1 \<and> recipient l = recipient n \<and> content l = content n))"
proof -
  from row(2) obtain ev where ev: "event_type n = event_value ev" by (auto simp: row_inv_def row_origin_def)
  obtain m w1 where run: "schedule_retry S n code w = (Inr (), w1)" "w_rows S w1 = (w_rows S w)(nid n \<mapsto> m)"
    and dec: "decided (Retry_later code) n m" and sent: "retry_sent S w n ev w1"
    using schedule_retry_message [OF laws up(1) row(1,2) ev row(3), of code] up(2) fresh by metis
  from sent obtain d where pub: "w_published S w1 = w_published S w @ [('''', RETRY_QUEUE, retry_message (nid n) d)]"
    unfolding retry_sent_def by blast
  from dec have m: "status m = status_value RETRYING" "nid m = nid n" "channel m = channel n"
    "retry_count m = retry_count n + 1" "recipient m = recipient n" "content m = content n" by auto
  have "sendable providers m"
    using row_inv_retrying [OF row(2,3) code dec] prov m(3) unfolding sendable_def by metis
  then have "\<exists>w3 w4 l. on_retry_event S msg w2 = (Inr (), w3) \<and> w_settled S w3 (dl_tag msg) = Some Acked \<and>
        worker_turn S providers w3 = (Inr (), w4) \<and> w_entries S w4 = [] \<and>
        w_rows S w4 (nid n) = Some l \<and> status l = status_value SENT \<and>
        retry_count l = retry_count n + 1 \<and> recipient l = recipient n \<and> content l = content n"
    if "all_up S w2" "amqp_up S w2" "w_entries S w2 = []" "w_rows S w2 (nid n) = Some m"
      "m_body (retry_message (nid n) d) = Body_text s" "dl_text msg = Inr s" for w2 msg s
  proof -
    note h = that
    have id: "decoded_id msg = Inr (nid m)"
      using h(5,6) m(2) by (intro decoded_retry_message) (simp add: retry_message_def)
    have row2: "w_rows S w2 (nid m) = Some m" using h(4) m(2) by simp
    obtain w3 w4 l where w: "on_retry_event S msg w2 = (Inr (), w3)"
      "w_settled S w3 = (w_settled S w2)(dl_tag msg \<mapsto> Acked)"
      "worker_turn S providers w3 = (Inr (), w4)" "w_entries S w4 = []"
      "w_rows S w4 = (w_rows S w2)(nid m \<mapsto> l)" "sent_from m l"
      by (rule retry_event_then_turn [OF laws h(1-3) id row2 \<open>sendable providers m\<close>])
    then show ?thesis
      by (intro exI [of _ w3] exI [of _ w4] exI [of _ l]) (simp add: sent_from_def m)
  qed
  with run pub m(1) show ?thesis
    by (intro exI [of _ m] exI [of _ d] exI [of _ w1] conjI allI impI) auto
qed

text \<open>A queued row with one retry behind it, and the retry message as it is delivered.\<close>

definition retry_delivery :: delivery where
  "retry_delivery = \<lparr>dl_tag = 5, dl_text = Inr ''1'', dl_json = Inr (JInt 1), dl_headers = []\<rparr>"

theorem failed_attempt_recovers_witness:
  "\<exists>m w2 w3 w4 l. w_rows ref_services w2 1 = Some m \<and> status m = status_value RETRYING \<and>
     on_retry_event ref_services retry_delivery w2 = (Inr (), w3) \<and>
     worker_turn ref_services (\<lambda>c. Some (sending_provider c)) w3 = (Inr (), w4) \<and>
     w_rows ref_services w4 1 = Some l \<and> status l = status_value SENT \<and> retry_count l = 2"
proof -
  let ?n = "row_with QUEUED 1"
  have row: "w_rows ref_services (world_with ?n) (nid ?n) = Some ?n" by simp
  have inv: "row_inv ?n" by (rule row_with_inv) simp_all
  have up: "db_up ref_services (world_with ?n)" "amqp_up ref_services (world_with ?n)"
    "rmq_connection (w_svc (world_with ?n)) = None" "retry_count ?n < 3"
    by (simp_all add: ref_init_def world_with_def amqp_up_def db_up_def ref_amqp_ops_def ref_pg_def)
  have code: "TIMEOUT \<in> RETRYABLE_ERROR_CODES" by (simp add: RETRYABLE_ERROR_CODES_def)
  have prov: "channel ?n = channel_value SMS" "(\<lambda>c. Some (sending_provider c)) SMS = Some (sending_provider SMS)"
    "\<forall>m. always_sends (sending_provider SMS) m"
    by (simp_all add: sending_provider_sends)
  from failed_attempt_recovers [where providers = "\<lambda>c. Some (sending_provider c)" and c = SMS, OF ref_services_laws up(1-3) row inv up(4) code prov]
  obtain m d where m: "status m = status_value RETRYING"
    and later: "\<forall>w2 msg s. all_up ref_services w2 \<and> amqp_up ref_services w2 \<and> w_entries ref_services w2 = [] \<and>
        w_rows ref_services w2 (nid ?n) = Some m \<and>
        m_body (retry_message (nid ?n) d) = Body_text s \<and> dl_text msg = Inr s \<longrightarrow>
      (\<exists>w3 w4 l. on_retry_event ref_services msg w2 = (Inr (), w3) \<and> w_settled ref_services w3 (dl_tag msg) = Some Acked \<and>
        worker_turn ref_services (\<lambda>c. Some (sending_provider c)) w3 = (Inr (), w4) \<and> w_entries ref_services w4 = [] \<and>
        w_rows ref_services w4 (nid ?n) = Some l \<and> status l = status_value SENT \<and>
        retry_count l = retry_count ?n + 1 \<and> recipient l = recipient ?n \<and> content l = content ?n)"
    by blast
  let ?w2 = "ref_init\<lparr>w_db := \<lparr>rd_rows = [(1, m)], rd_now = 1700000000000, rd_up = True\<rparr>\<rparr>"
  have "str_of_int 1 = ''1''" by code_simp
  then have msg: "m_body (retry_message (nid ?n) d) = Body_text ''1''" "dl_text retry_delivery = Inr ''1''"
    by (simp_all add: retry_message_def retry_delivery_def)
  have w2: "all_up ref_services ?w2" "amqp_up ref_services ?w2" "w_entries ref_services ?w2 = []"
    "w_rows ref_services ?w2 1 = Some m"
    using ref_init_ok
    by (simp_all add: all_up_def db_up_def redis_up_def amqp_up_def queue_ok_def clock_ok_def rd_table_def)
  have "w_rows ref_services ?w2 (nid ?n) = Some m" using w2(4) by simp
  with w2 msg have "all_up ref_services ?w2 \<and> amqp_up ref_services ?w2 \<and> w_entries ref_services ?w2 = [] \<and>
      w_rows ref_services ?w2 (nid ?n) = Some m \<and>
      m_body (retry_message (nid ?n) d) = Body_text ''1'' \<and> dl_text retry_delivery = Inr ''1''" by blast
  from later [THEN spec, THEN spec, THEN spec, THEN mp, OF this] obtain w3 w4 l where
    "on_retry_event ref_services retry_delivery ?w2 = (Inr (), w3)"
    "worker_turn ref_services (\<lambda>c. Some (sending_provider c)) w3 = (Inr (), w4)"
    "w_rows ref_services w4 1 = Some l" "status l = status_value SENT" "retry_count l = 2"
    by auto
  with m w2(4) show ?thesis by blast
qed

end
