(* ===== verification/Application.thy ===== *)
theory Application
  imports Controller Worker Rabbit_Handler
begin

text \<open>
  The lifetime of the process, \<open>app/main.py\<close>: what \<open>lifespan\<close> does before the first
  request and after the last. The worker pool and the consumer are objects beside the \<open>world\<close> the
  handlers share; the consumer talks to the same broker as the queue service, over a connection of
  its own.
\<close>

section \<open>The engine\<close>

text \<open>
  SQLAlchemy's engine is a parameter: \<open>eng_create_all\<close> is the transaction that runs
  \<open>Base.metadata.create_all\<close>, \<open>eng_dispose\<close> closes the pool. Creating the tables
  that are missing and closing connections leave the rows as they are.
\<close>

record 'd engine =
  eng_create_all :: "('d, unit) io"
  eng_dispose :: "('d, unit) io"

definition engine_laws :: "'d pg \<Rightarrow> 'd engine \<Rightarrow> bool" where
  "engine_laws P E \<longleftrightarrow>
     (\<forall>d x d'. eng_create_all E d = (x, d') \<longrightarrow>
        pg_rows P d' = pg_rows P d \<and> (pg_up P d \<longrightarrow> x = Inr () \<and> pg_up P d')) \<and>
     (\<forall>d x d'. eng_dispose E d = (x, d') \<longrightarrow> pg_rows P d' = pg_rows P d)"

section \<open>Start and stop\<close>

record ('d, 'r, 'q, 'p) app =
  ap_world :: "('d, 'r, 'q, 'p) world"
  ap_pool :: worker_pool
  ap_connection :: "nat option"
  ap_channel :: "nat option"
  ap_consuming :: bool

definition on_world :: "(('d, 'r, 'q, 'p) world, 'a) io \<Rightarrow> (('d, 'r, 'q, 'p) app, 'a) io" where
  "on_world = io_zoom ap_world (\<lambda>w a. a\<lparr>ap_world := w\<rparr>)"

text \<open>The consumer as the object of \<open>Rabbit_Handler\<close>, on the broker of the world.\<close>

definition rabbit_of :: "('d, 'r, 'q, 'p) app \<Rightarrow> 'q rabbit" where
  "rabbit_of a =
     \<lparr>rb_amqp = broker_state (ap_world a), rb_connection = ap_connection a,
      rb_channel = ap_channel a, rb_running = ap_consuming a\<rparr>"

definition put_rabbit :: "'q rabbit \<Rightarrow> ('d, 'r, 'q, 'p) app \<Rightarrow> ('d, 'r, 'q, 'p) app" where
  "put_rabbit r a =
     a\<lparr>ap_world := (ap_world a)\<lparr>w_svc := (w_svc (ap_world a))\<lparr>svc_amqp := rb_amqp r\<rparr>\<rparr>,
       ap_connection := rb_connection r, ap_channel := rb_channel r, ap_consuming := rb_running r\<rparr>"

definition on_rabbit :: "('q rabbit, 'a) io \<Rightarrow> (('d, 'r, 'q, 'p) app, 'a) io" where
  "on_rabbit = io_zoom rabbit_of put_rabbit"

text \<open>The module's objects: an idle pool of \<open>settings.worker_count\<close> workers and an idle consumer.\<close>

definition app_init :: "int \<Rightarrow> ('d, 'r, 'q, 'p) world \<Rightarrow> ('d, 'r, 'q, 'p) app" where
  "app_init worker_count w =
     \<lparr>ap_world = w\<lparr>w_svc := (w_svc w)\<lparr>rmq_connection := None, rmq_channel := None\<rparr>\<rparr>,
      ap_pool = worker_init None worker_count,
      ap_connection = None, ap_channel = None, ap_consuming = False\<rparr>"

definition startup :: "'d engine \<Rightarrow> 'q amqp \<Rightarrow> (('d, 'r, 'q, 'p) app, unit) io" where
  "startup E A =
     io_bind (on_world (on_db (eng_create_all E))) (\<lambda>_.
     io_bind (io_modify (\<lambda>a. a\<lparr>ap_pool := worker_start (ap_pool a)\<rparr>)) (\<lambda>_.
     on_rabbit (handler_start A)))"

definition shutdown :: "'d engine \<Rightarrow> 'q amqp \<Rightarrow> (('d, 'r, 'q, 'p) app, unit) io" where
  "shutdown E A =
     io_bind (io_modify (\<lambda>a. a\<lparr>ap_pool := worker_stop (ap_pool a)\<rparr>)) (\<lambda>_.
     io_bind (on_rabbit (handler_stop A)) (\<lambda>_.
     io_bind (on_world (on_svc (close_rabbitmq A))) (\<lambda>_.
     on_world (on_db (eng_dispose E)))))"

text \<open>\<open>lifespan\<close>: the requests are served where it yields.\<close>

definition lifespan ::
  "'d engine \<Rightarrow> 'q amqp \<Rightarrow> (('d, 'r, 'q, 'p) app, unit) io \<Rightarrow> (('d, 'r, 'q, 'p) app, unit) io"
where
  "lifespan E A serve =
     io_bind (startup E A) (\<lambda>_.
     io_bind serve (\<lambda>_.
     shutdown E A))"

section \<open>What each part touches\<close>

lemma on_world_run [io_simps]: "m (ap_world a) = (x, w) \<Longrightarrow> on_world m a = (x, a\<lparr>ap_world := w\<rparr>)"
  by (simp add: on_world_def io_zoom_def)

lemma on_rabbit_run [io_simps]: "m (rabbit_of a) = (x, r) \<Longrightarrow> on_rabbit m a = (x, put_rabbit r a)"
  by (simp add: on_rabbit_def io_zoom_def)

lemma put_rabbit_simps [simp]:
  "w_db (ap_world (put_rabbit r a)) = w_db (ap_world a)"
  "w_prov (ap_world (put_rabbit r a)) = w_prov (ap_world a)"
  "svc_redis (w_svc (ap_world (put_rabbit r a))) = svc_redis (w_svc (ap_world a))"
  "svc_host (w_svc (ap_world (put_rabbit r a))) = svc_host (w_svc (ap_world a))"
  "rmq_connection (w_svc (ap_world (put_rabbit r a))) = rmq_connection (w_svc (ap_world a))"
  "rmq_channel (w_svc (ap_world (put_rabbit r a))) = rmq_channel (w_svc (ap_world a))"
  "svc_amqp (w_svc (ap_world (put_rabbit r a))) = rb_amqp r"
  "ap_pool (put_rabbit r a) = ap_pool a" "ap_connection (put_rabbit r a) = rb_connection r"
  "ap_channel (put_rabbit r a) = rb_channel r" "ap_consuming (put_rabbit r a) = rb_running r"
  by (simp_all add: put_rabbit_def)

text \<open>The committed rows survive every part of a lifetime.\<close>

abbreviation ap_rows :: "('d, 'r, 'q) services \<Rightarrow> ('d, 'r, 'q, 'p) app \<Rightarrow> table" where
  "ap_rows S a \<equiv> w_rows S (ap_world a)"

definition same_rows_app ::
  "('d, 'r, 'q) services \<Rightarrow> ('d, 'r, 'q, 'p) app \<Rightarrow> ('d, 'r, 'q, 'p) app \<Rightarrow> bool"
where
  "same_rows_app S a a' \<longleftrightarrow> ap_rows S a' = ap_rows S a"

interpretation app_rows: io_preorder "same_rows_app S" for S
  by unfold_locales (auto simp: same_rows_app_def)

lemma on_rabbit_rows: "evolves (same_rows_app S) (on_rabbit m)"
  by (auto simp: evolves_def same_rows_app_def on_rabbit_def io_zoom_def split: prod.splits)

lemma on_svc_app_rows: "evolves (same_rows_app S) (on_world (on_svc m))"
  by (auto simp: evolves_def same_rows_app_def on_world_def on_svc_def io_zoom_def split: prod.splits)

lemma engine_rows:
  assumes "engine_laws (srv_pg S) E"
  shows "evolves (same_rows_app S) (on_world (on_db (eng_create_all E)))"
    and "evolves (same_rows_app S) (on_world (on_db (eng_dispose E)))"
  using assms
  by (auto simp: evolves_def same_rows_app_def on_world_def on_db_def io_zoom_def engine_laws_def
      split: prod.splits)

lemma app_modify_rows: "(\<And>a. ap_world (f a) = ap_world a) \<Longrightarrow> evolves (same_rows_app S) (io_modify f)"
  by (auto simp: evolves_def same_rows_app_def io_modify_def)

lemma startup_rows:
  "engine_laws (srv_pg S) E \<Longrightarrow> evolves (same_rows_app S) (startup E A)"
  unfolding startup_def
  by (intro app_rows.evolves_bind engine_rows app_modify_rows on_rabbit_rows) simp_all

lemma shutdown_rows:
  "engine_laws (srv_pg S) E \<Longrightarrow> evolves (same_rows_app S) (shutdown E A)"
  unfolding shutdown_def
  by (intro app_rows.evolves_bind engine_rows app_modify_rows on_rabbit_rows on_svc_app_rows) simp_all

section \<open>Starting\<close>

text \<open>After the tables, the workers; after the workers, the consumer, whose failure is only logged.\<close>

lemma startup_run:
  assumes create: "eng_create_all E (w_db (ap_world a)) = (Inr (), d)"
  obtains r where "startup E A a = (Inr (), put_rabbit r (a\<lparr>ap_world := (ap_world a)\<lparr>w_db := d\<rparr>,
    ap_pool := worker_start (ap_pool a)\<rparr>))"
proof -
  let ?a1 = "a\<lparr>ap_world := (ap_world a)\<lparr>w_db := d\<rparr>, ap_pool := worker_start (ap_pool a)\<rparr>"
  obtain r where "handler_start A (rabbit_of ?a1) = (Inr (), r)" using handler_start_returns by blast
  with create show thesis
    by (intro that [of r]) (simp add: startup_def io_bind_def io_modify_def on_world_run on_db_run on_rabbit_run)
qed

lemma startup_fails:
  assumes "eng_create_all E (w_db (ap_world a)) = (Inl e, d)"
  shows "startup E A a = (Inl e, a\<lparr>ap_world := (ap_world a)\<lparr>w_db := d\<rparr>\<rparr>)"
  using assms by (simp add: startup_def io_bind_def on_world_run on_db_run)

section \<open>Stopping\<close>

lemma handler_stop_run:
  "handler_stop A r =
     (case rb_connection r of
        None \<Rightarrow> (Inr (), r\<lparr>rb_running := False\<rparr>)
      | Some c \<Rightarrow> on_broker (q_close A c) (r\<lparr>rb_running := False\<rparr>))"
  by (simp add: handler_stop_def io_bind_def io_modify_def io_gets_def io_return_def split: option.split)

lemma handler_stop_cases:
  assumes "handler_stop A r = (x, r')"
  obtains "rb_connection r = None" "x = Inr ()" "r' = r\<lparr>rb_running := False\<rparr>"
    | c q where "rb_connection r = Some c" "q_close A c (rb_amqp r) = (x, q)"
      "r' = r\<lparr>rb_running := False, rb_amqp := q\<rparr>"
  using assms
  by (auto simp: handler_stop_run on_broker_def io_zoom_def split: option.splits prod.splits)

text \<open>However it ends, shutting down stops the workers and the consumer.\<close>

lemma on_world_parts:
  "on_world m a = (x, a') \<Longrightarrow> ap_pool a' = ap_pool a \<and> ap_consuming a' = ap_consuming a \<and>
     ap_connection a' = ap_connection a"
  by (auto simp: on_world_def io_zoom_def split: prod.splits)

lemma shutdown_cases:
  assumes "shutdown E A a = (x, a')"
  obtains y r where "handler_stop A (rabbit_of a) = (y, r)" "\<not> rb_running r"
      "ap_pool a' = worker_stop (ap_pool a)" "ap_consuming a' = False"
      "(\<exists>e. y = Inl e \<and> x = Inl e \<and> a' = put_rabbit r (a\<lparr>ap_pool := worker_stop (ap_pool a)\<rparr>)) \<or>
       y = Inr ()"
proof -
  let ?a1 = "a\<lparr>ap_pool := worker_stop (ap_pool a)\<rparr>"
  have rab: "rabbit_of ?a1 = rabbit_of a" by (simp add: rabbit_of_def)
  obtain y r where stop: "handler_stop A (rabbit_of a) = (y, r)" by (cases "handler_stop A (rabbit_of a)")
  then have off: "\<not> rb_running r" by (cases rule: handler_stop_cases) simp_all
  have run: "io_bind (on_rabbit (handler_stop A)) (\<lambda>_. io_bind (on_world (on_svc (close_rabbitmq A))) (\<lambda>_.
      on_world (on_db (eng_dispose E)))) ?a1 = (x, a')"
    using assms by (simp add: shutdown_def io_bind_def io_modify_def)
  have rstop: "on_rabbit (handler_stop A) ?a1 = (y, put_rabbit r ?a1)"
    using stop by (intro on_rabbit_run) (simp add: rab)
  from run show thesis
  proof (cases rule: io_bind_cases)
    case (raised e)
    with rstop have "y = Inl e" "a' = put_rabbit r ?a1" by simp_all
    with raised(2) stop off show thesis by (intro that [of y r]) auto
  next
    case (returned u t)
    with rstop have t: "t = put_rabbit r ?a1" and y: "y = Inr u" by simp_all
    from returned(2) have "ap_pool a' = ap_pool t \<and> ap_consuming a' = ap_consuming t"
      by (cases rule: io_bind_cases) (auto dest!: on_world_parts)
    with t y stop off show thesis by (intro that [of y r]) simp_all
  qed
qed

text \<open>Where \<open>is_closed\<close> is a property, \<open>close_rabbitmq\<close> keeps a cached connection.\<close>

lemma close_rabbitmq_leaks:
  assumes "is_closed_is_property A" "close_rabbitmq A s = (x, s')"
  shows "rmq_connection s' = rmq_connection s"
proof (cases "rmq_connection s")
  case None
  then have "close_rabbitmq A s = (Inr (), s)" by (simp add: close_rabbitmq_def io_simps)
  with assms(2) show ?thesis by simp
next
  case (Some c)
  from close_rabbitmq_cached [OF assms(1) this] assms(2) show ?thesis by simp
qed

definition same_connection :: "('d, 'r, 'q, 'p) app \<Rightarrow> ('d, 'r, 'q, 'p) app \<Rightarrow> bool" where
  "same_connection a a' \<longleftrightarrow> rmq_connection (w_svc (ap_world a')) = rmq_connection (w_svc (ap_world a))"

interpretation app_connection: io_preorder same_connection
  by unfold_locales (auto simp: same_connection_def)

lemma shutdown_keeps_connection:
  assumes isp: "is_closed_is_property A" and run: "shutdown E A a = (x, a')"
  shows "rmq_connection (w_svc (ap_world a')) = rmq_connection (w_svc (ap_world a))"
proof -
  have "evolves same_connection (shutdown E A)"
    unfolding shutdown_def
    using close_rabbitmq_leaks [OF isp]
    by (intro app_connection.evolves_bind)
      (auto simp: evolves_def same_connection_def io_modify_def on_rabbit_def on_world_def on_svc_def on_db_def
        io_zoom_def split: prod.splits)
  from evolvesD [OF this run] show ?thesis by (simp add: same_connection_def)
qed

end
