(* ===== verification/Lifetime_Properties.thy ===== *)
theory Lifetime_Properties
  imports Application Notification_System Sample_Data
begin

text \<open>
  Properties of the process's lifetime (\<open>Application\<close>): starting and stopping, whatever the
  broker does, and the table across restarts and crashes, each with an instance.
\<close>

section \<open>Starting\<close>

text \<open>An engine on the reference database, whose tables exist already.\<close>

definition ref_engine :: "ref_db engine" where
  "ref_engine =
     \<lparr>eng_create_all = (\<lambda>d. if rd_up d then (Inr (), d) else (Inl ConnectionError, d)),
      eng_dispose = io_return ()\<rparr>"

lemma ref_engine_laws: "engine_laws (srv_pg ref_services) ref_engine"
  by (simp add: engine_laws_def ref_engine_def ref_pg_def io_return_def)

text \<open>Starting needs the database only: when the tables could be created, the workers run, one for each
  number below the worker count, and starting returns, whatever the broker does; the rows and
  the queue stay as they are. When they could not, starting raises and nothing has been started.\<close>

theorem startup_needs_the_database_only:
  assumes "engine_laws (srv_pg S) E"
  shows "case eng_create_all E (w_db w) of
      (Inr _, d) \<Rightarrow> \<exists>a. startup E A (app_init k w) = (Inr (), a) \<and> wp_running (ap_pool a) \<and>
        wp_tasks (ap_pool a) = [0..k - 1] \<and> ap_rows S a = w_rows S w \<and>
        w_entries S (ap_world a) = w_entries S w
    | (Inl e, d) \<Rightarrow> \<exists>a. startup E A (app_init k w) = (Inl e, a) \<and> \<not> wp_running (ap_pool a) \<and>
        wp_tasks (ap_pool a) = [] \<and> \<not> ap_consuming a \<and> ap_rows S a = w_rows S w"
proof -
  obtain x d where create: "eng_create_all E (w_db w) = (x, d)" by (cases "eng_create_all E (w_db w)")
  have rows: "pg_rows (srv_pg S) d = w_rows S w"
    using assms create unfolding engine_laws_def by blast
  have init: "w_db (ap_world (app_init k w)) = w_db w" by (simp add: app_init_def)
  show ?thesis
  proof (cases x)
    case (Inl e)
    from create Inl have "eng_create_all E (w_db (ap_world (app_init k w))) = (Inl e, d)" by (simp add: init)
    from startup_fails [OF this] create Inl rows show ?thesis by (simp add: app_init_def worker_init_def)
  next
    case (Inr u)
    with create have "eng_create_all E (w_db (ap_world (app_init k w))) = (Inr (), d)" by (simp add: init)
    then obtain r where "startup E A (app_init k w) = (Inr (), put_rabbit r ((app_init k w)
      \<lparr>ap_world := (ap_world (app_init k w))\<lparr>w_db := d\<rparr>, ap_pool := worker_start (ap_pool (app_init k w))\<rparr>))"
      by (rule startup_run)
    then show ?thesis using create Inr rows
      by (simp add: worker_start_def worker_init_def queue_entries_def app_init_def)
  qed
qed

text \<open>A broker that cannot be reached.\<close>

definition broker_outage :: ref_world where
  "broker_outage = ref_init\<lparr>w_svc := (w_svc ref_init)\<lparr>svc_amqp := (svc_amqp (w_svc ref_init))\<lparr>ra_up := False\<rparr>\<rparr>\<rparr>"

theorem startup_needs_the_database_only_witness:
  "\<exists>a. startup ref_engine ref_amqp_ops (app_init 2 broker_outage) = (Inr (), a) \<and> \<not> amqp_up ref_services broker_outage \<and>
     wp_running (ap_pool a) \<and> wp_tasks (ap_pool a) = [0, 1]"
proof -
  have create: "eng_create_all ref_engine (w_db broker_outage) = (Inr (), w_db broker_outage)"
    by (simp add: ref_engine_def broker_outage_def ref_init_def)
  have "\<not> amqp_up ref_services broker_outage"
    by (simp add: amqp_up_def broker_outage_def ref_amqp_ops_def)
  moreover have "[0..2 - 1] = [0, 1 :: int]" by code_simp
  ultimately show ?thesis
    using startup_needs_the_database_only [OF ref_engine_laws, where w = broker_outage and A = ref_amqp_ops and k = 2]
    unfolding create by auto
qed

section \<open>Stopping\<close>

text \<open>C26. Stopping always stops the workers and the consumer and never touches a row. But the steps after the
  consumer's depend on it: when closing its connection raises, stopping raises the same, and the retry
  connection of the queue service and the database pool are not closed. And where is_closed is a
  property, the retry connection is not closed in any case.\<close>

theorem shutdown_stops_and_may_leak:
  assumes laws: "engine_laws (srv_pg S) E" and run: "shutdown E (srv_amqp S) a = (x, a')"
  shows "\<not> wp_running (ap_pool a') \<and> \<not> ap_consuming a' \<and> ap_rows S a' = ap_rows S a \<and>
    (\<forall>c e q. ap_connection a = Some c \<and> q_close (srv_amqp S) c (broker_state (ap_world a)) = (Inl e, q) \<longrightarrow>
       x = Inl e \<and> w_db (ap_world a') = w_db (ap_world a) \<and>
       rmq_connection (w_svc (ap_world a')) = rmq_connection (w_svc (ap_world a))) \<and>
    (is_closed_is_property (srv_amqp S) \<longrightarrow>
       rmq_connection (w_svc (ap_world a')) = rmq_connection (w_svc (ap_world a)))"
proof -
  have rows: "ap_rows S a' = ap_rows S a"
    using evolvesD [OF shutdown_rows [OF laws] run] by (simp add: same_rows_app_def)
  from run obtain y r where stop: "handler_stop (srv_amqp S) (rabbit_of a) = (y, r)"
    and off: "ap_pool a' = worker_stop (ap_pool a)" "ap_consuming a' = False"
    and fin: "(\<exists>e. y = Inl e \<and> x = Inl e \<and> a' = put_rabbit r (a\<lparr>ap_pool := worker_stop (ap_pool a)\<rparr>)) \<or> y = Inr ()"
    by (rule shutdown_cases)
  have raises: "x = Inl e \<and> w_db (ap_world a') = w_db (ap_world a) \<and>
       rmq_connection (w_svc (ap_world a')) = rmq_connection (w_svc (ap_world a))"
    if "ap_connection a = Some c" "q_close (srv_amqp S) c (broker_state (ap_world a)) = (Inl e, q)" for c e q
  proof -
    from stop that have "y = Inl e"
      by (auto simp: handler_stop_run rabbit_of_def on_broker_def io_zoom_def)
    with fin show ?thesis by auto
  qed
  have leak: "rmq_connection (w_svc (ap_world a')) = rmq_connection (w_svc (ap_world a))"
    if isp: "is_closed_is_property (srv_amqp S)"
    using shutdown_keeps_connection [OF isp run] .
  show ?thesis using rows off raises leak by (simp add: worker_stop_def)
qed

text \<open>A started process with a cached retry connection whose broker goes away.\<close>

definition leaking_app :: "(ref_db, ref_redis, ref_amqp, mock_state) app" where
  "leaking_app = \<lparr>ap_world = broker_outage\<lparr>w_svc := (w_svc broker_outage)\<lparr>rmq_connection := Some 3\<rparr>\<rparr>,
     ap_pool = worker_start (worker_init None 2), ap_connection = Some 1, ap_channel = Some 2,
     ap_consuming = True\<rparr>"

theorem shutdown_stops_and_may_leak_witness:
  "\<exists>a. shutdown ref_engine ref_amqp_ops leaking_app = (Inl ConnectionError, a) \<and> \<not> wp_running (ap_pool a) \<and>
     rmq_connection (w_svc (ap_world a)) = Some 3"
proof -
  obtain x a where run: "shutdown ref_engine (srv_amqp ref_services) leaking_app = (x, a)"
    by (cases "shutdown ref_engine (srv_amqp ref_services) leaking_app")
  have "ap_connection leaking_app = Some 1"
    "q_close (srv_amqp ref_services) 1 (broker_state (ap_world leaking_app)) =
       (Inl ConnectionError, broker_state (ap_world leaking_app))"
    "rmq_connection (w_svc (ap_world leaking_app)) = Some 3"
    by (simp_all add: leaking_app_def broker_state_def broker_outage_def ref_amqp_ops_def ra_call_def)
  with shutdown_stops_and_may_leak [OF ref_engine_laws run] run show ?thesis by auto
qed

section \<open>Restarts and crashes\<close>

text \<open>
  The life of a deployment: steps of the service, orderly starts and stops, and crashes, after which
  a new process starts on the same database, with no handle, pool or consumer of the old one, and
  on whatever Redis and the broker have kept.
\<close>

inductive deployment_step ::
  "('d, 'r, 'q) services \<Rightarrow> 'd engine \<Rightarrow> (notification_channel \<Rightarrow> 'p provider option) \<Rightarrow>
   ('d, 'r, 'q, 'p) app \<Rightarrow> ('d, 'r, 'q, 'p) app \<Rightarrow> bool"
  for S :: "('d, 'r, 'q) services" and E :: "'d engine"
    and providers :: "notification_channel \<Rightarrow> 'p provider option"
where
  serve: "system_step S providers (ap_world a) w \<Longrightarrow> deployment_step S E providers a (a\<lparr>ap_world := w\<rparr>)"
| started: "startup E (srv_amqp S) a = (x, a') \<Longrightarrow> deployment_step S E providers a a'"
| stopped: "shutdown E (srv_amqp S) a = (x, a') \<Longrightarrow> deployment_step S E providers a a'"
| crashed: "w_rows S w = ap_rows S a \<Longrightarrow> deployment_step S E providers a (app_init k w)"

lemma deployment_step_system:
  assumes laws: "engine_laws (srv_pg S) E" and step: "deployment_step S E providers a a'"
  shows "system_step S providers (ap_world a) (ap_world a')"
  using step
proof cases
  case (serve w)
  then show ?thesis by simp
next
  case (started x)
  from evolvesD [OF startup_rows [OF laws] started] show ?thesis
    by (intro system_step.outside) (simp add: same_rows_app_def)
next
  case (stopped x)
  from evolvesD [OF shutdown_rows [OF laws] stopped] show ?thesis
    by (intro system_step.outside) (simp add: same_rows_app_def)
next
  case (crashed w k)
  then show ?thesis by (intro system_step.outside) (simp add: app_init_def)
qed

text \<open>C5. Restarts and crashes lose no notification and break no row: after any sequence of steps of the
  service, starts, stops and crashes on an empty table, every row satisfies the invariant of the
  life cycle, and continuing in the same way keeps every row, with what it was created with.\<close>

theorem restarts_keep_the_table:
  assumes laws: "services_laws S" "providers_ok providers" "engine_laws (srv_pg S) E"
    and empty: "ap_rows S a0 = (\<lambda>_. None)"
    and run: "(deployment_step S E providers)\<^sup>*\<^sup>* a0 a" "(deployment_step S E providers)\<^sup>*\<^sup>* a a'"
  shows "life_inv (ap_rows S a) \<and>
    (\<forall>i m. ap_rows S a i = Some m \<longrightarrow> (\<exists>n. ap_rows S a' i = Some n \<and> same_origin m n))"
proof -
  have lift: "(system_step S providers)\<^sup>*\<^sup>* (ap_world b) (ap_world c)"
    if "(deployment_step S E providers)\<^sup>*\<^sup>* b c" for b c
    using that
  proof (induction rule: rtranclp_induct)
    case (step y z)
    from step.IH deployment_step_system [OF laws(3) step.hyps(2)] show ?case
      by (rule rtranclp.rtrancl_into_rtrancl)
  qed simp
  have "reachable S providers (ap_world a0)" by (rule reachable.initial) (rule empty)
  from reachable_life_steps [OF laws(1,2) this lift [OF run(1)]]
  have reach: "reachable S providers (ap_world a)" by simp
  from reachable_life_steps [OF laws(1,2) reach lift [OF run(2)]]
  have "life_write\<^sup>*\<^sup>* (ap_rows S a) (ap_rows S a')" by (simp add: life_steps_def)
  with reachable_life_inv [OF laws(1,2) reach] show ?thesis by (auto dest: life_writes_origin)
qed

text \<open>A request, then a crash, after which only the row is left.\<close>

theorem restarts_keep_the_table_witness:
  "\<exists>r w n m. post_notification ref_services (notification_create_init sample_request) ref_init = (Inr r, w) \<and>
     w_rows ref_services w (nid n) = Some n \<and>
     ap_rows ref_services (app_init 100 (ref_init\<lparr>w_db := w_db w\<rparr>)) (nid n) = Some m \<and> same_origin n m"
proof -
  let ?start = "app_init 100 ref_init :: (ref_db, ref_redis, ref_amqp, mock_state) app"
  obtain n w r where row: "w_rows ref_services w (nid n) = Some n"
    and post: "post_notification ref_services (notification_create_init sample_request) ref_init = (Inr r, w)"
    using sample_posted by metis
  have init: "ap_world ?start = ref_init" by (simp add: app_init_def ref_init_def)
  let ?steps = "(deployment_step ref_services ref_engine main_providers)\<^sup>*\<^sup>*"
  have "system_step ref_services main_providers (ap_world ?start) w"
    unfolding init by (rule system_step.request [OF post])
  then have run1: "?steps ?start (?start\<lparr>ap_world := w\<rparr>)"
    by (intro r_into_rtranclp deployment_step.serve)
  have run2: "?steps (?start\<lparr>ap_world := w\<rparr>) (app_init 100 (ref_init\<lparr>w_db := w_db w\<rparr>))"
    by (intro r_into_rtranclp deployment_step.crashed) simp
  have empty: "ap_rows ref_services ?start = (\<lambda>_. None)" unfolding init by simp
  from restarts_keep_the_table [OF ref_services_laws main_providers_contract ref_engine_laws empty run1 run2] row
  obtain m where "ap_rows ref_services (app_init 100 (ref_init\<lparr>w_db := w_db w\<rparr>)) (nid n) = Some m" "same_origin n m"
    by auto
  with post row show ?thesis by blast
qed

end
