(* ===== verification/Topology.thy ===== *)
theory Topology
  imports Publisher Dispatch
begin

text \<open>
  The calls the code makes on the broker, seen by a broker that records them: which exchanges,
  queues and bindings the consumer, the publisher of retries, the dead letter and the script
  declare, in which order, and how much of it is there when the broker goes away in between.
\<close>

section \<open>A broker that records its calls\<close>

datatype broker_call =
    Call_connect
  | Call_open nat
  | Call_qos nat int
  | Call_exchange nat string exchange_type
  | Call_queue nat string "string option"
  | Call_bind nat string string "string option"
  | Call_consume nat string
  | Call_publish nat string string amqp_message
  | Call_close nat
  | Call_settle nat settlement

text \<open>It answers \<open>tr_left\<close> more calls and then goes away; calls it does not answer leave no trace.\<close>

record trace =
  tr_calls :: "broker_call list"
  tr_left :: nat

definition traced :: "broker_call \<Rightarrow> 'a \<Rightarrow> (trace, 'a) io" where
  "traced c x t =
     (if tr_left t = 0 then (Inl ConnectionError, t)
      else (Inr x, \<lparr>tr_calls = tr_calls t @ [c], tr_left = tr_left t - 1\<rparr>))"

definition trace_ops :: "trace amqp" where
  "trace_ops =
     \<lparr>q_published = (\<lambda>t. concat (map (\<lambda>c. case c of Call_publish ch e k m \<Rightarrow> [(e, k, m)] | _ \<Rightarrow> []) (tr_calls t))),
      q_settled = (\<lambda>_ _. None), q_up = (\<lambda>t. tr_left t \<noteq> 0),
      q_connect = traced Call_connect 1, q_open_channel = (\<lambda>c. traced (Call_open c) 2),
      q_conn_is_closed = (\<lambda>_. io_raise TypeError), q_chan_is_closed = (\<lambda>_. io_raise TypeError),
      q_set_qos = (\<lambda>ch k. traced (Call_qos ch k) ()),
      q_declare_exchange = (\<lambda>ch e t. traced (Call_exchange ch e t) ()),
      q_declare_queue = (\<lambda>ch q d. traced (Call_queue ch q d) ()),
      q_bind = (\<lambda>ch q e k. traced (Call_bind ch q e k) ()),
      q_consume = (\<lambda>ch q. traced (Call_consume ch q) ()),
      q_publish = (\<lambda>ch e k m. traced (Call_publish ch e k m) ()),
      q_close = (\<lambda>c. traced (Call_close c) ()),
      q_ack = (\<lambda>t. traced (Call_settle t Acked) ()),
      q_nack = (\<lambda>t b. traced (Call_settle t (Nacked b)) ())\<rparr>"

text \<open>
  A coroutine issues the calls \<open>cs\<close> and returns \<open>x\<close>, where \<open>get\<close> is the broker in its
  state: it makes as many of them, from the front, as are answered, and raises when one is not.
\<close>

definition issues :: "('s \<Rightarrow> trace) \<Rightarrow> ('s, 'a) io \<Rightarrow> broker_call list \<Rightarrow> 'a \<Rightarrow> bool" where
  "issues get m cs x \<longleftrightarrow>
     (\<forall>s. fst (m s) = (if length cs \<le> tr_left (get s) then Inr x else Inl ConnectionError) \<and>
        get (snd (m s)) = \<lparr>tr_calls = tr_calls (get s) @ take (tr_left (get s)) cs,
          tr_left = tr_left (get s) - length cs\<rparr>)"

lemma issues_return: "issues get (io_return x) [] x"
  by (simp add: issues_def io_return_def)

lemma issues_modify: "(\<And>s. get (f s) = get s) \<Longrightarrow> issues get (io_modify f) [] ()"
  by (simp add: issues_def io_modify_def)

lemma issues_bind:
  assumes "issues get m cs x" "issues get (f x) ds y"
  shows "issues get (io_bind m f) (cs @ ds) y"
  unfolding issues_def
proof
  fix s
  obtain r t where m: "m s = (r, t)" by (cases "m s")
  from assms(1) m have r: "r = (if length cs \<le> tr_left (get s) then Inr x else Inl ConnectionError)"
    and t: "get t = \<lparr>tr_calls = tr_calls (get s) @ take (tr_left (get s)) cs, tr_left = tr_left (get s) - length cs\<rparr>"
    unfolding issues_def by (metis fst_conv, metis snd_conv)
  show "fst (io_bind m f s) = (if length (cs @ ds) \<le> tr_left (get s) then Inr y else Inl ConnectionError) \<and>
      get (snd (io_bind m f s)) = \<lparr>tr_calls = tr_calls (get s) @ take (tr_left (get s)) (cs @ ds),
        tr_left = tr_left (get s) - length (cs @ ds)\<rparr>"
  proof (cases "length cs \<le> tr_left (get s)")
    case True
    with r m have "io_bind m f s = f x t" by (simp add: io_bind_def)
    moreover from assms(2) have "fst (f x t) = (if length ds \<le> tr_left (get t) then Inr y else Inl ConnectionError)"
      "get (snd (f x t)) = \<lparr>tr_calls = tr_calls (get t) @ take (tr_left (get t)) ds, tr_left = tr_left (get t) - length ds\<rparr>"
      unfolding issues_def by blast+
    ultimately show ?thesis using True t by simp linarith
  next
    case False
    with r m have "io_bind m f s = (Inl ConnectionError, t)" by (simp add: io_bind_def)
    with False t show ?thesis by simp
  qed
qed

lemma issues_foreach:
  assumes "\<And>x. x \<in> set xs \<Longrightarrow> issues get (f x ()) (g x) ()"
  shows "issues get (io_foreach f xs ()) (concat (map g xs)) ()"
  using assms by (induction xs) (auto intro: issues_return issues_bind)

lemma issues_zoom:
  assumes "\<And>s t. part (put t s) = t"
  shows "issues part (io_zoom part put (traced c x)) [c] x"
  using assms by (auto simp: issues_def io_zoom_def traced_def split: prod.splits)

lemma issues_on_broker: "issues rb_amqp (on_broker (traced c x)) [c] x"
  unfolding on_broker_def by (rule issues_zoom) simp

lemma issues_on_amqp: "issues svc_amqp (on_amqp (traced c x)) [c] x"
  unfolding on_amqp_def by (rule issues_zoom) simp

lemma trace_ops_simps [simp]:
  "q_connect trace_ops = traced Call_connect 1" "q_open_channel trace_ops c = traced (Call_open c) 2"
  "q_set_qos trace_ops ch k = traced (Call_qos ch k) ()"
  "q_declare_exchange trace_ops ch e t = traced (Call_exchange ch e t) ()"
  "q_declare_queue trace_ops ch q d = traced (Call_queue ch q d) ()"
  "q_bind trace_ops ch q e p = traced (Call_bind ch q e p) ()"
  "q_consume trace_ops ch q = traced (Call_consume ch q) ()"
  "q_publish trace_ops ch e rk m = traced (Call_publish ch e rk m) ()"
  "q_close trace_ops c = traced (Call_close c) ()"
  by (simp_all add: trace_ops_def)

section \<open>The consumer\<close>

definition topology_calls :: "nat \<Rightarrow> broker_call list" where
  "topology_calls ch =
     [Call_qos ch 100,
      Call_exchange ch EXCHANGE_NAME Topic,
      Call_exchange ch RETRY_EXCHANGE Fanout,
      Call_queue ch QUEUE_NAME None] @
     map (\<lambda>p. Call_bind ch QUEUE_NAME EXCHANGE_NAME (Some p)) ROUTING_KEYS @
     [Call_queue ch RETRY_QUEUE (Some RETRY_EXCHANGE),
      Call_queue ch RETRY_RESULT_QUEUE None,
      Call_bind ch RETRY_RESULT_QUEUE RETRY_EXCHANGE None,
      Call_consume ch QUEUE_NAME,
      Call_consume ch RETRY_RESULT_QUEUE]"

definition start_calls :: "broker_call list" where
  "start_calls = [Call_connect, Call_open 1] @ topology_calls 2"

lemma issues_eq: "issues get m cs x \<Longrightarrow> cs = ds \<Longrightarrow> issues get m ds x"
  by simp

lemma declare_topology_issues: "issues rb_amqp (declare_topology trace_ops ch) (topology_calls ch) ()"
proof -
  have bind: "issues rb_amqp (io_foreach (\<lambda>routing_key _. on_broker (q_bind trace_ops ch QUEUE_NAME EXCHANGE_NAME
      (Some routing_key))) ROUTING_KEYS ()) (concat (map (\<lambda>p. [Call_bind ch QUEUE_NAME EXCHANGE_NAME (Some p)])
      ROUTING_KEYS)) ()"
    by (rule issues_foreach) (simp add: issues_on_broker)
  have flat: "concat (map (\<lambda>p. [f p]) ps) = map f ps" for f :: "string \<Rightarrow> broker_call" and ps
    by (induction ps) simp_all
  show ?thesis
    unfolding declare_topology_def trace_ops_simps
    by (rule issues_eq, (rule issues_bind issues_on_broker bind [unfolded trace_ops_simps])+)
      (simp add: topology_calls_def flat)
qed

text \<open>
  \<open>start\<close> is the calls above and the two handles kept in between; whichever call fails,
  the calls before it have been made, and only after the last one the consumer is running.
\<close>

definition start_body :: "'q amqp \<Rightarrow> ('q rabbit, unit) io" where
  "start_body A =
     io_bind (on_broker (q_connect A)) (\<lambda>c.
     io_bind (io_modify (\<lambda>s. s\<lparr>rb_connection := Some c\<rparr>)) (\<lambda>_.
     io_bind (on_broker (q_open_channel A c)) (\<lambda>ch.
     io_bind (io_modify (\<lambda>s. s\<lparr>rb_channel := Some ch\<rparr>)) (\<lambda>_.
     declare_topology A ch))))"

lemma handler_start_body:
  "handler_start A =
     io_try (io_bind (start_body A) (\<lambda>_. io_modify (\<lambda>s. s\<lparr>rb_running := True\<rparr>))) (\<lambda>_. io_return ())"
  by (simp add: handler_start_def start_body_def io_bind_assoc)

lemma issues_handles:
  "issues rb_amqp (io_modify (\<lambda>s. s\<lparr>rb_connection := c\<rparr>)) [] ()"
  "issues rb_amqp (io_modify (\<lambda>s. s\<lparr>rb_channel := c\<rparr>)) [] ()"
  by (rule issues_modify, simp)+

lemma start_body_issues: "issues rb_amqp (start_body trace_ops) start_calls ()"
  unfolding start_body_def trace_ops_simps
  by (rule issues_eq, (rule issues_bind issues_on_broker issues_handles declare_topology_issues)+)
    (simp add: start_calls_def)

lemma on_broker_running: "evolves (same rb_running) (on_broker m)"
  by (auto simp: evolves_def same_def on_broker_def io_zoom_def split: prod.splits)

lemma start_body_running: "evolves (same rb_running) (start_body A)"
  unfolding start_body_def declare_topology_def
  by (intro unchanged.evolves_bind unchanged.evolves_modify unchanged.evolves_foreach on_broker_running)
    (simp_all add: same_def)

lemma start_calls_length: "length start_calls = 14"
  by (simp add: start_calls_def topology_calls_def ROUTING_KEYS_def)

lemma handler_start_trace:
  assumes left: "tr_left (rb_amqp s) = k" and off: "\<not> rb_running s"
  obtains s' where "handler_start trace_ops s = (Inr (), s')"
    "tr_calls (rb_amqp s') = tr_calls (rb_amqp s) @ take k start_calls"
    "rb_running s' \<longleftrightarrow> 14 \<le> k"
proof -
  obtain r t where body: "start_body trace_ops s = (r, t)" by (cases "start_body trace_ops s")
  have r: "r = (if 14 \<le> k then Inr () else Inl ConnectionError)"
    and t: "tr_calls (rb_amqp t) = tr_calls (rb_amqp s) @ take k start_calls"
    using start_body_issues body left unfolding issues_def start_calls_length
    by (metis fst_conv, metis snd_conv trace.select_convs(1))
  have "rb_running t = rb_running s" using evolvesD [OF start_body_running body] by (simp add: same_def)
  with off r t body show thesis
    by (intro that [of "if 14 \<le> k then t\<lparr>rb_running := True\<rparr> else t"])
      (simp_all add: handler_start_body io_try_def io_bind_def io_modify_def io_return_def)
qed

section \<open>Which calls a coroutine makes\<close>

definition only_calls :: "broker_call set \<Rightarrow> ('s \<Rightarrow> trace) \<Rightarrow> 's \<Rightarrow> 's \<Rightarrow> bool" where
  "only_calls C get s s' \<longleftrightarrow> set (tr_calls (get s')) \<subseteq> set (tr_calls (get s)) \<union> C"

interpretation calls: io_preorder "only_calls C get" for C get
  by unfold_locales (auto simp: only_calls_def)

lemma only_calls_issues: "issues get m cs x \<Longrightarrow> set cs \<subseteq> C \<Longrightarrow> evolves (only_calls C get) m"
  unfolding issues_def evolves_def only_calls_def
  by (smt (verit) UnE UnI1 UnI2 in_set_takeD set_append snd_conv subset_iff trace.select_convs(1))

lemma only_calls_same: "evolves (same get) m \<Longrightarrow> evolves (only_calls C get) m"
  by (auto simp: evolves_def same_def only_calls_def)

lemma only_calls_amqp: "c \<in> C \<Longrightarrow> evolves (only_calls C svc_amqp) (on_amqp (traced c x))"
  by (rule only_calls_issues [OF issues_on_amqp]) simp

lemma only_calls_amqp_raise: "evolves (only_calls C svc_amqp) (on_amqp (io_raise e))"
  by (auto simp: evolves_def only_calls_def on_amqp_def io_zoom_def io_raise_def)

lemma only_calls_pb_amqp: "c \<in> C \<Longrightarrow> evolves (only_calls C pb_amqp) (on_pb_amqp (traced c x))"
  unfolding on_pb_amqp_def by (rule only_calls_issues [OF issues_zoom]) simp_all

lemma only_calls_pb_host: "evolves (only_calls C pb_amqp) (on_pb_host m)"
  by (auto simp: evolves_def only_calls_def on_pb_host_def io_zoom_def split: prod.splits)

lemmas only_calls_intros =
  calls.evolves_bind calls.evolves_try calls.evolves_finally calls.evolves_foreach calls.evolves_return
  calls.evolves_raise calls.evolves_of calls.evolves_gets evolves_case_option evolves_if
  only_calls_amqp only_calls_amqp_raise only_calls_pb_amqp only_calls_pb_host

text \<open>What each program declares, binds, publishes and opens; \<open>ch\<close> is any handle.\<close>

definition handle_calls :: "broker_call set" where
  "handle_calls = range Call_open \<union> range Call_close \<union> {Call_connect} \<union>
     {c. \<exists>ch e k m. c = Call_publish ch e k m}"

definition retry_calls :: "broker_call set" where
  "retry_calls = handle_calls \<union> {c. \<exists>ch. c = Call_queue ch RETRY_QUEUE (Some RETRY_EXCHANGE)}"

definition dlq_calls :: "broker_call set" where
  "dlq_calls = handle_calls \<union> {c. \<exists>ch. c \<in> {Call_exchange ch DLQ_EXCHANGE Fanout, Call_queue ch DLQ_QUEUE None,
     Call_bind ch DLQ_QUEUE DLQ_EXCHANGE None}}"

definition script_calls :: "broker_call set" where
  "script_calls = handle_calls \<union> {c. \<exists>ch. c = Call_exchange ch EXCHANGE_NAME Topic}"

lemmas call_sets = handle_calls_def retry_calls_def dlq_calls_def script_calls_def

lemma trace_is_closed [simp]:
  "q_conn_is_closed trace_ops c = io_raise TypeError" "q_chan_is_closed trace_ops c = io_raise TypeError"
  by (simp_all add: trace_ops_def)

lemma publish_retry_calls: "evolves (only_calls retry_calls svc_amqp) (publish_retry trace_ops i delay)"
proof -
  have set_handles: "evolves (only_calls retry_calls svc_amqp) (io_modify (f :: ('r, trace) qsvc \<Rightarrow> _))"
    if "\<And>s. svc_amqp (f s) = svc_amqp s" for f
    by (rule calls.evolves_modify) (simp add: that only_calls_def)
  show ?thesis
    unfolding publish_retry_def get_rabbitmq_channel_def connect_and_open_def reopen_channel_def publish_on_def
      trace_ops_simps trace_is_closed
    by (intro only_calls_intros set_handles) (auto simp: call_sets)
qed

lemma dlq_publish_calls:
  assumes "srv_amqp S = trace_ops"
  shows "evolves (only_calls dlq_calls svc_amqp) (dlq_publish S c n code)"
proof -
  have host: "evolves (only_calls dlq_calls svc_amqp) (on_host (m :: (host, 'x) io))" for m
    by (rule only_calls_same) (rule svc_frame(4))
  show ?thesis
    unfolding dlq_publish_def assms Let_def trace_ops_simps
    by (intro only_calls_intros host) (auto simp: call_sets)
qed

lemma publish_event_calls: "evolves (only_calls script_calls pb_amqp) (publish_event trace_ops ch k event)"
  unfolding publish_event_def trace_ops_simps
  by (intro only_calls_intros) (auto simp: call_sets)

lemma run_sample_events_calls: "evolves (only_calls script_calls pb_amqp) (run_sample_events trace_ops events)"
proof -
  have step: "evolves (only_calls script_calls pb_amqp)
      ((\<lambda>(routing_key, event) (_ :: unit). publish_event trace_ops ch routing_key event) x acc)" for ch x acc
    by (cases x) (simp add: publish_event_calls)
  show ?thesis
    unfolding run_sample_events_def trace_ops_simps
    by (intro only_calls_intros step) (auto simp: call_sets)
qed

lemma run_load_test_calls: "evolves (only_calls script_calls pb_amqp) (run_load_test trace_ops count)"
  unfolding run_load_test_def load_test_body_def load_test_round_def load_test_rate_def Let_def trace_ops_simps
  by (intro only_calls_intros publish_event_calls) (auto simp: call_sets)

section \<open>The names\<close>

lemma names_distinct:
  "distinct [EXCHANGE_NAME, RETRY_EXCHANGE, DLQ_EXCHANGE, '''']"
  "distinct [QUEUE_NAME, RETRY_QUEUE, RETRY_RESULT_QUEUE, DLQ_QUEUE]"
  by (simp_all add: EXCHANGE_NAME_def RETRY_EXCHANGE_def DLQ_EXCHANGE_def QUEUE_NAME_def RETRY_QUEUE_def
      RETRY_RESULT_QUEUE_def DLQ_QUEUE_def)

lemmas names_differ = names_distinct [simplified distinct.simps list.set insert_iff empty_iff de_Morgan_disj]

section \<open>What is declared at all\<close>

definition every_call :: "broker_call set" where
  "every_call = set start_calls \<union> retry_calls \<union> dlq_calls \<union> script_calls"

lemma declared_exchanges:
  "{(e, t). \<exists>ch. Call_exchange ch e t \<in> every_call} \<subseteq>
     {(EXCHANGE_NAME, Topic), (RETRY_EXCHANGE, Fanout), (DLQ_EXCHANGE, Fanout)}"
  by (auto simp: every_call_def start_calls_def topology_calls_def call_sets)

lemma declared_queues:
  "{(q, d). \<exists>ch. Call_queue ch q d \<in> every_call} \<subseteq>
     {(QUEUE_NAME, None), (RETRY_QUEUE, Some RETRY_EXCHANGE), (RETRY_RESULT_QUEUE, None), (DLQ_QUEUE, None)}"
  by (auto simp: every_call_def start_calls_def topology_calls_def call_sets)

lemma declared_bindings:
  "{(q, e). \<exists>ch p. Call_bind ch q e p \<in> every_call} \<subseteq>
     {(QUEUE_NAME, EXCHANGE_NAME), (RETRY_RESULT_QUEUE, RETRY_EXCHANGE), (DLQ_QUEUE, DLQ_EXCHANGE)}"
  by (auto simp: every_call_def start_calls_def topology_calls_def call_sets)

text \<open>Whatever makes only such calls declares with these arguments only.\<close>

lemma declarations_of_subset:
  assumes "C \<subseteq> every_call"
  shows "{(e, t). \<exists>ch. Call_exchange ch e t \<in> C} \<subseteq>
      {(EXCHANGE_NAME, Topic), (RETRY_EXCHANGE, Fanout), (DLQ_EXCHANGE, Fanout)}"
    and "{(q, d). \<exists>ch. Call_queue ch q d \<in> C} \<subseteq>
      {(QUEUE_NAME, None), (RETRY_QUEUE, Some RETRY_EXCHANGE), (RETRY_RESULT_QUEUE, None), (DLQ_QUEUE, None)}"
    and "{(q, e). \<exists>ch p. Call_bind ch q e p \<in> C} \<subseteq>
      {(QUEUE_NAME, EXCHANGE_NAME), (RETRY_RESULT_QUEUE, RETRY_EXCHANGE), (DLQ_QUEUE, DLQ_EXCHANGE)}"
  by (rule order_trans [OF _ declared_exchanges], use assms in blast,
      rule order_trans [OF _ declared_queues], use assms in blast,
      rule order_trans [OF _ declared_bindings], use assms in blast)

text \<open>The consumer's calls, one kind at a time.\<close>

lemma start_calls_iff:
  "Call_exchange ch e t \<in> set start_calls \<longleftrightarrow>
     ch = 2 \<and> (e = EXCHANGE_NAME \<and> t = Topic \<or> e = RETRY_EXCHANGE \<and> t = Fanout)"
  "Call_queue ch q d \<in> set start_calls \<longleftrightarrow>
     ch = 2 \<and> (q = QUEUE_NAME \<and> d = None \<or> q = RETRY_QUEUE \<and> d = Some RETRY_EXCHANGE \<or>
       q = RETRY_RESULT_QUEUE \<and> d = None)"
  "Call_bind ch q e p \<in> set start_calls \<longleftrightarrow>
     ch = 2 \<and> (q = QUEUE_NAME \<and> e = EXCHANGE_NAME \<and> p \<in> Some ` set ROUTING_KEYS \<or>
       q = RETRY_RESULT_QUEUE \<and> e = RETRY_EXCHANGE \<and> p = None)"
  "Call_consume ch q \<in> set start_calls \<longleftrightarrow> ch = 2 \<and> q \<in> {QUEUE_NAME, RETRY_RESULT_QUEUE}"
  by (auto simp: start_calls_def topology_calls_def)

end
