(* ===== verification/Topology_Properties.thy ===== *)
theory Topology_Properties
  imports Topology Sample_Data
begin

text \<open>
  What the programs declare on the broker (\<open>Topology\<close>) and where that takes their messages, each
  with an instance.
\<close>

section \<open>Declarations\<close>

text \<open>C24. The consumer declares its topology in one order and consumes only when all of it is there: when
  the broker answers k calls and then goes away, the first k of the fourteen calls have been made,
  starting returns all the same, and the consumer is running exactly when all were answered.\<close>

theorem consumer_declares_then_consumes:
  assumes "tr_left (rb_amqp s) = k" "tr_calls (rb_amqp s) = []" "\<not> rb_running s"
  shows "\<exists>s'. handler_start trace_ops s = (Inr (), s') \<and> (rb_running s' \<longleftrightarrow> 14 \<le> k) \<and>
    tr_calls (rb_amqp s') = take k
     [Call_connect, Call_open 1, Call_qos 2 100,
      Call_exchange 2 ''notification.exchange'' Topic, Call_exchange 2 ''notification.retry.exchange'' Fanout,
      Call_queue 2 ''notification.queue'' None,
      Call_bind 2 ''notification.queue'' ''notification.exchange'' (Some ''order.*''),
      Call_bind 2 ''notification.queue'' ''notification.exchange'' (Some ''payment.*''),
      Call_bind 2 ''notification.queue'' ''notification.exchange'' (Some ''shipping.*''),
      Call_queue 2 ''notification.retry'' (Some ''notification.retry.exchange''),
      Call_queue 2 ''notification.retry.result'' None,
      Call_bind 2 ''notification.retry.result'' ''notification.retry.exchange'' None,
      Call_consume 2 ''notification.queue'', Call_consume 2 ''notification.retry.result'']"
proof -
  from handler_start_trace [OF assms(1,3)] obtain s' where "handler_start trace_ops s = (Inr (), s')"
    "tr_calls (rb_amqp s') = take k start_calls" "rb_running s' \<longleftrightarrow> 14 \<le> k" by (metis append_Nil assms(2))
  then show ?thesis
    by (simp add: start_calls_def topology_calls_def EXCHANGE_NAME_def RETRY_EXCHANGE_def QUEUE_NAME_def
      RETRY_QUEUE_def RETRY_RESULT_QUEUE_def ROUTING_KEYS_def)
qed

definition fresh_trace :: "nat \<Rightarrow> trace" where
  "fresh_trace k = \<lparr>tr_calls = [], tr_left = k\<rparr>"

definition idle_consumer :: "nat \<Rightarrow> trace rabbit" where
  "idle_consumer k = \<lparr>rb_amqp = fresh_trace k, rb_connection = None, rb_channel = None, rb_running = False\<rparr>"

theorem consumer_declares_then_consumes_witness:
  "\<exists>s'. handler_start trace_ops (idle_consumer 3) = (Inr (), s') \<and> \<not> rb_running s' \<and>
     tr_calls (rb_amqp s') = [Call_connect, Call_open 1, Call_qos 2 100]"
proof -
  have "tr_left (rb_amqp (idle_consumer 3)) = 3" "tr_calls (rb_amqp (idle_consumer 3)) = []"
    "\<not> rb_running (idle_consumer 3)" by (simp_all add: idle_consumer_def fresh_trace_def)
  from consumer_declares_then_consumes [OF this] show ?thesis by (simp add: eval_nat_numeral)
qed

text \<open>What each program has called on a broker that answers \<open>k\<close> calls.\<close>

definition consumer_calls :: "nat \<Rightarrow> trace rabbit \<Rightarrow> broker_call set" where
  "consumer_calls k s = set (tr_calls (rb_amqp (snd (handler_start trace_ops
     (s\<lparr>rb_amqp := fresh_trace k, rb_running := False\<rparr>)))))"

definition publisher_calls :: "nat \<Rightarrow> (trace publisher, 'a) io \<Rightarrow> trace publisher \<Rightarrow> broker_call set" where
  "publisher_calls k m s = set (tr_calls (pb_amqp (snd (m (s\<lparr>pb_amqp := fresh_trace k\<rparr>)))))"

definition service_calls :: "nat \<Rightarrow> (('r, trace) qsvc, 'a) io \<Rightarrow> ('r, trace) qsvc \<Rightarrow> broker_call set" where
  "service_calls k m s = set (tr_calls (svc_amqp (snd (m (s\<lparr>svc_amqp := fresh_trace k\<rparr>)))))"

lemma evolves_calls:
  "evolves (only_calls C get) m \<Longrightarrow> tr_calls (get s) = [] \<Longrightarrow> set (tr_calls (get (snd (m s)))) \<subseteq> C"
  unfolding evolves_def only_calls_def by (metis empty_set prod.collapse sup_bot_left)

lemma consumer_calls_subset: "consumer_calls k s \<subseteq> set start_calls"
proof -
  obtain s' where "handler_start trace_ops (s\<lparr>rb_amqp := fresh_trace k, rb_running := False\<rparr>) = (Inr (), s')"
    "tr_calls (rb_amqp s') = tr_calls (rb_amqp (s\<lparr>rb_amqp := fresh_trace k, rb_running := False\<rparr>)) @ take k start_calls"
    by (rule handler_start_trace [of "s\<lparr>rb_amqp := fresh_trace k, rb_running := False\<rparr>" k])
      (simp_all add: fresh_trace_def)
  then show ?thesis by (auto simp: consumer_calls_def fresh_trace_def dest: in_set_takeD)
qed

text \<open>All programs agree on the broker: whatever fails, the consumer, the publisher of retries, the dead
  letter and both parts of the script declare each exchange with one type, each queue with one
  dead-letter exchange, and each binding between declared names, so no declaration is refused for
  arguments that differ from an earlier one.\<close>

theorem declarations_agree:
  "let C = consumer_calls k1 s1 \<union> service_calls k2 (publish_retry trace_ops i delay) s2 \<union>
      service_calls k3 (dlq_publish \<lparr>srv_pg = P, srv_redis = R, srv_amqp = trace_ops\<rparr> conn n code) s3 \<union>
      publisher_calls k4 (run_sample_events trace_ops events) s4 \<union>
      publisher_calls k5 (run_load_test trace_ops count) s5
  in {(e, t). \<exists>ch. Call_exchange ch e t \<in> C} \<subseteq>
      {(EXCHANGE_NAME, Topic), (RETRY_EXCHANGE, Fanout), (DLQ_EXCHANGE, Fanout)} \<and>
    {(q, d). \<exists>ch. Call_queue ch q d \<in> C} \<subseteq>
      {(QUEUE_NAME, None), (RETRY_QUEUE, Some RETRY_EXCHANGE), (RETRY_RESULT_QUEUE, None), (DLQ_QUEUE, None)} \<and>
    {(q, e). \<exists>ch p. Call_bind ch q e p \<in> C} \<subseteq>
      {(QUEUE_NAME, EXCHANGE_NAME), (RETRY_RESULT_QUEUE, RETRY_EXCHANGE), (DLQ_QUEUE, DLQ_EXCHANGE)} \<and>
    distinct [EXCHANGE_NAME, RETRY_EXCHANGE, DLQ_EXCHANGE] \<and>
    distinct [QUEUE_NAME, RETRY_QUEUE, RETRY_RESULT_QUEUE, DLQ_QUEUE]"
proof -
  have "service_calls k2 (publish_retry trace_ops i delay) s2 \<subseteq> retry_calls"
    unfolding service_calls_def by (rule evolves_calls [OF publish_retry_calls]) (simp add: fresh_trace_def)
  moreover have "service_calls k3 (dlq_publish \<lparr>srv_pg = P, srv_redis = R, srv_amqp = trace_ops\<rparr> conn n code) s3 \<subseteq> dlq_calls"
    unfolding service_calls_def
    by (rule evolves_calls [OF dlq_publish_calls]) (simp_all add: fresh_trace_def)
  moreover have "publisher_calls k4 (run_sample_events trace_ops events) s4 \<subseteq> script_calls"
    unfolding publisher_calls_def by (rule evolves_calls [OF run_sample_events_calls]) (simp add: fresh_trace_def)
  moreover have "publisher_calls k5 (run_load_test trace_ops count) s5 \<subseteq> script_calls"
    unfolding publisher_calls_def by (rule evolves_calls [OF run_load_test_calls]) (simp add: fresh_trace_def)
  moreover note consumer_calls_subset [of k1 s1]
  ultimately have "consumer_calls k1 s1 \<union> service_calls k2 (publish_retry trace_ops i delay) s2 \<union>
      service_calls k3 (dlq_publish \<lparr>srv_pg = P, srv_redis = R, srv_amqp = trace_ops\<rparr> conn n code) s3 \<union>
      publisher_calls k4 (run_sample_events trace_ops events) s4 \<union>
      publisher_calls k5 (run_load_test trace_ops count) s5 \<subseteq> every_call"
    unfolding every_call_def by blast
  note parts = declarations_of_subset [OF this]
  show ?thesis
    unfolding Let_def by (intro conjI parts names_distinct(2)) (use names_distinct(1) in simp)
qed

section \<open>Routes\<close>

text \<open>
  What the documentation of RabbitMQ says of the routing that the code relies on: the default
  exchange takes a message to the queue named by its key, a fanout exchange to every queue bound
  to it, a topic exchange to those bound with a pattern that matches. The matching of patterns is a
  parameter.
\<close>

definition routing_law ::
  "(broker_call list \<Rightarrow> string \<Rightarrow> string \<Rightarrow> string set) \<Rightarrow> (string \<Rightarrow> string \<Rightarrow> bool) \<Rightarrow> bool"
where
  "routing_law route matches \<longleftrightarrow>
     (\<forall>cs key. route cs [] key = {q. q = key \<and> (\<exists>ch d. Call_queue ch q d \<in> set cs)}) \<and>
     (\<forall>cs e key. e \<noteq> [] \<and> {t. \<exists>ch. Call_exchange ch e t \<in> set cs} = {Fanout} \<longrightarrow>
        route cs e key = {q. \<exists>ch p. Call_bind ch q e p \<in> set cs}) \<and>
     (\<forall>cs e key. e \<noteq> [] \<and> {t. \<exists>ch. Call_exchange ch e t \<in> set cs} = {Topic} \<longrightarrow>
        route cs e key = {q. \<exists>ch p. Call_bind ch q e (Some p) \<in> set cs \<and> matches p key})"

text \<open>C25. Every message finds its callback: on the started consumer's topology a new event goes to the main
  queue exactly when one of the three patterns takes its key; a retry goes to the retry queue, which
  nobody consumes, so that it waits for its expiration, and from the dead-letter exchange of that
  queue to the result queue alone; and the consumer reads exactly the main and the result queue.\<close>

theorem messages_find_their_callback:
  assumes law: "routing_law route matches"
    and start: "handler_start trace_ops (idle_consumer k) = (Inr (), s)" "rb_running s"
  shows "let cs = tr_calls (rb_amqp s) in
    (\<forall>key. route cs EXCHANGE_NAME key =
       (if \<exists>p \<in> set ROUTING_KEYS. matches p key then {QUEUE_NAME} else {})) \<and>
    route cs [] RETRY_QUEUE = {RETRY_QUEUE} \<and>
    {d. \<exists>ch. Call_queue ch RETRY_QUEUE d \<in> set cs} = {Some RETRY_EXCHANGE} \<and>
    (\<forall>key. route cs RETRY_EXCHANGE key = {RETRY_RESULT_QUEUE}) \<and>
    {q. \<exists>ch. Call_consume ch q \<in> set cs} = {QUEUE_NAME, RETRY_RESULT_QUEUE}"
proof -
  obtain s' where "handler_start trace_ops (idle_consumer k) = (Inr (), s')"
    "tr_calls (rb_amqp s') = take k start_calls" "rb_running s' \<longleftrightarrow> 14 \<le> k"
    by (rule handler_start_trace [of "idle_consumer k" k]) (simp_all add: idle_consumer_def fresh_trace_def)
  with start have cs: "tr_calls (rb_amqp s) = start_calls" by (simp add: start_calls_length)
  note law' = law [unfolded routing_law_def]
  have types: "{t. \<exists>ch. Call_exchange ch EXCHANGE_NAME t \<in> set start_calls} = {Topic}"
    "{t. \<exists>ch. Call_exchange ch RETRY_EXCHANGE t \<in> set start_calls} = {Fanout}"
    using names_differ by (auto simp: start_calls_iff)
  have "route start_calls EXCHANGE_NAME key =
      {q. \<exists>ch p. Call_bind ch q EXCHANGE_NAME (Some p) \<in> set start_calls \<and> matches p key}" for key
    using law' types(1) names_differ by blast
  moreover have "{q. \<exists>ch p. Call_bind ch q EXCHANGE_NAME (Some p) \<in> set start_calls \<and> matches p key} =
      (if \<exists>p \<in> set ROUTING_KEYS. matches p key then {QUEUE_NAME} else {})" for key
    unfolding start_calls_iff using names_differ by auto
  ultimately have new: "route start_calls EXCHANGE_NAME key =
      (if \<exists>p \<in> set ROUTING_KEYS. matches p key then {QUEUE_NAME} else {})" for key by simp
  have "route start_calls RETRY_EXCHANGE key = {q. \<exists>ch p. Call_bind ch q RETRY_EXCHANGE p \<in> set start_calls}" for key
    using law' types(2) names_differ by blast
  moreover have "{q. \<exists>ch p. Call_bind ch q RETRY_EXCHANGE p \<in> set start_calls} = {RETRY_RESULT_QUEUE}"
    unfolding start_calls_iff using names_differ by auto
  ultimately have expired: "route start_calls RETRY_EXCHANGE key = {RETRY_RESULT_QUEUE}" for key by simp
  have retry: "route start_calls [] RETRY_QUEUE = {RETRY_QUEUE}"
    using law' by (auto simp: start_calls_iff)
  show ?thesis
    unfolding Let_def cs
    by (intro conjI allI new expired retry) (use names_differ in \<open>auto simp: start_calls_iff\<close>)
qed

text \<open>Patterns as prefixes up to the star.\<close>

definition plain_route ::
  "(string \<Rightarrow> string \<Rightarrow> bool) \<Rightarrow> broker_call list \<Rightarrow> string \<Rightarrow> string \<Rightarrow> string set"
where
  "plain_route matches cs e key =
     (if e = [] then {q. q = key \<and> (\<exists>ch d. Call_queue ch q d \<in> set cs)}
      else {q. \<exists>ch p. Call_bind ch q e p \<in> set cs \<and>
        ((\<exists>ch. Call_exchange ch e Fanout \<in> set cs) \<or> (\<exists>k. p = Some k \<and> matches k key))})"

lemma plain_route_law: "routing_law (plain_route matches) matches"
  unfolding routing_law_def plain_route_def by (auto simp: set_eq_iff)

definition star_matches :: "string \<Rightarrow> string \<Rightarrow> bool" where
  "star_matches p key \<longleftrightarrow> take (length p - 1) p = take (length p - 1) key"

theorem messages_find_their_callback_witness:
  "\<exists>s. handler_start trace_ops (idle_consumer 14) = (Inr (), s) \<and>
     plain_route star_matches (tr_calls (rb_amqp s)) EXCHANGE_NAME ''payment.otp'' = {QUEUE_NAME}"
proof -
  obtain s where s: "handler_start trace_ops (idle_consumer 14) = (Inr (), s)" "rb_running s"
    by (rule handler_start_trace [of "idle_consumer 14" 14]) (simp_all add: idle_consumer_def fresh_trace_def)
  have "\<exists>p \<in> set ROUTING_KEYS. star_matches p ''payment.otp''"
    by (simp add: ROUTING_KEYS_def star_matches_def)
  with messages_find_their_callback [OF plain_route_law s, of star_matches] s show ?thesis
    by (auto simp: Let_def)
qed

end
