(* ===== verification/Coroutine.thy ===== *)
theory Coroutine
  imports Notif_Prelude
begin

text \<open>
  Coroutines that can be interrupted: between two steps of a task the event loop may run other tasks
  on the shared state. A coroutine of \<open>Notif_Prelude\<close> is such a one run without interruption
  (\<open>co_run\<close>). Pools of tasks are stepped in any order, and what every step of every task keeps
  is kept by the pool.
\<close>

section \<open>Tasks\<close>

text \<open>\<open>Awaits f\<close> is a task at a point of suspension: \<open>f\<close> is what it does until the next one.\<close>

datatype ('s, 'a) coroutine =
    Finished "py_exn + 'a"
  | Awaits "'s \<Rightarrow> ('s, 'a) coroutine \<times> 's"

primrec co_run :: "('s, 'a) coroutine \<Rightarrow> ('s, 'a) io" where
  "co_run (Finished r) = (\<lambda>s. (r, s))"
| "co_run (Awaits f) = (\<lambda>s. case map_prod co_run id (f s) of (rest, t) \<Rightarrow> rest t)"

definition co_return :: "'a \<Rightarrow> ('s, 'a) coroutine" where
  "co_return x = Finished (Inr x)"

definition co_raise :: "py_exn \<Rightarrow> ('s, 'a) coroutine" where
  "co_raise e = Finished (Inl e)"

definition co_of :: "py_exn + 'a \<Rightarrow> ('s, 'a) coroutine" where
  "co_of r = Finished r"

text \<open>One step: a call of a server, or a read or a write of an attribute of \<open>self\<close>.\<close>

definition co_step :: "('s, 'a) io \<Rightarrow> ('s, 'a) coroutine" where
  "co_step m = Awaits (\<lambda>s. case m s of (r, t) \<Rightarrow> (Finished r, t))"

primrec co_bind :: "('s, 'a) coroutine \<Rightarrow> ('a \<Rightarrow> ('s, 'b) coroutine) \<Rightarrow> ('s, 'b) coroutine" where
  "co_bind (Finished r) f = (case r of Inl e \<Rightarrow> Finished (Inl e) | Inr x \<Rightarrow> f x)"
| "co_bind (Awaits g) f = Awaits (\<lambda>s. map_prod (\<lambda>c. co_bind c f) id (g s))"

primrec co_try :: "('s, 'a) coroutine \<Rightarrow> (py_exn \<Rightarrow> ('s, 'a) coroutine) \<Rightarrow> ('s, 'a) coroutine" where
  "co_try (Finished r) h = (case r of Inl e \<Rightarrow> h e | Inr x \<Rightarrow> Finished (Inr x))"
| "co_try (Awaits g) h = Awaits (\<lambda>s. map_prod (\<lambda>c. co_try c h) id (g s))"

text \<open>\<open>async with\<close>: whatever the body ends with, the exit runs, and its exception wins.\<close>

primrec co_finally :: "('s, 'a) coroutine \<Rightarrow> ('s, unit) coroutine \<Rightarrow> ('s, 'a) coroutine" where
  "co_finally (Finished r) fin = co_bind fin (\<lambda>_. Finished r)"
| "co_finally (Awaits g) fin = Awaits (\<lambda>s. map_prod (\<lambda>c. co_finally c fin) id (g s))"

fun co_foreach :: "('x \<Rightarrow> 'a \<Rightarrow> ('s, 'a) coroutine) \<Rightarrow> 'x list \<Rightarrow> 'a \<Rightarrow> ('s, 'a) coroutine" where
  "co_foreach f [] acc = co_return acc"
| "co_foreach f (x # xs) acc = co_bind (f x acc) (co_foreach f xs)"

primrec co_zoom :: "('s \<Rightarrow> 't) \<Rightarrow> ('t \<Rightarrow> 's \<Rightarrow> 's) \<Rightarrow> ('t, 'a) coroutine \<Rightarrow> ('s, 'a) coroutine" where
  "co_zoom get put (Finished r) = Finished r"
| "co_zoom get put (Awaits f) = Awaits (\<lambda>s. map_prod (co_zoom get put) (\<lambda>t. put t s) (f (get s)))"

text \<open>The equations at a point of suspension, by the first step.\<close>

lemma suspended [simp]:
  "co_run (Awaits g) = (\<lambda>s. case g s of (c, t) \<Rightarrow> co_run c t)"
  "co_bind (Awaits g) f = Awaits (\<lambda>s. case g s of (c, t) \<Rightarrow> (co_bind c f, t))"
  "co_try (Awaits g) h = Awaits (\<lambda>s. case g s of (c, t) \<Rightarrow> (co_try c h, t))"
  "co_finally (Awaits g) fin = Awaits (\<lambda>s. case g s of (c, t) \<Rightarrow> (co_finally c fin, t))"
  "co_zoom get put (Awaits g') = Awaits (\<lambda>s. case g' (get s) of (c, t) \<Rightarrow> (co_zoom get put c, put t s))"
  by (simp_all add: fun_eq_iff split: prod.split)

declare co_run.simps(2) [simp del] co_bind.simps(2) [simp del] co_try.simps(2) [simp del]
  co_finally.simps(2) [simp del] co_zoom.simps(2) [simp del]

section \<open>Running without interruption\<close>

named_theorems co_run_simps "what a task does when nothing runs in between"

lemma co_run_return [co_run_simps]: "co_run (co_return x) = io_return x"
  by (simp add: co_return_def io_return_def)

lemma co_run_raise [co_run_simps]: "co_run (co_raise e) = io_raise e"
  by (simp add: co_raise_def io_raise_def)

lemma co_run_of [co_run_simps]: "co_run (co_of r) = io_of r"
  by (simp add: co_of_def io_of_def)

lemma co_run_step [co_run_simps]: "co_run (co_step m) = m"
  by (rule ext) (simp add: co_step_def split: prod.split)

text \<open>The induction over a task: the tasks that may be left after its first step.\<close>

lemma coroutine_steps_induct [case_names Finished Awaits]:
  assumes "\<And>r. P (Finished r)" "\<And>g. (\<And>s c t. g s = (c, t) \<Longrightarrow> P c) \<Longrightarrow> P (Awaits g)"
  shows "P c"
proof (induction c)
  case (Awaits g)
  have "P c" if "g s = (c, t)" for s c t
    using Awaits [OF rangeI, of c s] that by (simp add: fsts.simps)
  then show ?case by (rule assms(2))
qed (rule assms(1))

lemma co_run_bind [co_run_simps]: "co_run (co_bind c f) = io_bind (co_run c) (\<lambda>x. co_run (f x))"
proof (induction c rule: coroutine_steps_induct)
  case (Finished r)
  then show ?case by (auto simp: io_bind_def split: sum.split)
next
  case (Awaits g)
  then show ?case by (intro ext) (simp add: io_bind_def split: prod.split)
qed

lemma co_run_try [co_run_simps]: "co_run (co_try c h) = io_try (co_run c) (\<lambda>e. co_run (h e))"
proof (induction c rule: coroutine_steps_induct)
  case (Finished r)
  then show ?case by (auto simp: io_try_def split: sum.split)
next
  case (Awaits g)
  then show ?case by (intro ext) (simp add: io_try_def split: prod.split)
qed

lemma co_run_finally [co_run_simps]: "co_run (co_finally c fin) = io_finally (co_run c) (co_run fin)"
proof (induction c rule: coroutine_steps_induct)
  case (Finished r)
  show ?case
    by (intro ext) (simp add: io_finally_def co_run_bind io_bind_def split: prod.split sum.split)
next
  case (Awaits g)
  then show ?case by (intro ext) (simp add: io_finally_def split: prod.split)
qed

lemma co_run_foreach [co_run_simps]:
  "co_run (co_foreach f xs acc) = io_foreach (\<lambda>x a. co_run (f x a)) xs acc"
  by (induction xs arbitrary: acc) (simp_all add: co_run_simps)

lemma co_run_zoom [co_run_simps]:
  assumes "\<And>t s. get (put t s) = t" "\<And>t u s. put t (put u s) = put t s" "\<And>s. put (get s) s = s"
  shows "co_run (co_zoom get put c) = io_zoom get put (co_run c)"
proof (induction c rule: coroutine_steps_induct)
  case (Finished r)
  then show ?case by (auto simp: io_zoom_def assms)
next
  case (Awaits g)
  then show ?case by (intro ext) (simp add: io_zoom_def assms split: prod.split)
qed

text \<open>From a given state on: the task does there what the coroutine does.\<close>

definition same_run :: "'s \<Rightarrow> ('s, 'a) coroutine \<Rightarrow> ('s, 'a) io \<Rightarrow> bool" where
  "same_run s c m \<longleftrightarrow> co_run c s = m s"

lemma same_run_eq: "co_run c = m \<Longrightarrow> same_run s c m"
  by (simp add: same_run_def)

lemma same_run_bind:
  assumes "same_run s c m" "\<And>x t. m s = (Inr x, t) \<Longrightarrow> same_run t (f x) (g x)"
  shows "same_run s (co_bind c f) (io_bind m g)"
  using assms by (auto simp: same_run_def co_run_bind io_bind_def split: prod.split sum.split)

lemma same_run_try:
  assumes "same_run s c m" "\<And>e t. m s = (Inl e, t) \<Longrightarrow> same_run t (h e) (k e)"
  shows "same_run s (co_try c h) (io_try m k)"
  using assms by (auto simp: same_run_def co_run_try io_try_def split: prod.split sum.split)

lemma same_run_if:
  assumes "b \<Longrightarrow> same_run s c m" "\<not> b \<Longrightarrow> same_run s d k"
  shows "same_run s (if b then c else d) (if b then m else k)"
  using assms by simp

lemma same_run_option:
  assumes "x = None \<Longrightarrow> same_run s c m" "\<And>y. x = Some y \<Longrightarrow> same_run s (f y) (g y)"
  shows "same_run s (case x of None \<Rightarrow> c | Some y \<Rightarrow> f y) (case x of None \<Rightarrow> m | Some y \<Rightarrow> g y)"
  using assms by (cases x) simp_all

section \<open>What every step keeps\<close>

text \<open>
  Suspended in the state \<open>s\<close>, a task is resumed in any state that steps of \<open>R\<close> lead to and that
  satisfies \<open>I\<close>. Then each of its steps is one of \<open>R\<close>, and its result satisfies \<open>Q\<close> in the state in
  which it ends.
\<close>

primrec co_safe ::
  "('s \<Rightarrow> bool) \<Rightarrow> ('s \<Rightarrow> 's \<Rightarrow> bool) \<Rightarrow> ('a \<Rightarrow> 's \<Rightarrow> bool) \<Rightarrow> ('s, 'a) coroutine \<Rightarrow> 's \<Rightarrow> bool"
where
  "co_safe I R Q (Finished r) = (\<lambda>s. \<forall>x. r = Inr x \<longrightarrow> Q x s)"
| "co_safe I R Q (Awaits f) = (\<lambda>s. \<forall>t. R\<^sup>*\<^sup>* s t \<longrightarrow> I t \<longrightarrow>
     (case map_prod (co_safe I R Q) id (f t) of (rest, u) \<Rightarrow> R t u \<and> rest u))"

lemma co_safe_Awaits [simp]:
  "co_safe I R Q (Awaits f) s \<longleftrightarrow>
     (\<forall>t c u. R\<^sup>*\<^sup>* s t \<longrightarrow> I t \<longrightarrow> f t = (c, u) \<longrightarrow> R t u \<and> co_safe I R Q c u)"
proof -
  have "(case map_prod (co_safe I R Q) id (f t) of (rest, u) \<Rightarrow> R t u \<and> rest u) \<longleftrightarrow>
      (\<forall>c u. f t = (c, u) \<longrightarrow> R t u \<and> co_safe I R Q c u)" for t
    by (cases "f t") simp
  then show ?thesis by (simp only: co_safe.simps) blast
qed

declare co_safe.simps(2) [simp del]

text \<open>A fact that no step takes back.\<close>

definition kept_by :: "('s \<Rightarrow> 's \<Rightarrow> bool) \<Rightarrow> ('s \<Rightarrow> bool) \<Rightarrow> bool" where
  "kept_by R P \<longleftrightarrow> (\<forall>s t. R s t \<longrightarrow> P s \<longrightarrow> P t)"

lemma kept_by_steps: "R\<^sup>*\<^sup>* s t \<Longrightarrow> kept_by R P \<Longrightarrow> P s \<Longrightarrow> P t"
  by (induction rule: rtranclp_induct) (auto simp: kept_by_def)

lemma kept_by_True: "kept_by R (\<lambda>_. True)"
  by (simp add: kept_by_def)

lemma co_safe_later:
  assumes "co_safe I R Q c s" "R\<^sup>*\<^sup>* s t" "\<And>x. kept_by R (Q x)"
  shows "co_safe I R Q c t"
proof (cases c)
  case (Finished r)
  with assms(1) kept_by_steps [OF assms(2,3)] show ?thesis by auto
next
  case (Awaits f)
  with assms(1) rtranclp_trans [OF assms(2)] show ?thesis by auto
qed

lemma co_safe_step:
  assumes "\<And>t r u. R\<^sup>*\<^sup>* s t \<Longrightarrow> I t \<Longrightarrow> m t = (r, u) \<Longrightarrow> R t u \<and> (\<forall>x. r = Inr x \<longrightarrow> Q x u)"
  shows "co_safe I R Q (co_step m) s"
  using assms by (auto simp: co_step_def split: prod.split)

lemma co_safe_return: "Q x s \<Longrightarrow> co_safe I R Q (co_return x) s"
  by (simp add: co_return_def)

lemma co_safe_raise: "co_safe I R Q (co_raise e) s"
  by (simp add: co_raise_def)

lemma co_safe_of: "(\<And>x. r = Inr x \<Longrightarrow> Q x s) \<Longrightarrow> co_safe I R Q (co_of r) s"
  by (simp add: co_of_def)

lemma co_safe_bind:
  assumes "co_safe I R Q c s" and "\<And>x t. R\<^sup>*\<^sup>* s t \<Longrightarrow> Q x t \<Longrightarrow> co_safe I R Q' (f x) t"
  shows "co_safe I R Q' (co_bind c f) s"
  using assms
proof (induction c arbitrary: s rule: coroutine_steps_induct)
  case (Finished r)
  then show ?case by (auto split: sum.split)
next
  case (Awaits g)
  have "R t u \<and> co_safe I R Q' (co_bind c f) u"
    if step: "R\<^sup>*\<^sup>* s t" "I t" "g t = (c, u)" for t c u
  proof -
    from Awaits.prems(1) step have "R t u" "co_safe I R Q c u" by auto
    moreover from step(1) \<open>R t u\<close> have "R\<^sup>*\<^sup>* s u" by (rule rtranclp.rtrancl_into_rtrancl)
    ultimately show ?thesis
      using Awaits.IH [OF step(3)] Awaits.prems(2) by (meson rtranclp_trans)
  qed
  then show ?case by (auto split: prod.splits)
qed

lemma co_safe_try:
  assumes "co_safe I R Q c s" and "\<And>e t. R\<^sup>*\<^sup>* s t \<Longrightarrow> co_safe I R Q (h e) t"
  shows "co_safe I R Q (co_try c h) s"
  using assms
proof (induction c arbitrary: s rule: coroutine_steps_induct)
  case (Finished r)
  then show ?case by (auto split: sum.split)
next
  case (Awaits g)
  have "R t u \<and> co_safe I R Q (co_try c h) u"
    if step: "R\<^sup>*\<^sup>* s t" "I t" "g t = (c, u)" for t c u
  proof -
    from Awaits.prems(1) step have "R t u" "co_safe I R Q c u" by auto
    moreover from step(1) \<open>R t u\<close> have "R\<^sup>*\<^sup>* s u" by (rule rtranclp.rtrancl_into_rtrancl)
    ultimately show ?thesis
      using Awaits.IH [OF step(3)] Awaits.prems(2) by (meson rtranclp_trans)
  qed
  then show ?case by (auto split: prod.splits)
qed

lemma co_safe_foreach:
  assumes "\<And>x acc t. x \<in> set xs \<Longrightarrow> R\<^sup>*\<^sup>* s t \<Longrightarrow> Q acc t \<Longrightarrow> co_safe I R Q (f x acc) t" and "Q acc s"
  shows "co_safe I R Q (co_foreach f xs acc) s"
  using assms
proof (induction xs arbitrary: acc s)
  case (Cons x xs)
  show ?case
    unfolding co_foreach.simps
  proof (rule co_safe_bind)
    show "co_safe I R Q (f x acc) s" using Cons.prems by simp
    show "co_safe I R Q (co_foreach f xs acc') t" if "R\<^sup>*\<^sup>* s t" "Q acc' t" for acc' t
      using that Cons.prems(1) by (intro Cons.IH) (auto intro: rtranclp_trans)
  qed
qed (simp add: co_safe_return)

lemma co_safe_zoom:
  assumes "\<And>s t. R s (put t s)"
  shows "co_safe I R (\<lambda>_ _. True) (co_zoom get put c) s"
  by (induction c arbitrary: s rule: coroutine_steps_induct) (auto simp: assms split: prod.splits)

lemma co_safe_option:
  assumes "x = None \<Longrightarrow> co_safe I R Q c s" and "\<And>y. x = Some y \<Longrightarrow> co_safe I R Q (f y) s"
  shows "co_safe I R Q (case x of None \<Rightarrow> c | Some y \<Rightarrow> f y) s"
  using assms by (cases x) simp_all

lemma co_safe_if:
  assumes "b \<Longrightarrow> co_safe I R Q c s" and "\<not> b \<Longrightarrow> co_safe I R Q d s"
  shows "co_safe I R Q (if b then c else d) s"
  using assms by simp

section \<open>Pools\<close>

text \<open>
  A pool is the tasks of the event loop and the state they share. The loop resumes any task, starts
  any task that \<open>start\<close> allows, drops a task at a point of suspension (a cancellation, or the end
  of the process), and the outside may change the state.
\<close>

type_synonym 's pool = "('s, unit) coroutine list \<times> 's"

inductive pool_step ::
  "(('s, unit) coroutine \<Rightarrow> bool) \<Rightarrow> ('s \<Rightarrow> 's \<Rightarrow> bool) \<Rightarrow> 's pool \<Rightarrow> 's pool \<Rightarrow> bool"
  for start :: "('s, unit) coroutine \<Rightarrow> bool" and out :: "'s \<Rightarrow> 's \<Rightarrow> bool"
where
  resumed: "k < length ts \<Longrightarrow> ts ! k = Awaits f \<Longrightarrow> f s = (c, t) \<Longrightarrow>
    pool_step start out (ts, s) (ts[k := c], t)"
| spawned: "start c \<Longrightarrow> pool_step start out (ts, s) (ts @ [c], s)"
| dropped: "k < length ts \<Longrightarrow> pool_step start out (ts, s) (ts[k := Finished (Inl e)], s)"
| outside: "out s t \<Longrightarrow> pool_step start out (ts, s) (ts, t)"

inductive_cases pool_stepE: "pool_step start out p q"

text \<open>What the tasks guarantee and the outside respects, the pool keeps, whatever the schedule.\<close>

locale guarantee =
  fixes I :: "'s \<Rightarrow> bool" and R :: "'s \<Rightarrow> 's \<Rightarrow> bool"
    and start :: "('s, unit) coroutine \<Rightarrow> bool" and out :: "'s \<Rightarrow> 's \<Rightarrow> bool"
  assumes kept: "I s \<Longrightarrow> R s t \<Longrightarrow> I t"
    and started: "start c \<Longrightarrow> co_safe I R (\<lambda>_ _. True) c s"
    and respected: "out s t \<Longrightarrow> R s t"
begin

definition pool_ok :: "'s pool \<Rightarrow> bool" where
  "pool_ok p \<longleftrightarrow> I (snd p) \<and> (\<forall>c \<in> set (fst p). co_safe I R (\<lambda>_ _. True) c (snd p))"

lemma others_ok:
  assumes "\<forall>c \<in> set ts. co_safe I R (\<lambda>_ _. True) c s" "R s t"
  shows "\<forall>c \<in> set ts. co_safe I R (\<lambda>_ _. True) c t"
proof
  fix c assume "c \<in> set ts"
  with assms(1) have "co_safe I R (\<lambda>_ _. True) c s" by blast
  then show "co_safe I R (\<lambda>_ _. True) c t" using r_into_rtranclp [of R, OF assms(2)]
    by (rule co_safe_later) (rule kept_by_True)
qed

lemma pool_ok_step:
  assumes "pool_step start out p q" "pool_ok p"
  shows "pool_ok q \<and> R\<^sup>*\<^sup>* (snd p) (snd q)"
  using assms(1)
proof cases
  case (resumed k ts f s c t)
  have "Awaits f \<in> set ts" using resumed(3,4) nth_mem [of k ts] by simp
  then have safe: "co_safe I R (\<lambda>_ _. True) (Awaits f) s" and "I s"
    using assms(2) resumed(1) by (auto simp: pool_ok_def simp del: co_safe_Awaits)
  from safe \<open>I s\<close> resumed(5) have step: "R s t" "co_safe I R (\<lambda>_ _. True) c t" by auto
  then have "\<forall>c \<in> set (ts[k := c]). co_safe I R (\<lambda>_ _. True) c t"
    using assms(2) others_ok [OF _ step(1)] set_update_subset_insert [of ts k c] resumed(1)
    by (auto simp: pool_ok_def)
  with step(1) kept [OF \<open>I s\<close> step(1)] resumed(1,2) show ?thesis by (simp add: pool_ok_def r_into_rtranclp)
next
  case (dropped k ts s e)
  then have "\<forall>c \<in> set (ts[k := Finished (Inl e)]). co_safe I R (\<lambda>_ _. True) c s"
    using assms(2) set_update_subset_insert [of ts k "Finished (Inl e)"] by (auto simp: pool_ok_def)
  with dropped assms(2) show ?thesis by (simp add: pool_ok_def)
next
  case (outside s t ts)
  with others_ok [OF _ respected [OF outside(3)]] assms(2) show ?thesis
    by (auto simp: pool_ok_def intro: kept respected)
qed (use assms(2) in \<open>auto simp: pool_ok_def intro: started\<close>)

lemma pool_ok_steps:
  "(pool_step start out)\<^sup>*\<^sup>* p q \<Longrightarrow> pool_ok p \<Longrightarrow> pool_ok q \<and> R\<^sup>*\<^sup>* (snd p) (snd q)"
proof (induction rule: rtranclp_induct)
  case (step q r)
  then show ?case using pool_ok_step [OF step.hyps(2)] by (meson rtranclp_trans)
qed simp

end

text \<open>A task that is never interrupted is stepped to its end.\<close>

lemma pool_run:
  assumes "k < length ts" "ts ! k = c" "co_run c s = (r, t)"
  shows "(pool_step start out)\<^sup>*\<^sup>* (ts, s) (ts[k := Finished r], t)"
  using assms
proof (induction c arbitrary: ts s rule: coroutine_steps_induct)
  case (Finished r')
  then have "ts ! k = Finished r" "s = t" by simp_all
  then show ?case by (metis list_update_id rtranclp.rtrancl_refl)
next
  case (Awaits g)
  obtain c u where g: "g s = (c, u)" by (cases "g s")
  from Awaits.prems g have "co_run c u = (r, t)" by simp
  from Awaits.IH [OF g, of "ts[k := c]" u] Awaits.prems(1) this
  have "(pool_step start out)\<^sup>*\<^sup>* (ts[k := c], u) (ts[k := Finished r], t)" by simp
  with pool_step.resumed [OF Awaits.prems(1,2) g, of start out] show ?case
    by (rule converse_rtranclp_into_rtranclp)
qed

end
