(* ===== verification/Interleaved_Handlers.thy ===== *)
theory Interleaved_Handlers
  imports Coroutine Worker Rabbit_Handler Controller
begin

text \<open>
  The handlers that write rows, again, as tasks that may be interrupted at every call of a server and
  at every read or write of a shared attribute: the dispatch with the publication of retries and
  the dead letter, the turn of a worker, the creation, the manual retry, and the two callbacks. The
  lemmas named \<open>_run\<close> say that each of them, run without interruption, is the handler of
  \<open>Dispatch\<close>, \<open>Worker\<close>, \<open>Manager\<close> and \<open>Rabbit_Handler\<close>.
\<close>

section \<open>Steps\<close>

definition co_db :: "('d, 'a) io \<Rightarrow> (('d, 'r, 'q, 'p) world, 'a) coroutine" where
  "co_db m = co_step (on_db m)"

definition co_svc :: "(('r, 'q) qsvc, 'a) io \<Rightarrow> (('d, 'r, 'q, 'p) world, 'a) coroutine" where
  "co_svc m = co_step (on_svc m)"

definition co_prov :: "('p, 'a) io \<Rightarrow> (('d, 'r, 'q, 'p) world, 'a) coroutine" where
  "co_prov m = co_step (on_prov m)"

definition co_amqp :: "('q, 'a) io \<Rightarrow> (('r, 'q) qsvc, 'a) coroutine" where
  "co_amqp m = co_step (on_amqp m)"

text \<open>A task of the queue service on the world.\<close>

definition co_on_svc :: "(('r, 'q) qsvc, 'a) coroutine \<Rightarrow> (('d, 'r, 'q, 'p) world, 'a) coroutine" where
  "co_on_svc = co_zoom w_svc (\<lambda>s w. w\<lparr>w_svc := s\<rparr>)"

lemma co_run_parts [co_run_simps]:
  "co_run (co_db m) = on_db m" "co_run (co_svc m') = on_svc m'" "co_run (co_prov m'') = on_prov m''"
  "co_run (co_amqp k) = on_amqp k" "co_run (co_on_svc c) = on_svc (co_run c)"
  unfolding co_db_def co_svc_def co_prov_def co_amqp_def co_on_svc_def on_svc_def
  by (simp_all add: co_run_step) (rule co_run_zoom; simp)

lemma co_run_if [co_run_simps]: "co_run (if b then c else d) = (if b then co_run c else co_run d)"
  by simp

lemma co_run_option [co_run_simps]:
  "co_run (case x of None \<Rightarrow> c | Some y \<Rightarrow> f y) = (case x of None \<Rightarrow> co_run c | Some y \<Rightarrow> co_run (f y))"
  by (cases x) simp_all

section \<open>The queue service\<close>

definition co_connect_and_open :: "'q amqp \<Rightarrow> (('r, 'q) qsvc, unit) coroutine" where
  "co_connect_and_open A =
     co_bind (co_amqp (q_connect A)) (\<lambda>c.
     co_bind (co_step (io_modify (\<lambda>s. s\<lparr>rmq_connection := Some c\<rparr>))) (\<lambda>_.
     co_bind (co_amqp (q_open_channel A c)) (\<lambda>ch.
     co_step (io_modify (\<lambda>s. s\<lparr>rmq_channel := Some ch\<rparr>)))))"

definition co_reopen_channel :: "'q amqp \<Rightarrow> nat \<Rightarrow> (('r, 'q) qsvc, unit) coroutine" where
  "co_reopen_channel A c =
     co_bind (co_amqp (q_open_channel A c)) (\<lambda>ch.
     co_step (io_modify (\<lambda>s. s\<lparr>rmq_channel := Some ch\<rparr>)))"

definition co_get_rabbitmq_channel :: "'q amqp \<Rightarrow> (('r, 'q) qsvc, nat option) coroutine" where
  "co_get_rabbitmq_channel A =
     co_try
       (co_bind (co_step (io_gets rmq_connection)) (\<lambda>conn.
        co_bind
          (case conn of
             None \<Rightarrow> co_connect_and_open A
           | Some c \<Rightarrow>
               co_bind (co_amqp (q_conn_is_closed A c)) (\<lambda>closed.
               if closed then co_connect_and_open A
               else
                 co_bind (co_step (io_gets rmq_channel)) (\<lambda>chan.
                 case chan of
                   None \<Rightarrow> co_reopen_channel A c
                 | Some ch \<Rightarrow>
                     co_bind (co_amqp (q_chan_is_closed A ch)) (\<lambda>chan_closed.
                     if chan_closed then co_reopen_channel A c else co_return ()))))
          (\<lambda>_. co_step (io_gets rmq_channel))))
       (\<lambda>e. co_bind (co_step (io_modify (\<lambda>s. s\<lparr>rmq_connection := None, rmq_channel := None\<rparr>))) (\<lambda>_.
             co_raise e))"

definition co_publish_on :: "'q amqp \<Rightarrow> nat \<Rightarrow> int \<Rightarrow> int \<Rightarrow> (('r, 'q) qsvc, bool) coroutine" where
  "co_publish_on A ch i delay_seconds =
     co_bind (co_amqp (q_declare_queue A ch RETRY_QUEUE (Some RETRY_EXCHANGE))) (\<lambda>_.
     co_bind (co_amqp (q_publish A ch '''' RETRY_QUEUE (retry_message i delay_seconds))) (\<lambda>_.
     co_return True))"

definition co_publish_retry :: "'q amqp \<Rightarrow> int \<Rightarrow> int \<Rightarrow> (('r, 'q) qsvc, bool) coroutine" where
  "co_publish_retry A i delay_seconds =
     co_try
       (co_bind (co_get_rabbitmq_channel A) (\<lambda>channel_obj.
        case channel_obj of
          None \<Rightarrow> co_raise AttributeError
        | Some ch \<Rightarrow> co_publish_on A ch i delay_seconds))
       (\<lambda>_. co_return False)"

lemma co_publish_retry_run [co_run_simps]: "co_run (co_publish_retry A i d) = publish_retry A i d"
  by (simp add: co_publish_retry_def co_get_rabbitmq_channel_def co_connect_and_open_def co_reopen_channel_def
      co_publish_on_def publish_retry_def get_rabbitmq_channel_def connect_and_open_def reopen_channel_def
      publish_on_def co_run_simps cong: option.case_cong if_cong)

section \<open>Dispatch\<close>

text \<open>
  \<open>n\<close> is the object the session has loaded: the second SELECT of a row gives this very object, with
  the values it was loaded with, whatever the row holds by now.
\<close>

definition co_update_status ::
  "'d pg \<Rightarrow> int \<Rightarrow> notification \<Rightarrow> notification_status \<Rightarrow> attr list \<Rightarrow>
   (('d, 'r, 'q, 'p) world, notification option) coroutine"
where
  "co_update_status P i n st kwargs =
     co_bind (co_db (get_by_id P i)) (\<lambda>row.
     case row of
       None \<Rightarrow> co_return None
     | Some _ \<Rightarrow>
         co_bind (co_db (pg_update P i (changes n (Status (status_value st) # kwargs)))) (\<lambda>_.
         co_bind (co_db (pg_refresh P i)) (\<lambda>m.
         co_return (Some m))))"

lemma on_db_bind: "on_db (io_bind m f) = io_bind (on_db m) (\<lambda>x. on_db (f x))"
  by (auto simp: on_db_def io_zoom_def io_bind_def fun_eq_iff split: prod.split sum.split)

lemma on_db_return: "on_db (io_return x) = io_return x"
  by (simp add: on_db_def io_zoom_def io_return_def fun_eq_iff)

lemma on_db_option:
  "on_db (case x of None \<Rightarrow> m | Some y \<Rightarrow> f y) = (case x of None \<Rightarrow> on_db m | Some y \<Rightarrow> on_db (f y))"
  by (cases x) simp_all

text \<open>Without interruption the loaded object is the row as it is.\<close>

lemma co_update_status_run:
  assumes laws: "services_laws S" and row: "w_rows S w i = Some n"
  shows "same_run w (co_update_status (srv_pg S) i n st as) (on_db (update_status (srv_pg S) i st as))"
  unfolding co_update_status_def update_status_def on_db_bind on_db_option on_db_return
proof (rule same_run_bind)
  show "same_run w (co_db (get_by_id (srv_pg S) i)) (on_db (get_by_id (srv_pg S) i))"
    by (simp add: same_run_def co_run_simps)
next
  fix x t
  assume "on_db (get_by_id (srv_pg S) i) w = (Inr x, t)"
  from on_db_get_cases(4) [OF laws this] row have "x = Some n" by simp
  then show "same_run t (case x of None \<Rightarrow> co_return None | Some _ \<Rightarrow>
      co_bind (co_db (pg_update (srv_pg S) i (changes n (Status (status_value st) # as)))) (\<lambda>_.
      co_bind (co_db (pg_refresh (srv_pg S) i)) (\<lambda>m. co_return (Some m))))
    (case x of None \<Rightarrow> io_return None | Some n \<Rightarrow>
      io_bind (on_db (pg_update (srv_pg S) i (changes n (Status (status_value st) # as)))) (\<lambda>_.
      io_bind (on_db (pg_refresh (srv_pg S) i)) (\<lambda>n. io_return (Some n))))"
    by (simp add: same_run_def co_run_simps del: changes.simps)
qed

definition co_mark_sent ::
  "('d, 'r, 'q) services \<Rightarrow> notification \<Rightarrow> string option \<Rightarrow> (('d, 'r, 'q, 'p) world, unit) coroutine"
where
  "co_mark_sent S n ext_id =
     co_bind (co_svc (on_host host_now)) (\<lambda>now.
     co_bind (co_update_status (srv_pg S) (nid n) n SENT [External_id ext_id, Stime (Some now)]) (\<lambda>upd.
     co_bind (co_of (enum_of_value channel_members channel_value (channel (refreshed n upd)))) (\<lambda>_.
     co_return ())))"

definition co_mark_failed ::
  "('d, 'r, 'q) services \<Rightarrow> notification \<Rightarrow> notification_error_code \<Rightarrow>
   (('d, 'r, 'q, 'p) world, notification) coroutine"
where
  "co_mark_failed S n code =
     co_bind (co_update_status (srv_pg S) (nid n) n FAILED [Error_code (Some (error_value code))]) (\<lambda>upd.
     co_bind (co_of (enum_of_value channel_members channel_value (channel (refreshed n upd)))) (\<lambda>_.
     co_return (refreshed n upd)))"

definition co_dlq_publish ::
  "('d, 'r, 'q) services \<Rightarrow> nat \<Rightarrow> notification \<Rightarrow> notification_error_code \<Rightarrow> (('r, 'q) qsvc, unit) coroutine"
where
  "co_dlq_publish S connection n code =
     (let A = srv_amqp S in
      co_bind (co_amqp (q_open_channel A connection)) (\<lambda>ch.
      co_bind (co_amqp (q_declare_exchange A ch DLQ_EXCHANGE Fanout)) (\<lambda>_.
      co_bind (co_amqp (q_declare_queue A ch DLQ_QUEUE None)) (\<lambda>_.
      co_bind (co_amqp (q_bind A ch DLQ_QUEUE DLQ_EXCHANGE None)) (\<lambda>_.
      co_bind (co_of (enum_of_value event_members event_value (event_type n))) (\<lambda>ev.
      co_bind (co_of (enum_of_value channel_members channel_value (channel n))) (\<lambda>c.
      co_bind (co_step (on_host host_isoformat)) (\<lambda>failed_at.
      co_amqp (q_publish A ch DLQ_EXCHANGE '''' (dlq_message (dlq_payload n ev c code failed_at)))))))))))"

definition co_send_to_dlq ::
  "('d, 'r, 'q) services \<Rightarrow> notification \<Rightarrow> notification_error_code \<Rightarrow>
   (('d, 'r, 'q, 'p) world, unit) coroutine"
where
  "co_send_to_dlq S n code =
     co_on_svc (co_try
       (co_bind (co_amqp (q_connect (srv_amqp S))) (\<lambda>connection.
        co_finally (co_dlq_publish S connection n code) (co_amqp (q_close (srv_amqp S) connection))))
       (\<lambda>_. co_return ()))"

definition co_schedule_retry ::
  "('d, 'r, 'q) services \<Rightarrow> notification \<Rightarrow> notification_error_code \<Rightarrow>
   (('d, 'r, 'q, 'p) world, unit) coroutine"
where
  "co_schedule_retry S n code =
     co_bind (co_of (enum_of_value event_members event_value (event_type n))) (\<lambda>event.
     let config = retry_config_for event;
         new_retry_count = retry_count n + 1
     in
       if new_retry_count > max_retries config then
         co_bind (co_mark_failed S n code) (\<lambda>n'.
         co_send_to_dlq S n' code)
       else
         co_bind (co_svc (on_host (get_retry_delay new_retry_count
           (base_delay config) (max_delay config) (use_jitter config)))) (\<lambda>delay.
         co_bind (co_update_status (srv_pg S) (nid n) n RETRYING
           [Retry_count new_retry_count, Error_code (Some (error_value code))]) (\<lambda>upd.
         co_bind (co_on_svc (co_publish_retry (srv_amqp S) (nid (refreshed n upd)) delay)) (\<lambda>success.
         co_return ()))))"

definition co_dispatch ::
  "('d, 'r, 'q) services \<Rightarrow> (notification_channel \<Rightarrow> 'p provider option) \<Rightarrow> int \<Rightarrow>
   (('d, 'r, 'q, 'p) world, unit) coroutine"
where
  "co_dispatch S providers i =
     co_bind (co_db (get_by_id (srv_pg S) i)) (\<lambda>row.
     case row of
       None \<Rightarrow> co_return ()
     | Some n \<Rightarrow>
         co_bind (co_of (enum_of_value channel_members channel_value (channel n))) (\<lambda>ch.
         case providers ch of
           None \<Rightarrow> co_bind (co_mark_failed S n UNKNOWN) (\<lambda>_. co_return ())
         | Some provider \<Rightarrow>
             co_bind (co_update_status (srv_pg S) i n QUEUED []) (\<lambda>upd.
             let n1 = refreshed n upd in
             co_bind (co_prov (p_health_check provider)) (\<lambda>healthy.
             if \<not> healthy then co_schedule_retry S n1 PROVIDER_DOWN
             else
               co_bind (co_prov (p_send provider (recipient n1) (content n1))) (\<lambda>result.
               if pr_success result then co_mark_sent S n1 (pr_external_id result)
               else
                 co_bind (co_of (failure_code result)) (\<lambda>code.
                 if code \<notin> RETRYABLE_ERROR_CODES
                 then co_bind (co_mark_failed S n1 code) (\<lambda>_. co_return ())
                 else co_schedule_retry S n1 code))))))"

lemma co_send_to_dlq_run [co_run_simps]: "co_run (co_send_to_dlq S n code) = send_to_dlq S n code"
  by (simp add: co_send_to_dlq_def send_to_dlq_def co_dlq_publish_def dlq_publish_def Let_def co_run_simps)

lemma quiet_rows:
  fixes w w' :: "('d, 'r, 'q, 'p) world"
  shows "on_svc k w = (x, w') \<Longrightarrow> w_rows S w' = w_rows S w" "on_prov m w = (y, w') \<Longrightarrow> w_rows S w' = w_rows S w"
    "io_of z w = (u, w') \<Longrightarrow> w_rows S w' = w_rows S w"
  by (auto elim: on_svc_cases on_prov_cases simp: io_of_run)

lemma co_mark_sent_run:
  assumes "services_laws S" "w_rows S w (nid n) = Some n"
  shows "same_run w (co_mark_sent S n x) (mark_sent S n x)"
  unfolding co_mark_sent_def mark_sent_def
  by (rule same_run_bind, rule same_run_eq, simp add: co_run_simps, rule same_run_bind,
      rule co_update_status_run [OF assms(1)])
    (auto simp: quiet_rows(1) assms(2) co_run_simps intro: same_run_eq)

lemma co_mark_failed_run:
  assumes "services_laws S" "w_rows S w (nid n) = Some n"
  shows "same_run w (co_mark_failed S n code) (mark_failed S n code)"
  unfolding co_mark_failed_def mark_failed_def
  by (rule same_run_bind, rule co_update_status_run [OF assms], rule same_run_eq) (simp add: co_run_simps)

lemma co_schedule_retry_run:
  assumes "services_laws S" "w_rows S w (nid n) = Some n"
  shows "same_run w (co_schedule_retry S n code) (schedule_retry S n code)"
  unfolding co_schedule_retry_def schedule_retry_def Let_def
  apply (rule same_run_bind)
   apply (rule same_run_eq, simp add: co_run_simps)
  apply (rule same_run_if)
   apply (rule same_run_bind, rule co_mark_failed_run [OF assms(1)])
    apply (simp add: quiet_rows(3) assms(2))
   apply (rule same_run_eq, simp add: co_run_simps)
  apply (rule same_run_bind, rule same_run_eq, simp add: co_run_simps)
  apply (rule same_run_bind, rule co_update_status_run [OF assms(1)])
   apply (simp add: quiet_rows(1,3) assms(2))
  apply (rule same_run_eq, simp add: co_run_simps)
  done

text \<open>The loaded object after an update is the row again.\<close>

lemma refreshed_row:
  assumes laws: "services_laws S" and ok: "table_ok (w_rows S w)" and row: "w_rows S w i = Some n"
    and upd: "on_db (update_status (srv_pg S) i st as) w = (Inr x, t)"
  shows "w_rows S t (nid (refreshed n x)) = Some (refreshed n x)"
proof -
  note f = on_db_update_cases [OF laws upd]
  from f(5) row obtain m where m: "x = Some m" by (cases x) auto
  from f(3) ok have "table_ok (w_rows S t)" by (auto intro: table_ok_updated)
  with f(4) m show ?thesis by (auto simp: refreshed_def table_ok_nid)
qed

text \<open>The parts of a dispatch, as in \<open>after_send\<close>, \<open>attempt\<close> and \<open>dispatch_parts\<close>.\<close>

definition co_after_send ::
  "('d, 'r, 'q) services \<Rightarrow> notification \<Rightarrow> provider_result \<Rightarrow> (('d, 'r, 'q, 'p) world, unit) coroutine"
where
  "co_after_send S n1 result =
     (if pr_success result then co_mark_sent S n1 (pr_external_id result)
      else
        co_bind (co_of (failure_code result)) (\<lambda>code.
        if code \<notin> RETRYABLE_ERROR_CODES
        then co_bind (co_mark_failed S n1 code) (\<lambda>_. co_return ())
        else co_schedule_retry S n1 code))"

definition co_attempt ::
  "('d, 'r, 'q) services \<Rightarrow> 'p provider \<Rightarrow> notification \<Rightarrow> (('d, 'r, 'q, 'p) world, unit) coroutine" where
  "co_attempt S provider n1 =
     co_bind (co_prov (p_health_check provider)) (\<lambda>healthy.
     if \<not> healthy then co_schedule_retry S n1 PROVIDER_DOWN
     else co_bind (co_prov (p_send provider (recipient n1) (content n1))) (co_after_send S n1))"

lemma co_dispatch_parts:
  "co_dispatch S providers i =
     co_bind (co_db (get_by_id (srv_pg S) i)) (\<lambda>row.
     case row of
       None \<Rightarrow> co_return ()
     | Some n \<Rightarrow>
         co_bind (co_of (enum_of_value channel_members channel_value (channel n))) (\<lambda>ch.
         case providers ch of
           None \<Rightarrow> co_bind (co_mark_failed S n UNKNOWN) (\<lambda>_. co_return ())
         | Some provider \<Rightarrow>
             co_bind (co_update_status (srv_pg S) i n QUEUED []) (\<lambda>upd.
             co_attempt S provider (refreshed n upd))))"
  unfolding co_dispatch_def co_attempt_def co_after_send_def Let_def ..

lemma co_after_send_run:
  assumes "services_laws S" "w_rows S w (nid n) = Some n"
  shows "same_run w (co_after_send S n r) (after_send S n r)"
  unfolding co_after_send_def after_send_def
  apply (rule same_run_if)
   apply (rule co_mark_sent_run [OF assms])
  apply (rule same_run_bind, rule same_run_eq, simp add: co_run_simps)
  apply (rule same_run_if)
   apply (rule same_run_bind, rule co_mark_failed_run [OF assms(1)], simp add: quiet_rows(3) assms(2))
   apply (rule same_run_eq, simp add: co_run_simps)
  apply (rule co_schedule_retry_run [OF assms(1)], simp add: quiet_rows(3) assms(2))
  done

lemma co_attempt_run:
  assumes "services_laws S" "w_rows S w (nid n) = Some n"
  shows "same_run w (co_attempt S provider n) (attempt S provider n)"
  unfolding co_attempt_def attempt_def
  apply (rule same_run_bind, rule same_run_eq, simp add: co_run_simps)
  apply (rule same_run_if)
   apply (rule co_schedule_retry_run [OF assms(1)], simp add: quiet_rows(2) assms(2))
  apply (rule same_run_bind, rule same_run_eq, simp add: co_run_simps)
  apply (rule co_after_send_run [OF assms(1)], simp add: quiet_rows(2) assms(2))
  done

lemma co_dispatch_run:
  assumes laws: "services_laws S" and ok: "table_ok (w_rows S w)"
  shows "same_run w (co_dispatch S providers i) (dispatch S providers i)"
  unfolding co_dispatch_parts dispatch_parts
proof (rule same_run_bind, rule same_run_eq, simp add: co_run_simps, rule same_run_option,
    rule same_run_eq, simp add: co_run_simps, rule same_run_bind, rule same_run_eq, simp add: co_run_simps)
  fix row t n ch u
  assume get: "on_db (get_by_id (srv_pg S) i) w = (Inr row, t)" and n: "row = Some n"
    and ch: "io_of (enum_of_value channel_members channel_value (channel n)) t = (Inr ch, u)"
  note f = on_db_get_cases [OF laws get]
  from f(1,4) n ok quiet_rows(3) [OF ch] have u: "w_rows S u i = Some n" "table_ok (w_rows S u)" by simp_all
  then have id: "nid n = i" by (simp add: table_ok_nid)
  show "same_run u
    (case providers ch of None \<Rightarrow> co_bind (co_mark_failed S n UNKNOWN) (\<lambda>_. co_return ())
     | Some provider \<Rightarrow> co_bind (co_update_status (srv_pg S) i n QUEUED []) (\<lambda>upd.
         co_attempt S provider (refreshed n upd)))
    (case providers ch of None \<Rightarrow> io_bind (mark_failed S n UNKNOWN) (\<lambda>_. io_return ())
     | Some provider \<Rightarrow> io_bind (on_db (update_status (srv_pg S) i QUEUED [])) (\<lambda>upd.
         attempt S provider (refreshed n upd)))"
    apply (rule same_run_option)
     apply (rule same_run_bind, rule co_mark_failed_run [OF laws], simp add: u id)
     apply (rule same_run_eq, simp add: co_run_simps)
    apply (rule same_run_bind, rule co_update_status_run [OF laws u(1)])
    apply (rule co_attempt_run [OF laws], erule refreshed_row [OF laws u(2,1)])
    done
qed

section \<open>Worker, manager and callbacks\<close>

definition co_enqueue :: "'r redis \<Rightarrow> int \<Rightarrow> int \<Rightarrow> (('r, 'q) qsvc, bool) coroutine" where
  "co_enqueue R i p =
     co_try
       (co_bind (co_step (on_host host_timestamp_ms)) (\<lambda>timestamp_ms.
        co_bind (co_step (on_redis (r_zadd_nx R QUEUE_KEY (str_of_int i) (queue_score p timestamp_ms)))) (\<lambda>_.
        co_return True)))
       (\<lambda>_. co_return False)"

definition co_worker_turn ::
  "('d, 'r, 'q) services \<Rightarrow> (notification_channel \<Rightarrow> 'p provider option) \<Rightarrow>
   (('d, 'r, 'q, 'p) world, unit) coroutine"
where
  "co_worker_turn S providers =
     co_try
       (co_bind (co_svc (dequeue (srv_redis S))) (\<lambda>notification_id.
        case notification_id of
          None \<Rightarrow> co_return ()
        | Some i \<Rightarrow> co_dispatch S providers i))
       (\<lambda>_. co_return ())"

definition co_client :: "('r, 'a) io \<Rightarrow> (('d, 'r, 'q, 'p) world, 'a) coroutine" where
  "co_client m = co_step (on_client m)"

definition co_create_one ::
  "('d, 'r, 'q) services \<Rightarrow> notification_create \<Rightarrow> notification_channel \<Rightarrow> notification list \<Rightarrow>
   (('d, 'r, 'q, 'p) world, notification list) coroutine"
where
  "co_create_one S p c created_list =
     co_bind (co_of (channel_args p c)) (\<lambda>a.
     co_try
       (co_bind (co_db (pg_insert (srv_pg S) a)) (\<lambda>i.
        co_bind (co_db (pg_refresh (srv_pg S) i)) (\<lambda>saved.
        co_bind (co_on_svc (co_enqueue (srv_redis S) (nid saved) (priority saved))) (\<lambda>_.
        co_return (created_list @ [saved])))))
       (\<lambda>e. if e = IntegrityError
             then co_bind (co_db (pg_rollback (srv_pg S))) (\<lambda>_. co_return created_list)
             else co_raise e))"

definition co_create_notification ::
  "('d, 'r, 'q) services \<Rightarrow> notification_create \<Rightarrow>
   (('d, 'r, 'q, 'p) world, notification list \<times> bool) coroutine"
where
  "co_create_notification S p =
     (let redis_key = redis_idem_key (req_idempotency_key p) in
      co_bind (co_client (r_setnx (srv_redis S) redis_key ''1'')) (\<lambda>is_new.
      if \<not> is_new then co_return ([], True)
      else
        co_bind (co_client (r_expire (srv_redis S) redis_key IDEMPOTENCY_EXPIRY)) (\<lambda>_.
        co_bind (co_of (enum_of_name event_members event_name (str_upper (req_event_type p)))) (\<lambda>event.
        co_bind (co_foreach (co_create_one S p) (event_channels event) []) (\<lambda>created_list.
        co_return (created_list, False))))))"

definition co_retry_notification ::
  "('d, 'r, 'q) services \<Rightarrow> int \<Rightarrow> (('d, 'r, 'q, 'p) world, notification option \<times> string) coroutine"
where
  "co_retry_notification S i =
     co_bind (co_db (get_by_id (srv_pg S) i)) (\<lambda>row.
     case row of
       None \<Rightarrow> co_return (None, ''Notification not found'')
     | Some n \<Rightarrow>
         if status n = status_value SENT
         then co_return (None, ''Cannot retry a notification with status sent'')
         else if status n = status_value QUEUED
         then co_return (None, ''Notification is already queued'')
         else
           co_bind (co_update_status (srv_pg S) i n PENDING
             [Retry_count (retry_count n + 1), Error_code None, Next_retry_time None]) (\<lambda>upd.
           co_bind (co_on_svc (co_enqueue (srv_redis S) i (priority n))) (\<lambda>_.
           co_return (upd, ''''))))"

definition co_wire :: "('q, 'a) io \<Rightarrow> (('d, 'r, 'q, 'p) world, 'a) coroutine" where
  "co_wire m = co_step (on_wire m)"

definition co_on_new_event :: "('d, 'r, 'q) services \<Rightarrow> delivery \<Rightarrow> (('d, 'r, 'q, 'p) world, unit) coroutine" where
  "co_on_new_event S msg =
     co_try
       (co_bind (co_of (delivery_payload msg)) (\<lambda>payload.
        co_bind (co_create_notification S payload) (\<lambda>_.
        co_wire (q_ack (srv_amqp S) (dl_tag msg)))))
       (\<lambda>e. if e = JSONDecodeError then co_wire (q_nack (srv_amqp S) (dl_tag msg) False)
             else if e = KeyError then co_wire (q_nack (srv_amqp S) (dl_tag msg) False)
             else if delivery_count msg \<ge> MAX_DELIVERY_ATTEMPTS
             then co_wire (q_nack (srv_amqp S) (dl_tag msg) False)
             else co_wire (q_nack (srv_amqp S) (dl_tag msg) True))"

definition co_on_retry_event :: "('d, 'r, 'q) services \<Rightarrow> delivery \<Rightarrow> (('d, 'r, 'q, 'p) world, unit) coroutine" where
  "co_on_retry_event S msg =
     co_try
       (co_bind (co_of (decoded_id msg)) (\<lambda>i.
        co_bind (co_db (get_by_id (srv_pg S) i)) (\<lambda>row.
        co_bind
          (case row of
             None \<Rightarrow> co_return False
           | Some n \<Rightarrow> co_on_svc (co_enqueue (srv_redis S) (nid n) (priority n))) (\<lambda>_.
        co_wire (q_ack (srv_amqp S) (dl_tag msg))))))
       (\<lambda>_. co_wire (q_nack (srv_amqp S) (dl_tag msg) False))"

lemma co_run_client [co_run_simps]: "co_run (co_client m) = on_client m" "co_run (co_wire m') = on_wire m'"
  by (simp_all add: co_client_def co_wire_def co_run_step)

lemma co_enqueue_run [co_run_simps]: "co_run (co_enqueue R i p) = enqueue R i p"
  by (simp add: co_enqueue_def enqueue_def co_run_simps)

lemma co_worker_turn_run:
  assumes "services_laws S" "table_ok (w_rows S w)"
  shows "same_run w (co_worker_turn S providers) (worker_turn S providers)"
  unfolding co_worker_turn_def worker_turn_def
  apply (rule same_run_try)
   apply (rule same_run_bind, rule same_run_eq, simp add: co_run_simps)
   apply (rule same_run_option, rule same_run_eq, simp add: co_run_simps)
   apply (rule co_dispatch_run [OF assms(1)], simp add: quiet_rows(1) assms(2))
  apply (rule same_run_eq, simp add: co_run_simps)
  done

lemma co_create_one_run [co_run_simps]: "co_run (co_create_one S p c l) = create_one S p c l"
  by (simp add: co_create_one_def create_one_def repository_create_def on_db_bind io_bind_assoc co_run_simps
      cong: if_cong)

lemma co_create_notification_run [co_run_simps]: "co_run (co_create_notification S p) = create_notification S p"
  by (simp add: co_create_notification_def create_notification_def Let_def co_run_simps cong: if_cong)

lemma co_retry_notification_run:
  assumes laws: "services_laws S"
  shows "same_run w (co_retry_notification S i) (retry_notification S i)"
  unfolding co_retry_notification_def retry_notification_def
proof (rule same_run_bind, rule same_run_eq, simp add: co_run_simps, rule same_run_option,
    rule same_run_eq, simp add: co_run_simps, rule same_run_if, rule same_run_eq, simp add: co_run_simps,
    rule same_run_if, rule same_run_eq, simp add: co_run_simps, rule same_run_bind)
  fix row t n
  assume "on_db (get_by_id (srv_pg S) i) w = (Inr row, t)" "row = Some n"
  with on_db_get_cases(1,4) [OF laws] have "w_rows S t i = Some n" by metis
  then show "same_run t (co_update_status (srv_pg S) i n PENDING (requeue_attrs n))
      (on_db (update_status (srv_pg S) i PENDING (requeue_attrs n)))"
    by (rule co_update_status_run [OF laws])
qed (rule same_run_eq, simp add: co_run_simps)

lemma co_on_new_event_run [co_run_simps]: "co_run (co_on_new_event S msg) = on_new_event S msg"
  by (simp add: co_on_new_event_def on_new_event_def msg_ack_def msg_nack_def co_run_simps cong: if_cong)

lemma co_on_retry_event_run [co_run_simps]: "co_run (co_on_retry_event S msg) = on_retry_event S msg"
  by (simp add: co_on_retry_event_def on_retry_event_def msg_ack_def msg_nack_def co_run_simps
      cong: option.case_cong)

end
