(* ===== verification/Interleaving.thy ===== *)
theory Interleaving
  imports Interleaved_Handlers
begin

text \<open>
  The table under any interleaving of the handlers. A task acts on what its session loaded, and its
  session writes only the columns that differ from that, while other tasks may have written the row
  since. So a write is no longer one of \<open>Lifecycle\<close>, and the invariant of a row is weaker: what its
  columns say of each other may stem from different tasks.
\<close>

section \<open>Rows\<close>

text \<open>What still never changes in a row: all but its progress.\<close>

definition same_identity :: "notification \<Rightarrow> notification \<Rightarrow> bool" where
  "same_identity m n \<longleftrightarrow>
     nid n = nid m \<and> idempotency_key n = idempotency_key m \<and> source_service n = source_service m \<and>
     event_type n = event_type m \<and> channel n = channel m \<and> recipient n = recipient m \<and>
     priority n = priority m \<and> content n = content m \<and> ctime n = ctime m"

definition loose_progress :: "notification \<Rightarrow> bool" where
  "loose_progress n \<longleftrightarrow>
     status n \<in> range status_value \<and> (\<forall>e. error_code n = Some e \<longrightarrow> e \<in> range error_value) \<and>
     0 \<le> retry_count n \<and> next_retry_time n = None \<and>
     (status n = status_value SENT \<longrightarrow> stime n \<noteq> None \<and> external_id n \<noteq> None) \<and>
     (status n = status_value RETRYING \<longrightarrow> 1 \<le> retry_count n)"

definition row_loose :: "notification \<Rightarrow> bool" where
  "row_loose n \<longleftrightarrow> row_origin n \<and> loose_progress n \<and> storable n"

lemma row_inv_loose: "row_inv n \<Longrightarrow> row_loose n"
  by (simp add: row_inv_def row_progress_def row_loose_def loose_progress_def)

text \<open>Nothing takes back that a notification was sent: its time and the provider's id.\<close>

definition outlives :: "notification \<Rightarrow> notification \<Rightarrow> bool" where
  "outlives n m \<longleftrightarrow> (stime n \<noteq> None \<longrightarrow> stime m \<noteq> None) \<and> (external_id n \<noteq> None \<longrightarrow> external_id m \<noteq> None)"

lemma outlives_refl [simp]: "outlives n n"
  by (simp add: outlives_def)

lemma outlives_trans: "outlives n m \<Longrightarrow> outlives m k \<Longrightarrow> outlives n k"
  by (simp add: outlives_def)

definition loose_inv :: "table \<Rightarrow> bool" where
  "loose_inv tbl \<longleftrightarrow> table_ok tbl \<and> (\<forall>i n. tbl i = Some n \<longrightarrow> row_loose n)"

lemma life_inv_loose: "life_inv tbl \<Longrightarrow> loose_inv tbl"
  by (simp add: life_inv_def loose_inv_def row_inv_loose)

lemma loose_inv_row: "loose_inv tbl \<Longrightarrow> tbl i = Some n \<Longrightarrow> row_loose n \<and> nid n = i"
  by (auto simp: loose_inv_def table_ok_nid)

section \<open>Writes\<close>

inductive blind_write :: "table \<Rightarrow> table \<Rightarrow> bool" where
  created: "event_args a \<Longrightarrow> inserted a i tbl tbl' \<Longrightarrow> blind_write tbl tbl'"
| changed: "updated i as tbl tbl' \<Longrightarrow> tbl i = Some m \<Longrightarrow> loose_progress (set_attrs as m) \<Longrightarrow>
    outlives m (set_attrs as m) \<Longrightarrow> blind_write tbl tbl'"

lemma blind_write_inv:
  assumes "blind_write tbl tbl'" "loose_inv tbl"
  shows "loose_inv tbl'"
  using assms(1)
proof cases
  case (created a i)
  then obtain now r where r: "a_recipient a = Some r" "storable (row_of_args i now r a)"
    and tbl': "tbl' = tbl(i \<mapsto> row_of_args i now r a)" by (auto simp: inserted_def)
  from created(2) assms(2) have "table_ok tbl'" by (auto simp: loose_inv_def intro: table_ok_inserted)
  moreover have "row_loose (row_of_args i now r a)" using row_inv_created [OF created(1) r] by (rule row_inv_loose)
  ultimately show ?thesis using assms(2) by (auto simp: loose_inv_def tbl')
next
  case (changed i as m)
  then obtain t where st: "storable (set_attrs as m)" and tbl': "tbl' = tbl(i \<mapsto> (set_attrs as m)\<lparr>mtime := t\<rparr>)"
    by (auto simp: updated_def)
  from changed(1) assms(2) have "table_ok tbl'" by (auto simp: loose_inv_def intro: table_ok_updated)
  moreover have "row_loose ((set_attrs as m)\<lparr>mtime := t\<rparr>)"
    using changed st assms(2) by (auto simp: loose_inv_def row_loose_def loose_progress_def)
  ultimately show ?thesis using assms(2) by (auto simp: loose_inv_def tbl')
qed

lemma blind_write_row:
  assumes "blind_write tbl tbl'" "tbl j = Some m"
  shows "\<exists>n. tbl' j = Some n \<and> same_identity m n \<and> outlives m n"
  using assms(1)
proof cases
  case (created a i)
  with assms(2) show ?thesis by (auto simp: inserted_def same_identity_def)
next
  case (changed i as m')
  with assms(2) show ?thesis
    by (cases "j = i") (auto simp: updated_def same_identity_def outlives_def)
qed

lemma blind_writes_row:
  "blind_write\<^sup>*\<^sup>* tbl tbl' \<Longrightarrow> tbl j = Some m \<Longrightarrow> \<exists>n. tbl' j = Some n \<and> same_identity m n \<and> outlives m n"
proof (induction rule: rtranclp_induct)
  case (step y z)
  then obtain n where n: "y j = Some n" "same_identity m n" "outlives m n" by blast
  from blind_write_row [OF step.hyps(2) n(1)] n(2,3) show ?case
    by (auto simp: same_identity_def intro: outlives_trans)
qed (simp add: same_identity_def)

text \<open>
  The updates of the handlers: the session loaded \<open>n\<close>, the row is \<open>m\<close> by now, and the columns the
  assignments change in \<open>n\<close> are written to \<open>m\<close>.
\<close>

definition sound_update :: "notification \<Rightarrow> attr list \<Rightarrow> bool" where
  "sound_update n as \<longleftrightarrow> (\<forall>m. row_loose n \<longrightarrow> row_loose m \<longrightarrow> outlives n m \<longrightarrow>
     loose_progress (set_attrs (changes n as) m) \<and> outlives m (set_attrs (changes n as) m))"

lemma sound_updates:
  "sound_update n [Status (status_value QUEUED)]"
  "sound_update n [Status (status_value SENT), External_id (Some x), Stime (Some t)]"
  "sound_update n [Status (status_value FAILED), Error_code (Some (error_value e))]"
  "sound_update n [Status (status_value RETRYING), Retry_count (retry_count n + 1), Error_code (Some (error_value e))]"
  "sound_update n (Status (status_value PENDING) # requeue_attrs n)"
  unfolding sound_update_def row_loose_def loose_progress_def outlives_def
  by (auto simp: status_enum.value_inject simp del: status_value.simps error_value.simps)

section \<open>Every step of every handler\<close>

definition w_inv :: "('d, 'r, 'q) services \<Rightarrow> ('d, 'r, 'q, 'p) world \<Rightarrow> bool" where
  "w_inv S w \<longleftrightarrow> loose_inv (w_rows S w)"

definition w_step ::
  "('d, 'r, 'q) services \<Rightarrow> ('d, 'r, 'q, 'p) world \<Rightarrow> ('d, 'r, 'q, 'p) world \<Rightarrow> bool"
where
  "w_step S w w' \<longleftrightarrow> w_rows S w' = w_rows S w \<or> blind_write (w_rows S w) (w_rows S w')"

abbreviation task_ok ::
  "('d, 'r, 'q) services \<Rightarrow> ('a \<Rightarrow> ('d, 'r, 'q, 'p) world \<Rightarrow> bool) \<Rightarrow> (('d, 'r, 'q, 'p) world, 'a) coroutine \<Rightarrow>
   ('d, 'r, 'q, 'p) world \<Rightarrow> bool"
where
  "task_ok S \<equiv> co_safe (w_inv S) (w_step S)"

text \<open>What a session loaded was the row at some time: it is sound, and the row has outlived it.\<close>

definition seen :: "('d, 'r, 'q) services \<Rightarrow> int \<Rightarrow> notification \<Rightarrow> ('d, 'r, 'q, 'p) world \<Rightarrow> bool" where
  "seen S i n w \<longleftrightarrow> row_loose n \<and> nid n = i \<and> (\<exists>m. w_rows S w i = Some m \<and> outlives n m)"

definition seen_option ::
  "('d, 'r, 'q) services \<Rightarrow> int \<Rightarrow> notification option \<Rightarrow> ('d, 'r, 'q, 'p) world \<Rightarrow> bool" where
  "seen_option S i row w \<longleftrightarrow> (\<forall>n. row = Some n \<longrightarrow> seen S i n w)"

lemma seen_kept: "kept_by (w_step S) (seen S i n)"
  by (auto simp: kept_by_def seen_def w_step_def dest!: blind_write_row intro: outlives_trans)

lemmas seen_later = kept_by_steps [OF _ seen_kept]

lemma row_seen: "w_inv S w \<Longrightarrow> w_rows S w i = Some n \<Longrightarrow> seen S i n w"
  unfolding w_inv_def seen_def using loose_inv_row by auto

lemma refreshed_seen: "seen S i n w \<Longrightarrow> seen_option S i upd w \<Longrightarrow> seen S i (refreshed n upd) w"
  by (cases upd) (simp_all add: refreshed_def seen_option_def)

text \<open>Steps on the other servers do not touch the table.\<close>

lemma task_ok_quiet:
  fixes m :: "(('d, 'r, 'q, 'p) world, 'a) io"
  assumes "evolves (same w_db) m"
  shows "task_ok S (\<lambda>_ _. True) (co_step m) w"
proof (rule co_safe_step)
  fix t r w'
  assume "m t = (r, w')"
  from evolvesD [OF assms this] show "w_step S t w' \<and> (\<forall>x. r = Inr x \<longrightarrow> True)"
    by (simp add: w_step_def same_def)
qed

lemma task_ok_others:
  "task_ok S (\<lambda>_ _. True) (co_svc k) w" "task_ok S (\<lambda>_ _. True) (co_client c) w"
  "task_ok S (\<lambda>_ _. True) (co_wire q) w" "task_ok S (\<lambda>_ _. True) (co_on_svc t) w"
proof -
  show "task_ok S (\<lambda>_ _. True) (co_svc k) w" "task_ok S (\<lambda>_ _. True) (co_client c) w"
    "task_ok S (\<lambda>_ _. True) (co_wire q) w"
    unfolding co_svc_def co_client_def co_wire_def
    by (rule task_ok_quiet, rule on_parts_frame on_client_db on_wire_db)+
  show "task_ok S (\<lambda>_ _. True) (co_on_svc t) w"
    unfolding co_on_svc_def by (rule co_safe_zoom) (simp add: w_step_def)
qed

text \<open>Steps on the database, by the laws of its operations.\<close>

lemma task_ok_db:
  assumes "\<And>v r d. (w_step S)\<^sup>*\<^sup>* w v \<Longrightarrow> w_inv S v \<Longrightarrow> m (w_db v) = (r, d) \<Longrightarrow>
    w_step S v (v\<lparr>w_db := d\<rparr>) \<and> (\<forall>x. r = Inr x \<longrightarrow> Q x (v\<lparr>w_db := d\<rparr>))"
  shows "task_ok S Q (co_db m) w"
  unfolding co_db_def
proof (rule co_safe_step)
  fix v r w'
  assume v: "(w_step S)\<^sup>*\<^sup>* w v" "w_inv S v" and run: "on_db m v = (r, w')"
  from run obtain d where "m (w_db v) = (r, d)" "w' = v\<lparr>w_db := d\<rparr>" by (rule on_db_cases)
  with assms [OF v] show "w_step S v w' \<and> (\<forall>x. r = Inr x \<longrightarrow> Q x w')" by simp
qed

lemma seen_here: "w_inv S v \<Longrightarrow> w_rows S w' = w_rows S v \<Longrightarrow> w_rows S v i = Some n \<Longrightarrow> seen S i n w'"
  using row_seen [of S v i n] by (simp add: seen_def)

lemma task_ok_get:
  assumes "services_laws S"
  shows "task_ok S (seen_option S i) (co_db (get_by_id (srv_pg S) i)) w"
proof (rule task_ok_db)
  fix v :: "('a, 'b, 'c, 'd) world" and r d
  assume inv: "w_inv S v" and get: "get_by_id (srv_pg S) i (w_db v) = (r, d)"
  note law = pg_read_law(1) [OF services_laws_parts(1) [OF assms] get [unfolded get_by_id_def]]
  then have rows: "w_rows S (v\<lparr>w_db := d\<rparr>) = w_rows S v" by simp
  from law show "w_step S v (v\<lparr>w_db := d\<rparr>) \<and> (\<forall>x. r = Inr x \<longrightarrow> seen_option S i x (v\<lparr>w_db := d\<rparr>))"
    using seen_here [OF inv rows] by (auto simp: seen_option_def w_step_def)
qed

lemma task_ok_refresh:
  assumes "services_laws S"
  shows "task_ok S (seen S i) (co_db (pg_refresh (srv_pg S) i)) w"
proof (rule task_ok_db)
  fix v :: "('a, 'b, 'c, 'd) world" and r d
  assume inv: "w_inv S v" and get: "pg_refresh (srv_pg S) i (w_db v) = (r, d)"
  note law = pg_read_law(3) [OF services_laws_parts(1) [OF assms] get]
  then have rows: "w_rows S (v\<lparr>w_db := d\<rparr>) = w_rows S v" by simp
  from law show "w_step S v (v\<lparr>w_db := d\<rparr>) \<and> (\<forall>x. r = Inr x \<longrightarrow> seen S i x (v\<lparr>w_db := d\<rparr>))"
    using seen_here [OF inv rows] by (auto simp: w_step_def)
qed

lemma task_ok_update:
  assumes laws: "services_laws S" and n: "seen S i n w" and upd: "sound_update n as"
  shows "task_ok S (\<lambda>_ _. True) (co_db (pg_update (srv_pg S) i (changes n as))) w"
proof (rule task_ok_db)
  fix v :: "('a, 'b, 'c, 'd) world" and r d
  assume v: "(w_step S)\<^sup>*\<^sup>* w v" and inv: "w_inv S v" and run: "pg_update (srv_pg S) i (changes n as) (w_db v) = (r, d)"
  note law = pg_update_law [OF services_laws_parts(1) [OF laws], of i "changes n as" "w_db v" _ d]
  from seen_later [OF v n] obtain m where m: "row_loose n" "w_rows S v i = Some m" "outlives n m"
    by (auto simp: seen_def)
  from inv m(2) have "row_loose m" by (simp add: w_inv_def loose_inv_def)
  with upd m(1,3) have "loose_progress (set_attrs (changes n as) m)" "outlives m (set_attrs (changes n as) m)"
    by (simp_all add: sound_update_def)
  with m(2) have "updated i (changes n as) (w_rows S v) tbl \<Longrightarrow> blind_write (w_rows S v) tbl" for tbl
    by (rule blind_write.changed [rotated])
  with law run show "w_step S v (v\<lparr>w_db := d\<rparr>) \<and> (\<forall>x. r = Inr x \<longrightarrow> True)"
    by (cases r) (auto simp: w_step_def)
qed

lemma task_ok_insert:
  assumes laws: "services_laws S" and args: "event_args a"
  shows "task_ok S (\<lambda>_ _. True) (co_db (pg_insert (srv_pg S) a)) w"
proof (rule task_ok_db)
  fix v :: "('a, 'b, 'c, 'd) world" and r d
  assume run: "pg_insert (srv_pg S) a (w_db v) = (r, d)"
  note law = pg_insert_law [OF services_laws_parts(1) [OF laws], of a "w_db v" _ d]
  with run show "w_step S v (v\<lparr>w_db := d\<rparr>) \<and> (\<forall>x. r = Inr x \<longrightarrow> True)"
    by (cases r) (auto simp: w_step_def intro: blind_write.created [OF args])
qed

lemma task_ok_rollback:
  assumes "services_laws S"
  shows "task_ok S (\<lambda>_ _. True) (co_db (pg_rollback (srv_pg S))) w"
  by (rule task_ok_db) (use pg_read_law(5) [OF services_laws_parts(1) [OF assms]] in \<open>auto simp: w_step_def\<close>)

lemma task_ok_prov:
  fixes m :: "('p, 'a) io" and S :: "('d, 'r, 'q) services"
  assumes "\<And>p r p'. m p = (r, p') \<Longrightarrow> \<forall>x. r = Inr x \<longrightarrow> Q x"
  shows "task_ok S (\<lambda>x _. Q x) (co_prov m) (w :: ('d, 'r, 'q, 'p) world)"
  unfolding co_prov_def
proof (rule co_safe_step)
  fix v :: "('d, 'r, 'q, 'p) world" and r w'
  assume run: "on_prov m v = (r, w')"
  then obtain p where "m (w_prov v) = (r, p)" by (rule on_prov_cases)
  from assms [OF this] evolvesD [OF on_parts_frame(5) run]
  show "w_step S v w' \<and> (\<forall>x. r = Inr x \<longrightarrow> Q x)" by (simp add: w_step_def same_def)
qed

lemma task_ok_of: "task_ok S (\<lambda>_ _. True) (co_of r) w"
  by (simp add: co_safe_of)

section \<open>The handlers\<close>

lemma task_ok_update_status:
  assumes laws: "services_laws S" and n: "seen S i n w" and upd: "sound_update n (Status (status_value st) # as)"
  shows "task_ok S (seen_option S i) (co_update_status (srv_pg S) i n st as) w"
  unfolding co_update_status_def
  apply (rule co_safe_bind [OF task_ok_get [OF laws]])
  apply (rule co_safe_option)
   apply (simp add: co_safe_return seen_option_def)
  apply (rule co_safe_bind [OF task_ok_update [OF laws _ upd]])
   apply (erule seen_later [OF _ n])
  apply (rule co_safe_bind [OF task_ok_refresh [OF laws, of i]])
  apply (simp add: co_safe_return seen_option_def)
  done

lemma task_ok_mark_sent:
  assumes laws: "services_laws S" and n: "seen S (nid n) n w" and x: "x = Some y"
  shows "task_ok S (\<lambda>_ _. True) (co_mark_sent S n x) w"
  unfolding co_mark_sent_def x
  apply (rule co_safe_bind [OF task_ok_others(1)])
  apply (rule co_safe_bind [OF task_ok_update_status [OF laws _ sound_updates(2)]])
   apply (erule seen_later [OF _ n])
  apply (rule co_safe_bind [OF task_ok_of])
  apply (simp add: co_safe_return)
  done

lemma seen_option_kept: "kept_by (w_step S) (seen_option S i row)"
  by (auto simp: kept_by_def seen_option_def dest: seen_kept [unfolded kept_by_def, rule_format])

lemmas seen_option_later = kept_by_steps [OF _ seen_option_kept]

lemma task_ok_mark_failed:
  assumes laws: "services_laws S" and n: "seen S (nid n) n w"
  shows "task_ok S (seen S (nid n)) (co_mark_failed S n code) w"
  unfolding co_mark_failed_def
proof (rule co_safe_bind [OF task_ok_update_status [OF laws n sound_updates(3)]], rule co_safe_bind [OF task_ok_of])
  fix upd t u and x :: notification_channel
  assume t: "(w_step S)\<^sup>*\<^sup>* w t" "seen_option S (nid n) upd t" and u: "(w_step S)\<^sup>*\<^sup>* t u"
  have "seen S (nid n) (refreshed n upd) u"
    using refreshed_seen [OF seen_later [OF t(1) n] t(2)] by (rule seen_later [OF u])
  then show "task_ok S (seen S (nid n)) (co_return (refreshed n upd)) u" by (rule co_safe_return)
qed

lemma task_ok_schedule_retry:
  assumes laws: "services_laws S" and n: "seen S (nid n) n w"
  shows "task_ok S (\<lambda>_ _. True) (co_schedule_retry S n code) w"
  unfolding co_schedule_retry_def Let_def
  apply (rule co_safe_bind [OF task_ok_of])
  apply (drule seen_later [OF _ n])
  apply (rule co_safe_if)
   apply (rule co_safe_bind [OF task_ok_mark_failed [OF laws]], assumption)
   apply (simp add: co_send_to_dlq_def task_ok_others(4))
  apply (rule co_safe_bind [OF task_ok_others(1)])
  apply (drule (1) seen_later)
  apply (rule co_safe_bind [OF task_ok_update_status [OF laws _ sound_updates(4)]], assumption)
  apply (rule co_safe_bind [OF task_ok_others(4)])
  apply (simp add: co_safe_return)
  done

lemma task_ok_send:
  assumes "provider_ok provider"
  shows "task_ok S (\<lambda>r _. pr_success r \<longrightarrow> (\<exists>x. pr_external_id r = Some x)) (co_prov (p_send provider rcpt body)) w"
  by (rule task_ok_prov) (metis assms provider_laws(3))

lemma task_ok_attempt:
  assumes laws: "services_laws S" and n: "seen S (nid n) n w" and ok: "provider_ok provider"
  shows "task_ok S (\<lambda>_ _. True)
    (co_bind (co_prov (p_health_check provider)) (\<lambda>healthy.
     if \<not> healthy then co_schedule_retry S n PROVIDER_DOWN
     else
       co_bind (co_prov (p_send provider (recipient n) (content n))) (\<lambda>result.
       if pr_success result then co_mark_sent S n (pr_external_id result)
       else
         co_bind (co_of (failure_code result)) (\<lambda>code.
         if code \<notin> RETRYABLE_ERROR_CODES
         then co_bind (co_mark_failed S n code) (\<lambda>_. co_return ())
         else co_schedule_retry S n code)))) w"
  apply (rule co_safe_bind [where Q = "\<lambda>_ _. True"])
   apply (rule task_ok_prov, simp)
  apply (drule seen_later [OF _ n])
  apply (rule co_safe_if)
   apply (erule task_ok_schedule_retry [OF laws])
  apply (rule co_safe_bind [OF task_ok_send [OF ok]])
  apply (drule (1) seen_later)
  apply (rule co_safe_if)
   apply (erule impE, assumption, erule exE, erule (1) task_ok_mark_sent [OF laws])
  apply (rule co_safe_bind [OF task_ok_of])
  apply (drule (1) seen_later)
  apply (rule co_safe_if)
   apply (rule co_safe_bind [OF task_ok_mark_failed [OF laws]], assumption)
   apply (simp add: co_safe_return)
  apply (erule task_ok_schedule_retry [OF laws])
  done

lemma task_ok_dispatch:
  fixes S :: "('a, 'b, 'c) services" and providers :: "notification_channel \<Rightarrow> 'd provider option"
  assumes laws: "services_laws S" and provs: "providers_ok providers"
  shows "task_ok S (\<lambda>_ _. True) (co_dispatch S providers i) w"
  unfolding co_dispatch_def Let_def
proof (rule co_safe_bind [OF task_ok_get [OF laws]], rule co_safe_option, simp add: co_safe_return,
    rule co_safe_bind [OF task_ok_of], rule co_safe_option)
  fix row n and t u :: "('a, 'b, 'c, 'd) world" and ch :: notification_channel
  assume "seen_option S i row t" "row = Some n" and u: "(w_step S)\<^sup>*\<^sup>* t u"
  then have n: "seen S i n u" by (auto simp: seen_option_def intro: seen_later)
  then have id: "nid n = i" by (simp add: seen_def)
  show "task_ok S (\<lambda>_ _. True) (co_bind (co_mark_failed S n UNKNOWN) (\<lambda>_. co_return ())) u"
    using n by (intro co_safe_bind [OF task_ok_mark_failed [OF laws]] co_safe_return) (simp_all add: id)
  fix provider
  assume "providers ch = Some provider"
  then have ok: "provider_ok provider" by (rule providers_okD [OF provs])
  show "task_ok S (\<lambda>_ _. True)
    (co_bind (co_update_status (srv_pg S) i n QUEUED []) (\<lambda>upd.
     co_bind (co_prov (p_health_check provider)) (\<lambda>healthy.
     if \<not> healthy then co_schedule_retry S (refreshed n upd) PROVIDER_DOWN
     else
       co_bind (co_prov (p_send provider (recipient (refreshed n upd)) (content (refreshed n upd)))) (\<lambda>result.
       if pr_success result then co_mark_sent S (refreshed n upd) (pr_external_id result)
       else
         co_bind (co_of (failure_code result)) (\<lambda>code.
         if code \<notin> RETRYABLE_ERROR_CODES
         then co_bind (co_mark_failed S (refreshed n upd) code) (\<lambda>_. co_return ())
         else co_schedule_retry S (refreshed n upd) code))))) u"
  proof (rule co_safe_bind [OF task_ok_update_status [OF laws n sound_updates(1)]], rule task_ok_attempt [OF laws _ ok])
    fix upd t
    assume "(w_step S)\<^sup>*\<^sup>* u t" "seen_option S i upd t"
    from refreshed_seen [OF seen_later [OF this(1) n] this(2)]
    show "seen S (nid (refreshed n upd)) (refreshed n upd) t" by (simp add: seen_def)
  qed
qed

lemma task_ok_worker_turn:
  assumes "services_laws S" "providers_ok providers"
  shows "task_ok S (\<lambda>_ _. True) (co_worker_turn S providers) w"
  unfolding co_worker_turn_def
  by (intro co_safe_try co_safe_bind [OF task_ok_others(1)] co_safe_option co_safe_return
      task_ok_dispatch assms) simp_all

lemma task_ok_create_one:
  assumes laws: "services_laws S" and p: "validated p src ev prio" "c \<in> set (event_channels ev)"
  shows "task_ok S (\<lambda>_ _. True) (co_create_one S p c acc) w"
  unfolding co_create_one_def channel_args_validated [OF p]
  by (rule co_safe_bind [where Q = "\<lambda>a _. a = request_args p src ev prio c"], rule co_safe_of, simp)
    (auto intro!: co_safe_try co_safe_bind [OF task_ok_insert [OF laws request_args_event(1) [OF p]]]
      co_safe_bind [OF task_ok_refresh [OF laws]] co_safe_bind [OF task_ok_others(4)]
      co_safe_bind [OF task_ok_rollback [OF laws]] co_safe_return co_safe_raise)

lemma task_ok_create:
  assumes laws: "services_laws S" and p: "validated p src ev prio"
  shows "task_ok S (\<lambda>_ _. True) (co_create_notification S p) w"
  unfolding co_create_notification_def Let_def validated_as_int(4) [OF p]
  apply (rule co_safe_bind [OF task_ok_others(2)])
  apply (rule co_safe_if)
   apply (simp add: co_safe_return)
  apply (rule co_safe_bind [OF task_ok_others(2)])
  apply (rule co_safe_bind [where Q = "\<lambda>e _. e = ev"])
   apply (rule co_safe_of, simp)
  apply (rule co_safe_bind [where Q = "\<lambda>_ _. True"])
   apply (rule co_safe_foreach)
    apply (simp add: task_ok_create_one [OF laws p])
   apply (simp_all add: co_safe_return)
  done

lemma task_ok_retry_notification:
  assumes laws: "services_laws S"
  shows "task_ok S (\<lambda>_ _. True) (co_retry_notification S i) w"
  unfolding co_retry_notification_def
  apply (rule co_safe_bind [OF task_ok_get [OF laws]])
  apply (rule co_safe_option)
   apply (simp add: co_safe_return)
  apply (rule co_safe_if, simp add: co_safe_return)+
  apply (rule co_safe_bind [OF task_ok_update_status [OF laws _ sound_updates(5)]])
   apply (simp add: seen_option_def)
  apply (rule co_safe_bind [OF task_ok_others(4)])
  apply (simp add: co_safe_return)
  done

lemma task_ok_on_new_event:
  assumes laws: "services_laws S"
  shows "task_ok S (\<lambda>_ _. True) (co_on_new_event S msg) w"
  unfolding co_on_new_event_def
  apply (rule co_safe_try)
   apply (rule co_safe_bind [where Q = "\<lambda>p _. \<exists>src ev prio. validated p src ev prio"])
    apply (rule co_safe_of, erule delivery_payload_validated, blast)
   apply (elim exE)
   apply (rule co_safe_bind [OF task_ok_create [OF laws]], assumption)
   apply (rule task_ok_others(3))
  apply (intro co_safe_if task_ok_others(3))
  done

lemma task_ok_on_retry_event:
  assumes laws: "services_laws S"
  shows "task_ok S (\<lambda>_ _. True) (co_on_retry_event S msg) w"
  unfolding co_on_retry_event_def
  apply (rule co_safe_try)
   apply (rule co_safe_bind [OF task_ok_of])
   apply (rule co_safe_bind [OF task_ok_get [OF laws]])
   apply (rule co_safe_bind [where Q = "\<lambda>_ _. True"])
    apply (intro co_safe_option task_ok_others(4) co_safe_return, simp)
   apply (rule task_ok_others(3))+
  done

section \<open>The event loop\<close>

text \<open>The tasks the service starts; what a route makes of the result is no step of its own.\<close>

definition co_ignore :: "('s, 'a) coroutine \<Rightarrow> ('s, unit) coroutine" where
  "co_ignore c = co_bind c (\<lambda>_. co_return ())"

inductive handler_task ::
  "('d, 'r, 'q) services \<Rightarrow> (notification_channel \<Rightarrow> 'p provider option) \<Rightarrow>
   (('d, 'r, 'q, 'p) world, unit) coroutine \<Rightarrow> bool"
  for S :: "('d, 'r, 'q) services" and providers :: "notification_channel \<Rightarrow> 'p provider option"
where
  turn: "handler_task S providers (co_worker_turn S providers)"
| new_event: "handler_task S providers (co_on_new_event S msg)"
| retry_event: "handler_task S providers (co_on_retry_event S msg)"
| request: "notification_create_init q = Inr p \<Longrightarrow>
    handler_task S providers (co_ignore (co_create_notification S p))"
| manual_retry: "handler_task S providers (co_ignore (co_retry_notification S i))"

lemma handler_task_ok:
  assumes laws: "services_laws S" "providers_ok providers" and task: "handler_task S providers c"
  shows "task_ok S (\<lambda>_ _. True) c w"
  using task
proof cases
  case (request q p)
  from init_validated [OF request(2)] obtain src ev prio where "validated p src ev prio" by blast
  from task_ok_create [OF laws(1) this] request(1) show ?thesis
    by (auto simp: co_ignore_def intro: co_safe_bind co_safe_return)
next
  case (manual_retry i)
  then show ?thesis
    by (auto simp: co_ignore_def intro: co_safe_bind [OF task_ok_retry_notification [OF laws(1)]] co_safe_return)
qed (simp_all add: task_ok_worker_turn [OF laws] task_ok_on_new_event [OF laws(1)]
    task_ok_on_retry_event [OF laws(1)])

text \<open>
  With services that keep their laws and providers that keep their contract the handlers guarantee
  what the pool needs; without them no task is considered.
\<close>

definition lawful_task ::
  "('d, 'r, 'q) services \<Rightarrow> (notification_channel \<Rightarrow> 'p provider option) \<Rightarrow>
   (('d, 'r, 'q, 'p) world, unit) coroutine \<Rightarrow> bool"
where
  "lawful_task S providers c \<longleftrightarrow> services_laws S \<and> providers_ok providers \<and> handler_task S providers c"

definition outside_step ::
  "('d, 'r, 'q) services \<Rightarrow> ('d, 'r, 'q, 'p) world \<Rightarrow> ('d, 'r, 'q, 'p) world \<Rightarrow> bool"
where
  "outside_step S w w' \<longleftrightarrow> w_rows S w' = w_rows S w"

interpretation handlers: guarantee "w_inv S" "w_step S" "lawful_task S providers" "outside_step S"
  for S providers
  by unfold_locales
    (auto simp: w_inv_def w_step_def lawful_task_def outside_step_def intro: blind_write_inv handler_task_ok)

lemma w_steps_writes: "(w_step S)\<^sup>*\<^sup>* w w' \<Longrightarrow> blind_write\<^sup>*\<^sup>* (w_rows S w) (w_rows S w')"
proof (induction rule: rtranclp_induct)
  case (step y z)
  then show ?case by (auto simp: w_step_def intro: rtranclp.rtrancl_into_rtrancl)
qed simp

end
