(* ===== verification/Interleaving_Properties.thy ===== *)
theory Interleaving_Properties
  imports Interleaving Worker_Liveness Sample_Data
begin

text \<open>
  What holds of the handlers when the event loop switches between them at their awaits, and what
  does not, each with an instance.
\<close>

section \<open>Every schedule\<close>

text \<open>The handlers as tasks are the handlers: run without interruption from a state whose rows sit under
  their ids, each task does what the handler of the same name does, whatever the servers answer.\<close>

lemma tasks_run_as_handlers:
  assumes "services_laws S" "table_ok (w_rows S w)"
  shows "co_run (co_dispatch S providers i) w = dispatch S providers i w \<and>
    co_run (co_worker_turn S providers) w = worker_turn S providers w \<and>
    co_run (co_create_notification S p) w = create_notification S p w \<and>
    co_run (co_retry_notification S i) w = retry_notification S i w \<and>
    co_run (co_on_new_event S msg) w = on_new_event S msg w \<and>
    co_run (co_on_retry_event S msg) w = on_retry_event S msg w"
  using co_dispatch_run [OF assms] co_worker_turn_run [OF assms] co_retry_notification_run [OF assms(1)]
  by (simp add: same_run_def co_run_simps)

text \<open>C6. Under every schedule: however the event loop interleaves any number of requests, manual retries,
  callbacks and turns of workers at their awaits, drops them halfway, and whatever the servers do, a row
  sits under its id with codes of members in its columns, a sent one has its time and the provider's id,
  keys stay unique, and no row is lost or changed in what it was created with.\<close>

theorem interleaved_rows_are_sound:
  assumes laws: "services_laws S" "providers_ok providers"
    and run: "(pool_step (handler_task S providers) (outside_step S))\<^sup>*\<^sup>* ([], w0) (ts, w)"
    and start: "life_inv (w_rows S w0)"
  shows "table_ok (w_rows S w) \<and> (\<forall>i n. w_rows S w i = Some n \<longrightarrow> row_origin n \<and> loose_progress n) \<and>
    (\<forall>i m. w_rows S w0 i = Some m \<longrightarrow> (\<exists>n. w_rows S w i = Some n \<and> same_identity m n \<and> outlives m n))"
proof -
  have "handler_task S providers = lawful_task S providers"
    by (simp add: fun_eq_iff lawful_task_def laws)
  with run have "(pool_step (lawful_task S providers) (outside_step S))\<^sup>*\<^sup>* ([], w0) (ts, w)" by simp
  moreover have "handlers.pool_ok S ([], w0)"
    using start by (simp add: handlers.pool_ok_def w_inv_def life_inv_loose)
  ultimately have ok: "handlers.pool_ok S (ts, w)" "(w_step S)\<^sup>*\<^sup>* w0 w"
    using handlers.pool_ok_steps [of S providers "([], w0)" "(ts, w)"] by simp_all
  then have inv: "loose_inv (w_rows S w)" by (simp add: handlers.pool_ok_def w_inv_def)
  then have "table_ok (w_rows S w)" "\<forall>i n. w_rows S w i = Some n \<longrightarrow> row_origin n \<and> loose_progress n"
    by (simp_all add: loose_inv_def row_loose_def)
  with blind_writes_row [OF w_steps_writes [OF ok(2)]] show ?thesis by blast
qed

lemma handler_spawned:
  "handler_task S providers c \<Longrightarrow> pool_step (handler_task S providers) out (ts, w) (ts @ [c], w)"
  by (rule pool_step.spawned)

lemma one_row_life_inv: "row_inv n \<Longrightarrow> life_inv [nid n \<mapsto> n]"
  by (auto simp: life_inv_def table_ok_def)

theorem interleaved_rows_are_sound_witness:
  "\<exists>ts w n. (pool_step (handler_task ref_services main_providers) (outside_step ref_services))\<^sup>*\<^sup>*
      ([], world_with (row_with PENDING 0)) (ts, w) \<and> length ts = 2 \<and> w_rows ref_services w 1 = Some n \<and>
    loose_progress n \<and> same_identity (row_with PENDING 0) n"
proof -
  let ?S = ref_services and ?w = "world_with (row_with PENDING 0)"
  let ?step = "pool_step (handler_task ?S main_providers) (outside_step ?S)"
  let ?retry = "co_ignore (co_retry_notification ?S 1)" and ?turn = "co_worker_turn ?S main_providers"
  obtain r w where r: "co_run ?retry ?w = (r, w)" by (cases "co_run ?retry ?w")
  have "?step\<^sup>*\<^sup>* ([], ?w) ([?retry], ?w)"
    using handler_spawned [OF handler_task.manual_retry, of ?S main_providers "outside_step ?S" "[]" ?w 1] by simp
  also have "?step\<^sup>*\<^sup>* ([?retry], ?w) ([?retry, ?turn], ?w)"
    using handler_spawned [OF handler_task.turn, of ?S main_providers "outside_step ?S" "[?retry]" ?w] by simp
  also have "?step\<^sup>*\<^sup>* ([?retry, ?turn], ?w) ([Finished r, ?turn], w)"
    using pool_run [of 0 "[?retry, ?turn]" _ ?w r w] r by simp
  finally have run: "?step\<^sup>*\<^sup>* ([], ?w) ([Finished r, ?turn], w)" .
  have "life_inv (w_rows ?S ?w)" using one_row_life_inv [OF row_with_inv [of PENDING 0]] by simp
  from interleaved_rows_are_sound [OF ref_services_laws main_providers_contract run this]
  have "\<exists>n. w_rows ?S w 1 = Some n \<and> loose_progress n \<and> same_identity (row_with PENDING 0) n"
    by (metis world_with_rows row_with_fields(1) map_upd_Some_unfold)
  then obtain n where "w_rows ?S w 1 = Some n" "loose_progress n" "same_identity (row_with PENDING 0) n" by blast
  with run show ?thesis by (intro exI [of _ "[Finished r, ?turn]"] exI [of _ w] exI [of _ n]) simp
qed

section \<open>A manual retry across a turn of a worker\<close>

text \<open>
  \<open>retry_notification\<close> reads the row, awaits, and writes. The schedule of the next property resumes
  a worker in between: the request has read a row that failed or is retrying, the worker sends it, and
  the request goes on with what it read.
\<close>

definition retry_first :: "('d, 'r, 'q) services \<Rightarrow> int \<Rightarrow> notification \<Rightarrow>
    (('d, 'r, 'q, 'p) world, notification option \<times> string) coroutine" where
  "retry_first S i n =
     co_bind (co_update_status (srv_pg S) i n PENDING (requeue_attrs n)) (\<lambda>upd.
     co_bind (co_on_svc (co_enqueue (srv_redis S) i (priority n))) (\<lambda>_.
     co_return (upd, '''')))"

lemma retry_reads_first:
  assumes get: "on_db (get_by_id (srv_pg S) i) w = (Inr (Some n), w1)"
    and st: "status n \<noteq> status_value SENT" "status n \<noteq> status_value QUEUED"
  shows "\<exists>f. co_ignore (co_retry_notification S i) = Awaits f \<and> f w = (co_ignore (retry_first S i n), w1)"
  using assms
  by (simp add: co_ignore_def co_retry_notification_def retry_first_def co_db_def co_step_def
      del: status_value.simps)

text \<open>The update of an object loaded as \<open>n\<close>, when the row is \<open>m\<close> by then.\<close>

lemma stale_update:
  fixes w :: "('d, 'r, 'q, 'p) world"
  assumes laws: "services_laws S" and up: "db_up S w" and row: "w_rows S w i = Some m"
    and fits: "storable (set_attrs (changes n (Status (status_value st) # as)) m)"
  obtains k t w' where "co_run (co_update_status (srv_pg S) i n st as) w = (Inr (Some k), w')"
    "k = (set_attrs (changes n (Status (status_value st) # as)) m)\<lparr>mtime := t\<rparr>"
    "w_rows S w' = (w_rows S w)(i \<mapsto> k)" "db_up S w'" "w_svc w' = w_svc w" "w_prov w' = w_prov w"
proof -
  note pg = services_laws_parts(1) [OF laws]
  let ?as = "changes n (Status (status_value st) # as)"
  obtain x w1 where get: "on_db (get_by_id (srv_pg S) i) w = (x, w1)"
    by (cases "on_db (get_by_id (srv_pg S) i) w")
  note f = on_db_get_cases [OF laws get]
  from f(5) [OF up] row have x: "x = Inr (Some m)" and up1: "pg_up (srv_pg S) (w_db w1)" by (simp_all add: db_up_def)
  from f(1) row have row1: "pg_rows (srv_pg S) (w_db w1) i = Some m" by simp
  obtain u d where upd: "pg_update (srv_pg S) i ?as (w_db w1) = (u, d)"
    by (cases "pg_update (srv_pg S) i ?as (w_db w1)")
  from pg_up_law(2) [OF pg up1 upd] row1 fits have d: "pg_up (srv_pg S) d" "u = Inr ()" by simp_all
  from pg_update_law(1) [OF pg upd [unfolded d(2)]] row1 f(1) obtain t where
    rows: "pg_rows (srv_pg S) d = (w_rows S w)(i \<mapsto> (set_attrs ?as m)\<lparr>mtime := t\<rparr>)"
    by (auto simp: updated_def simp del: changes.simps)
  obtain z e where ref: "pg_refresh (srv_pg S) i d = (z, e)" by (cases "pg_refresh (srv_pg S) i d")
  from pg_up_law(4) [OF pg d(1) ref] pg_read_law(3) [OF pg ref] rows
  have e: "pg_up (srv_pg S) e" "z = Inr ((set_attrs ?as m)\<lparr>mtime := t\<rparr>)" "pg_rows (srv_pg S) e = pg_rows (srv_pg S) d"
    by (auto simp del: changes.simps)
  show thesis
  proof (rule that)
    show "co_run (co_update_status (srv_pg S) i n st as) w =
        (Inr (Some ((set_attrs ?as m)\<lparr>mtime := t\<rparr>)), w1\<lparr>w_db := e\<rparr>)"
      using get x upd d(2) ref e(2)
      by (simp add: co_update_status_def co_run_simps io_bind_def on_db_run io_return_def del: changes.simps)
  qed (use rows e f(2,3) in \<open>simp_all add: db_up_def del: changes.simps\<close>)
qed

lemma retry_finishes:
  assumes laws: "services_laws S" and up: "all_up S w" and row: "w_rows S w i = Some m"
    and prio: "1 \<le> priority n" "priority n \<le> 4" and st: "status n \<noteq> status_value PENDING"
    and fits: "storable m" "- 1 \<le> retry_count n" "retry_count n < 2 ^ 31 - 1"
  obtains k w' where "co_run (co_ignore (retry_first S i n)) w = (Inr (), w')"
    "w_rows S w' = (w_rows S w)(i \<mapsto> k)" "status k = status_value PENDING" "retry_count k = retry_count n + 1"
    "external_id k = external_id m" "w_prov w' = w_prov w" "i \<in> fst ` set (w_entries S w')"
proof -
  let ?as = "Status (status_value PENDING) # requeue_attrs n"
  from up have db: "db_up S w" and redis: "redis_up S w" and ok: "queue_ok S w" by (simp_all add: all_up_def)
  have "storable (set_attrs (changes n ?as) m)" using fits by (simp add: storable_def)
  then obtain k t w1 where
    upd: "co_run (co_update_status (srv_pg S) i n PENDING (requeue_attrs n)) w = (Inr (Some k), w1)"
      "k = (set_attrs (changes n ?as) m)\<lparr>mtime := t\<rparr>" "w_rows S w1 = (w_rows S w)(i \<mapsto> k)" "db_up S w1"
      "w_svc w1 = w_svc w" "w_prov w1 = w_prov w"
    by (rule stale_update [OF laws db row])
  have w1: "queue_ok S w1" "redis_up S w1"
    using ok redis upd(5) by (simp_all add: queue_ok_def clock_ok_def redis_up_def)
  obtain z w' where enq: "on_svc (enqueue (srv_redis S) i (priority n)) w1 = (z, w')"
    by (cases "on_svc (enqueue (srv_redis S) i (priority n)) w1")
  note eff = world_enqueue [OF laws w1(1) prio enq] and eff_up = world_enqueue_up [OF laws w1(1) prio w1(2) enq]
  have run: "co_run (co_ignore (retry_first S i n)) w = (Inr (), w')"
    using upd(1) enq eff_up
    by (simp add: co_ignore_def retry_first_def co_run_simps io_bind_def io_return_def del: status_value.simps)
  have "status k = status_value PENDING" "retry_count k = retry_count n + 1" "external_id k = external_id m"
    using upd(2) st by simp_all
  with upd(3,6) eff eff_up run show thesis by (intro that [of w' k]) simp_all
qed

lemma overtaken:
  assumes g: "co_ignore (co_retry_notification S i) = Awaits g" "g w = (rest, w1)"
    and turn: "co_run (co_worker_turn S providers) w1 = (Inr (), w2)" and last: "co_run rest w2 = (Inr (), w')"
  shows "(pool_step (handler_task S providers) (outside_step S))\<^sup>*\<^sup>*
    ([], w) ([Finished (Inr ()), Finished (Inr ())], w')"
proof -
  let ?step = "pool_step (handler_task S providers) (outside_step S)"
  let ?turn = "co_worker_turn S providers"
  have "?step\<^sup>*\<^sup>* ([], w) ([Awaits g], w)"
    using handler_spawned [OF handler_task.manual_retry, of S providers "outside_step S" "[]" w i] g(1) by simp
  also have "?step\<^sup>*\<^sup>* \<dots> ([Awaits g, ?turn], w)"
    using handler_spawned [OF handler_task.turn, of S providers "outside_step S" "[Awaits g]" w] by simp
  also have "?step\<^sup>*\<^sup>* \<dots> ([rest, ?turn], w1)"
    using pool_step.resumed [of 0 "[Awaits g, ?turn]" g w rest w1] g(2) by (simp add: r_into_rtranclp)
  also have "?step\<^sup>*\<^sup>* \<dots> ([rest, Finished (Inr ())], w2)"
    using pool_run [of 1 "[rest, ?turn]" ?turn w1 "Inr ()" w2] turn by (simp add: co_run_simps)
  also have "?step\<^sup>*\<^sup>* \<dots> ([Finished (Inr ()), Finished (Inr ())], w')"
    using pool_run [of 0 "[rest, Finished (Inr ())]" rest w2 "Inr ()" w'] last by simp
  finally show ?thesis .
qed

text \<open>C19. A race: a manual retry reads a row that failed or is retrying, a worker sends it before the request
  writes, and the request goes on: it sets the row back to pending and queues it again, although it
  refuses a row that is sent. The recipient has the notification, and the next turn sends it once more.\<close>

theorem manual_retry_races_worker:
  assumes laws: "services_laws S" and up: "all_up S w" and entries: "w_entries S w = (i, sc) # rest"
    and inv: "life_inv (w_rows S w)" and row: "w_rows S w i = Some n" "retry_count n < 2 ^ 31 - 1"
    and st: "status n = status_value FAILED \<or> status n = status_value RETRYING"
    and prov: "channel n = channel_value c" "providers c = Some provider" "provider_ok provider"
    and ans: "provider_answers provider n (w_prov w) True r p'" "pr_success r"
  shows "\<exists>m w'. (pool_step (handler_task S providers) (outside_step S))\<^sup>*\<^sup>*
      ([], w) ([Finished (Inr ()), Finished (Inr ())], w') \<and>
    w_prov w' = p' \<and> w_rows S w' = (w_rows S w)(i \<mapsto> m) \<and> external_id m = pr_external_id r \<and>
    status m = status_value PENDING \<and> retry_count m = retry_count n + 1 \<and> i \<in> fst ` set (w_entries S w')"
proof -
  let ?rest = "co_ignore (retry_first S i n)"
  obtain x w1 where get: "on_db (get_by_id (srv_pg S) i) w = (x, w1)"
    by (cases "on_db (get_by_id (srv_pg S) i) w")
  note f = on_db_get_cases [OF laws get]
  from life_inv_row [OF inv row(1)] have n: "row_inv n" "nid n = i" by simp_all
  from up f(5) row(1) have x: "x = Inr (Some n)" and w1: "db_up S w1" "redis_ready S w1" "w_entries S w1 = w_entries S w"
    "clock_ok w1" using f(2) by (simp_all add: all_up_def queue_ok_def redis_ready_def redis_up_def clock_ok_def)
  from st have st': "status n \<noteq> status_value SENT" "status n \<noteq> status_value QUEUED" "status n \<noteq> status_value PENDING"
    by auto
  from retry_reads_first [OF get [unfolded x] st'(1,2)] obtain g where
    g: "co_ignore (co_retry_notification S i) = Awaits g" "g w = (?rest, w1)" by blast
  obtain m w2 where turn: "worker_turn S providers w1 = (Inr (), w2)" "db_up S w2" "redis_ready S w2"
    "clock_ok w2" "w_rows S w2 = (w_rows S w)(i \<mapsto> m)" "decided (decide True r (retry_count n)) n m" "w_prov w2 = p'"
    using turn_dispatches [where providers = providers and w = w1, OF laws w1(1,2) _ _ n prov]
      f(1,3) w1(3,4) entries row(1) ans(1) by (metis (full_types))
  have "table_ok (w_rows S w1)" using inv f(1) by (simp add: life_inv_def)
  from co_worker_turn_run [OF laws this, of providers] turn(1)
  have turn': "co_run (co_worker_turn S providers) w1 = (Inr (), w2)" by (simp add: same_run_def)
  have m: "storable m" "external_id m = pr_external_id r" "- 1 \<le> retry_count n"
    using turn(6) n(1) ans by (auto simp: decide_def row_inv_def row_progress_def storable_def provider_answers_def
        split: option.splits)
  have "all_up S w2" using turn(2-4) by (simp add: all_up_def redis_ready_def queue_ok_def)
  moreover have "w_rows S w2 i = Some m" using turn(5) by simp
  ultimately obtain k w' where last: "co_run ?rest w2 = (Inr (), w')"
    "w_rows S w' = (w_rows S w2)(i \<mapsto> k)" "status k = status_value PENDING" "retry_count k = retry_count n + 1"
    "external_id k = external_id m" "w_prov w' = w_prov w2" "i \<in> fst ` set (w_entries S w')"
    using row_inv_priority [OF n(1)] m(1,3) row(2) st'(3) by (blast intro: retry_finishes [OF laws])
  from turn(5) last(2) have "w_rows S w' = (w_rows S w)(i \<mapsto> k)" by simp
  moreover have "(pool_step (handler_task S providers) (outside_step S))\<^sup>*\<^sup>*
      ([], w) ([Finished (Inr ()), Finished (Inr ())], w')"
    by (rule overtaken [OF g turn' last(1)])
  ultimately show ?thesis using last(3-7) turn(7) m(2) by (intro exI [of _ k] exI [of _ w']) simp
qed

definition retrying_row :: notification where
  "retrying_row = (row_with RETRYING 1)\<lparr>error_code := Some (error_value TIMEOUT)\<rparr>"

definition retrying_queued :: ref_world where
  "retrying_queued = (world_with retrying_row)\<lparr>w_svc := w_svc one_queued\<rparr>"

lemma retrying_queued_facts:
  "all_up ref_services retrying_queued" "w_entries ref_services retrying_queued = (1, 5) # []"
  "life_inv (w_rows ref_services retrying_queued)" "w_rows ref_services retrying_queued 1 = Some retrying_row"
proof -
  have "db_up ref_services retrying_queued"
    using world_with_up(1) [of retrying_row] by (simp add: retrying_queued_def db_up_def)
  then show "all_up ref_services retrying_queued" "w_entries ref_services retrying_queued = (1, 5) # []"
    using one_queued_facts(1,2)
    by (simp_all add: all_up_def redis_up_def queue_ok_def clock_ok_def retrying_queued_def)
  have "row_progress retrying_row"
    unfolding row_progress_def
    by (auto simp: retrying_row_def status_enum.value_inject row_with_def sample_row_def RETRYABLE_ERROR_CODES_def
        simp del: status_value.simps error_value.simps)
  moreover have "row_origin retrying_row" using row_with_origin [of RETRYING 1] by (simp add: retrying_row_def row_origin_def)
  moreover have "storable retrying_row" using row_with_storable [of 1 RETRYING] by (simp add: retrying_row_def storable_def)
  ultimately have "row_inv retrying_row" by (simp add: row_inv_def)
  from one_row_life_inv [OF this] show "life_inv (w_rows ref_services retrying_queued)"
    "w_rows ref_services retrying_queued 1 = Some retrying_row"
    by (simp_all add: retrying_queued_def retrying_row_def)
qed

theorem manual_retry_races_worker_witness:
  "\<exists>m w'. (pool_step (handler_task ref_services (sms_only good_provider)) (outside_step ref_services))\<^sup>*\<^sup>*
      ([], retrying_queued) ([Finished (Inr ()), Finished (Inr ())], w') \<and>
    w_rows ref_services w' 1 = Some m \<and> status m = status_value PENDING \<and> external_id m \<noteq> None \<and>
    1 \<in> fst ` set (w_entries ref_services w')"
proof -
  have st: "status retrying_row = status_value FAILED \<or> status retrying_row = status_value RETRYING"
    and row: "retry_count retrying_row < 2 ^ 31 - 1" "channel retrying_row = channel_value SMS"
    by (simp_all add: retrying_row_def)
  from manual_retry_races_worker [where providers = "sms_only good_provider" and c = SMS,
      OF ref_services_laws retrying_queued_facts row(1) st row(2) sms_only_simps(1) const_providers_ok(1)
        const_providers_answer(1)]
  show ?thesis by (fastforce simp: ok_result_def sent_result_def image_iff)
qed

end
