(* ===== verification/Http_Api.thy ===== *)
theory Http_Api
  imports Notification_System
begin

text \<open>
  The HTTP surface as a client sees it: the application object of \<open>app/main.py\<close> with its routes,
  and the way of a request from its method and path through the parsing of its parameters and its
  body to a route of \<open>Controller\<close>. How FastAPI picks a route is Starlette's documented matching;
  the text forms of an integer Pydantic takes are the parameter \<open>parse_int\<close>.
\<close>

section \<open>Paths\<close>

fun split_on :: "char \<Rightarrow> string \<Rightarrow> string list" where
  "split_on c [] = [[]]"
| "split_on c (x # xs) =
     (if x = c then [] # split_on c xs
      else (case split_on c xs of [] \<Rightarrow> [[x]] | s # ss \<Rightarrow> (x # s) # ss))"

text \<open>The segments of a path \<open>/a/b\<close>, and the path of given segments.\<close>

definition path_segments :: "string \<Rightarrow> string list" where
  "path_segments p = (case p of [] \<Rightarrow> [] | c # rest \<Rightarrow> if c = CHR ''/'' then split_on (CHR ''/'') rest else [])"

definition path_of :: "string list \<Rightarrow> string" where
  "path_of segs = concat (map (\<lambda>s. ''/'' @ s) segs)"

lemma split_on_not_Nil [simp]: "split_on c xs \<noteq> []"
  by (cases xs) (auto split: list.splits)

lemma split_on_segment: "c \<notin> set s \<Longrightarrow> split_on c s = [s]"
  by (induction s) auto

lemma split_on_append: "c \<notin> set s \<Longrightarrow> split_on c (s @ c # rest) = s # split_on c rest"
  by (induction s) auto

lemma path_segments_of:
  assumes "segs \<noteq> []" "\<forall>s \<in> set segs. CHR ''/'' \<notin> set s"
  shows "path_segments (path_of segs) = segs"
proof -
  have "split_on (CHR ''/'') (s @ path_of ss) = s # ss" if "CHR ''/'' \<notin> set s" "\<forall>s \<in> set ss. CHR ''/'' \<notin> set s"
    for s ss
    using that
    by (induction ss arbitrary: s) (simp_all add: path_of_def split_on_segment split_on_append)
  with assms show ?thesis by (cases segs) (simp_all add: path_segments_def path_of_def)
qed

section \<open>Routes\<close>

text \<open>A segment of a route's path: fixed text or a parameter, which matches any text without a slash.\<close>

datatype segment = Fixed string | Parameter

datatype endpoint =
    Create_notification
  | Get_notification
  | List_notifications
  | Retry_notification
  | Health
  | Health_providers
  | Metrics
  | Documentation

type_synonym route = "string \<times> segment list \<times> endpoint"

text \<open>\<open>router\<close>, with its prefix, in the order of the decorators.\<close>

definition notification_routes :: "route list" where
  "notification_routes =
     [(''POST'', [Fixed ''notifications''], Create_notification),
      (''GET'', [Fixed ''notifications'', Parameter], Get_notification),
      (''GET'', [Fixed ''notifications''], List_notifications),
      (''POST'', [Fixed ''notifications'', Parameter, Fixed ''retry''], Retry_notification)]"

text \<open>The routes \<open>FastAPI(...)\<close> itself registers, with the answer to HEAD of a plain Starlette route.\<close>

definition documentation_routes :: "route list" where
  "documentation_routes =
     [(m, p, Documentation). p \<leftarrow> [[Fixed ''openapi.json''], [Fixed ''docs''],
        [Fixed ''docs'', Fixed ''oauth2-redirect''], [Fixed ''redoc'']], m \<leftarrow> [''GET'', ''HEAD'']]"

definition app_routes :: "route list" where
  "app_routes =
     documentation_routes @ notification_routes @
     [(''GET'', [Fixed ''health''], Health),
      (''GET'', [Fixed ''health'', Fixed ''providers''], Health_providers),
      (''GET'', [Fixed ''metrics''], Metrics)]"

fun match_segments :: "segment list \<Rightarrow> string list \<Rightarrow> string list option" where
  "match_segments [] [] = Some []"
| "match_segments (Fixed f # ps) (s # ss) = (if s = f then match_segments ps ss else None)"
| "match_segments (Parameter # ps) (s # ss) = (if s = [] then None else map_option ((#) s) (match_segments ps ss))"
| "match_segments _ _ = None"

text \<open>The first route that matches method and path, with the parameters.\<close>

fun find_route :: "route list \<Rightarrow> string \<Rightarrow> string list \<Rightarrow> (endpoint \<times> string list) option" where
  "find_route [] meth ss = None"
| "find_route ((m, ps, e) # rs) meth ss =
     (case match_segments ps ss of
        None \<Rightarrow> find_route rs meth ss
      | Some xs \<Rightarrow> if m = meth then Some (e, xs) else find_route rs meth ss)"

definition path_known :: "route list \<Rightarrow> string \<Rightarrow> bool" where
  "path_known rs p = list_ex (\<lambda>(m, ps, e). match_segments ps (path_segments p) \<noteq> None) rs"

datatype resolution = Found endpoint "string list" | Wrong_method | Redirect string | Unrouted

text \<open>
  Without a full match a path that another method knows is refused, and one that is known without its
  trailing slashes, or with one more, is redirected there.
\<close>

definition without_slashes :: "string \<Rightarrow> string" where
  "without_slashes p = rev (dropWhile (\<lambda>c. c = CHR ''/'') (rev p))"

definition resolve :: "route list \<Rightarrow> string \<Rightarrow> string \<Rightarrow> resolution" where
  "resolve rs meth p =
     (case find_route rs meth (path_segments p) of
        Some (e, xs) \<Rightarrow> Found e xs
      | None \<Rightarrow>
          if path_known rs p then Wrong_method
          else
            let other = (if p \<noteq> [] \<and> last p = CHR ''/'' then without_slashes p else p @ ''/'') in
            if p \<noteq> ''/'' \<and> path_known rs other then Redirect other else Unrouted)"

section \<open>Requests\<close>

text \<open>\<open>rq_json\<close> is what reading the body as JSON gives: a value, or what it raises, a \<open>JSONDecodeError\<close> or
  any other exception (of bytes that are not UTF-8, say). A body that is absent or not declared as JSON
  is no object, like \<open>JNull\<close>.\<close>

record http_request =
  rq_method :: string
  rq_path :: string
  rq_query :: "(string \<times> string) list"
  rq_json :: "py_exn + json"

text \<open>A repeated query parameter has its last value.\<close>

definition query_value :: "http_request \<Rightarrow> string \<Rightarrow> string option" where
  "query_value rq k = map_of (rev (rq_query rq)) k"

definition query_int :: "(string \<Rightarrow> int option) \<Rightarrow> http_request \<Rightarrow> string \<Rightarrow> py_exn + int option" where
  "query_int parse_int rq k =
     (case query_value rq k of
        None \<Rightarrow> Inr None
      | Some s \<Rightarrow> (case parse_int s of None \<Rightarrow> Inl ValueError | Some i \<Rightarrow> Inr (Some i)))"

text \<open>The body as \<open>NotificationCreate\<close>: the fields of an object, \<open>priority\<close> with its default.\<close>

definition create_body :: "json \<Rightarrow> py_exn + notification_create" where
  "create_body body =
     (case dict_field body of Inl e \<Rightarrow> Inl e | Inr kvs \<Rightarrow>
      case (map_of kvs ''idempotency_key'', map_of kvs ''source_service'', map_of kvs ''event_type'',
            map_of kvs ''recipient'', map_of kvs ''content'') of
        (Some key, Some src, Some ev, Some rcpt, Some cont) \<Rightarrow>
          (case recipient_info_of_json rcpt of
             Inl e \<Rightarrow> Inl e
           | Inr r \<Rightarrow>
               notification_create_of_json key src ev
                 (case map_of kvs ''priority'' of None \<Rightarrow> JStr ''medium'' | Some j \<Rightarrow> j) r cont)
      | _ \<Rightarrow> Inl ValueError)"

section \<open>Serving\<close>

definition unprocessable :: response where
  "unprocessable = \<lparr>http_status = 422, http_body = Unprocessable\<rparr>"

text \<open>What FastAPI answers when reading the body raises anything but a \<open>JSONDecodeError\<close>.\<close>

definition unreadable :: response where
  "unreadable = \<lparr>http_status = 400, http_body = Error_text ''There was an error parsing the body''\<rparr>"

definition create_endpoint ::
  "('d, 'r, 'q) services \<Rightarrow> http_request \<Rightarrow> (('d, 'r, 'q, 'p) world, response) io"
where
  "create_endpoint S rq =
     (case rq_json rq of
        Inl e \<Rightarrow> io_return (if e = JSONDecodeError then unprocessable else unreadable)
      | Inr j \<Rightarrow> post_notification S (create_body j))"

definition with_id ::
  "(string \<Rightarrow> int option) \<Rightarrow> string list \<Rightarrow> (int \<Rightarrow> ('s, response) io) \<Rightarrow> ('s, response) io"
where
  "with_id parse_int xs f =
     (case xs of [s] \<Rightarrow> (case parse_int s of None \<Rightarrow> io_return unprocessable | Some i \<Rightarrow> f i)
      | _ \<Rightarrow> io_return unprocessable)"

definition list_endpoint ::
  "('d, 'r, 'q) services \<Rightarrow> (string \<Rightarrow> int option) \<Rightarrow> http_request \<Rightarrow> (('d, 'r, 'q, 'p) world, response) io"
where
  "list_endpoint S parse_int rq =
     (case (query_int parse_int rq ''limit'', query_int parse_int rq ''offset'') of
        (Inr limit, Inr offset) \<Rightarrow>
          list_route S (query_value rq ''status'') (query_value rq ''channel'')
            (query_value rq ''source_service'') (query_value rq ''event_type'') limit offset
      | _ \<Rightarrow> io_return unprocessable)"

definition run_endpoint ::
  "('d, 'r, 'q) services \<Rightarrow> (notification_channel \<Rightarrow> 'p provider option) \<Rightarrow> (string \<Rightarrow> int option) \<Rightarrow>
   http_request \<Rightarrow> endpoint \<Rightarrow> string list \<Rightarrow> (('d, 'r, 'q, 'p) world, response) io"
where
  "run_endpoint S providers parse_int rq e xs =
     (case e of
        Create_notification \<Rightarrow> create_endpoint S rq
      | Get_notification \<Rightarrow> with_id parse_int xs (get_notification_route S)
      | List_notifications \<Rightarrow> list_endpoint S parse_int rq
      | Retry_notification \<Rightarrow> with_id parse_int xs (retry_route S)
      | Health \<Rightarrow> health_route
      | Health_providers \<Rightarrow> health_providers_route providers
      | Metrics \<Rightarrow> metrics_route S
      | Documentation \<Rightarrow> io_return \<lparr>http_status = 200, http_body = Library_page\<rparr>)"

definition serve ::
  "('d, 'r, 'q) services \<Rightarrow> (notification_channel \<Rightarrow> 'p provider option) \<Rightarrow> (string \<Rightarrow> int option) \<Rightarrow>
   http_request \<Rightarrow> (('d, 'r, 'q, 'p) world, response) io"
where
  "serve S providers parse_int rq =
     (case resolve app_routes (rq_method rq) (rq_path rq) of
        Found e xs \<Rightarrow> run_endpoint S providers parse_int rq e xs
      | Wrong_method \<Rightarrow> io_return \<lparr>http_status = 405, http_body = Error_text ''Method Not Allowed''\<rparr>
      | Redirect p \<Rightarrow> io_return \<lparr>http_status = 307, http_body = Redirect_to p\<rparr>
      | Unrouted \<Rightarrow> io_return \<lparr>http_status = 404, http_body = Error_text ''Not Found''\<rparr>)"

text \<open>A request to retry the row \<open>i\<close> by hand.\<close>

definition retries_row :: "(string \<Rightarrow> int option) \<Rightarrow> http_request \<Rightarrow> int \<Rightarrow> bool" where
  "retries_row parse_int rq i \<longleftrightarrow>
     (\<exists>s. resolve app_routes (rq_method rq) (rq_path rq) = Found Retry_notification [s] \<and> parse_int s = Some i)"

section \<open>Every request is answered\<close>

text \<open>The statuses each endpoint can answer with, its own and those of FastAPI and of the two exception
  handlers, and those of the application without a route.\<close>

fun endpoint_statuses :: "endpoint \<Rightarrow> int set" where
  "endpoint_statuses Create_notification = {201, 400, 409, 422, 500}"
| "endpoint_statuses Get_notification = {200, 404, 422, 500}"
| "endpoint_statuses List_notifications = {200, 422, 500}"
| "endpoint_statuses Retry_notification = {200, 400, 422, 500}"
| "endpoint_statuses Health = {200}"
| "endpoint_statuses Health_providers = {200, 422, 500}"
| "endpoint_statuses Metrics = {200}"
| "endpoint_statuses Documentation = {200}"

fun statuses :: "resolution \<Rightarrow> int set" where
  "statuses (Found e xs) = endpoint_statuses e"
| "statuses Wrong_method = {405}"
| "statuses (Redirect p) = {307}"
| "statuses Unrouted = {404}"

text \<open>A handler that answers, with one of the given statuses.\<close>

definition answers :: "int set \<Rightarrow> ('s, response) io \<Rightarrow> bool" where
  "answers T m \<longleftrightarrow> (\<forall>w. \<exists>r w'. m w = (Inr r, w') \<and> http_status r \<in> T)"

lemma answers_return: "http_status r \<in> T \<Longrightarrow> answers T (io_return r)"
  by (simp add: answers_def io_return_def)

lemma answers_with_handlers:
  assumes "\<And>w r w'. m w = (Inr r, w') \<Longrightarrow> http_status r \<in> T" "422 \<in> T" "500 \<in> T"
  shows "answers T (with_handlers m)"
  unfolding answers_def
proof
  fix w
  from with_handlers_returns [of m w] obtain r w' where run: "with_handlers m w = (Inr r, w')" by blast
  then have "http_status r \<in> T"
    by (cases rule: with_handlers_cases)
      (simp_all add: value_error_handler_def generic_error_handler_def assms)
  with run show "\<exists>r w'. with_handlers m w = (Inr r, w') \<and> http_status r \<in> T" by blast
qed

lemma answers_mono: "answers T m \<Longrightarrow> T \<subseteq> T' \<Longrightarrow> answers T' m"
  unfolding answers_def by blast

lemma answers_if: "(b \<Longrightarrow> answers T m) \<Longrightarrow> (\<not> b \<Longrightarrow> answers T k) \<Longrightarrow> answers T (if b then m else k)"
  by simp

lemma answers_with_id: "(\<And>i. answers T (f i)) \<Longrightarrow> 422 \<in> T \<Longrightarrow> answers T (with_id parse_int xs f)"
  by (auto simp: with_id_def unprocessable_def intro!: answers_return split: list.split option.split)

lemma post_notification_answers: "answers {201, 409, 422, 500} (post_notification S parsed)"
proof (cases parsed)
  case (Inr p)
  have "answers {201, 409, 422, 500} (with_handlers
      (io_bind (create_notification S p) (\<lambda>(notifications, is_duplicate).
       if is_duplicate
       then io_return \<lparr>http_status = 409, http_body = Duplicate_of (req_idempotency_key p)\<rparr>
       else io_return \<lparr>http_status = 201, http_body = Created
         \<lparr>cr_idempotency_key = req_idempotency_key p, cr_event_type = req_event_type p,
          cr_notifications = map channel_status_convert notifications\<rparr>\<rparr>)))"
    by (rule answers_with_handlers) (auto elim!: io_bind_cases simp: io_return_run split: prod.splits if_splits)
  then show ?thesis by (simp add: Inr post_notification_def)
qed (simp add: post_notification_def answers_return)

lemma create_endpoint_answers: "answers {201, 400, 409, 422, 500} (create_endpoint S rq)"
proof (cases "rq_json rq")
  case (Inl e)
  then show ?thesis by (simp add: create_endpoint_def answers_return unprocessable_def unreadable_def)
next
  case (Inr j)
  have "answers {201, 400, 409, 422, 500} (post_notification S (create_body j))"
    by (rule answers_mono [OF post_notification_answers]) blast
  with Inr show ?thesis by (simp add: create_endpoint_def)
qed

text \<open>What a body that is no valid payload is answered.\<close>

lemma create_endpoint_body:
  assumes "create_endpoint S rq w = (Inr r, w')"
  shows "rq_json rq = Inl e \<Longrightarrow> http_status r = (if e = JSONDecodeError then 422 else 400) \<and> w' = w"
    and "rq_json rq = Inr j \<Longrightarrow> create_body j = Inl e \<Longrightarrow> http_status r = 422 \<and> w' = w"
    and "rq_json rq = Inr j \<Longrightarrow> http_status r \<noteq> 400"
proof -
  show "http_status r = (if e = JSONDecodeError then 422 else 400) \<and> w' = w" if "rq_json rq = Inl e"
    using assms that by (auto simp: create_endpoint_def unprocessable_def unreadable_def io_return_run)
  show "http_status r = 422 \<and> w' = w" if "rq_json rq = Inr j" "create_body j = Inl e"
    using assms that by (auto simp: create_endpoint_def post_notification_def io_return_run)
  show "http_status r \<noteq> 400" if "rq_json rq = Inr j"
    using assms that post_notification_answers [of S "create_body j", unfolded answers_def, rule_format, of w]
    by (auto simp: create_endpoint_def)
qed

lemma get_notification_answers: "answers {200, 404, 422, 500} (get_notification_route S i)"
  unfolding get_notification_route_def
  by (rule answers_with_handlers)
    (auto elim!: io_bind_cases simp: io_return_run io_of_run detail_response_def split: option.splits json.splits)

lemma list_route_answers: "answers {200, 422, 500} (list_route S st ch src ev limit offset)"
proof -
  have "answers {200, 422, 500} (with_handlers
      (io_bind (list_notifications S st ch src ev k j) (\<lambda>ns.
       io_return \<lparr>http_status = 200, http_body = Listing (map list_convert ns)\<rparr>)))" for k j
    by (rule answers_with_handlers) (auto elim!: io_bind_cases simp: io_return_run)
  then show ?thesis unfolding list_route_def Let_def by (intro answers_if answers_return) simp_all
qed

lemma retry_route_answers: "answers {200, 400, 422, 500} (retry_route S i)"
  unfolding retry_route_def
  by (rule answers_with_handlers)
    (auto elim!: io_bind_cases simp: io_return_run io_raise_run split: prod.splits if_splits option.splits)

lemma health_providers_answers: "answers {200, 422, 500} (health_providers_route providers)"
  unfolding health_providers_route_def
  by (rule answers_with_handlers)
    (auto elim!: io_bind_cases simp: io_return_run)

lemma queue_depth_returns: "\<exists>k s'. queue_depth R s = (Inr k, s')"
  by (cases "on_redis (r_zcard R QUEUE_KEY) s" rule: prod.exhaust [case_names run])
    (auto simp: queue_depth_def io_try_def io_return_def split: sum.split)

lemma metrics_answers: "answers {200} (metrics_route S)"
  unfolding answers_def
proof
  fix w :: "('a, 'b, 'c, 'd) world"
  obtain k s where "queue_depth (srv_redis S) (w_svc w) = (Inr k, s)" using queue_depth_returns by blast
  then show "\<exists>r w'. metrics_route S w = (Inr r, w') \<and> http_status r \<in> {200}"
    by (simp add: metrics_route_def with_handlers_def io_try_def io_bind_def io_return_def on_svc_run)
qed

lemma run_endpoint_answers:
  "answers (endpoint_statuses e) (run_endpoint S providers parse_int rq e xs)"
proof (cases e)
  case List_notifications
  then show ?thesis
    using list_route_answers
    by (auto simp: run_endpoint_def list_endpoint_def unprocessable_def intro!: answers_return split: sum.split)
qed (simp_all add: run_endpoint_def create_endpoint_answers answers_with_id get_notification_answers
    retry_route_answers health_route_def answers_return health_providers_answers metrics_answers)

lemma serve_answers: "answers (statuses (resolve app_routes (rq_method rq) (rq_path rq))) (serve S providers parse_int rq)"
  unfolding serve_def
  by (cases "resolve app_routes (rq_method rq) (rq_path rq)") (simp_all add: run_endpoint_answers answers_return)

section \<open>What a request may change\<close>

text \<open>A body that is accepted is the outcome of the validators.\<close>

lemma create_body_init:
  "create_body j = Inr p \<Longrightarrow> \<exists>q. notification_create_init q = Inr p"
  by (auto simp: create_body_def notification_create_of_json_def split: sum.splits option.splits)

text \<open>What a request that only reads leaves as it is.\<close>

definition same_data ::
  "('d, 'r, 'q) services \<Rightarrow> ('d, 'r, 'q, 'p) world \<Rightarrow> ('d, 'r, 'q, 'p) world \<Rightarrow> bool"
where
  "same_data S w w' \<longleftrightarrow> w_rows S w' = w_rows S w \<and> w_entries S w' = w_entries S w \<and> w_kv S w' = w_kv S w \<and>
     svc_amqp (w_svc w') = svc_amqp (w_svc w) \<and> (queue_ok S w \<longrightarrow> queue_ok S w')"

interpretation data: io_preorder "same_data S" for S
  by unfold_locales (auto simp: same_data_def)

lemma same_dataI: "w_rows S w' = w_rows S w \<Longrightarrow> w_svc w' = w_svc w \<Longrightarrow> same_data S w w'"
  by (simp add: same_data_def queue_ok_def clock_ok_def)

lemma data_with_handlers: "evolves (same_data S) m \<Longrightarrow> evolves (same_data S) (with_handlers m)"
  unfolding with_handlers_def by (intro data.evolves_try data.evolves_return)

lemma get_notification_data:
  assumes "services_laws S"
  shows "evolves (same_data S) (get_notification_route S i)"
  unfolding get_notification_route_def get_notification_def
  by (intro data_with_handlers data.evolves_bind evolves_case_option data.evolves_return data.evolves_of evolvesI)
    (rule same_dataI; erule on_db_get_cases [OF assms])

lemma list_notifications_svc:
  fixes S :: "('d, 'r, 'q) services"
  shows "evolves (same (w_svc :: ('d, 'r, 'q, 'p) world \<Rightarrow> _)) (list_notifications S st ch src ev k j)"
proof -
  have "evolves (same (w_svc :: ('d, 'r, 'q, 'p) world \<Rightarrow> _)) (on_db m)" for m :: "('d, notification list) io"
    by (auto simp: evolves_def same_def on_db_def io_zoom_def split: prod.splits)
  then show ?thesis
    unfolding list_notifications_def by (intro unchanged.evolves_bind unchanged.evolves_of)
qed

lemma list_route_data:
  assumes "services_laws S"
  shows "evolves (same_data S) (list_route S st ch src ev limit offset)"
proof -
  have "evolves (same_data S) (list_notifications S st ch src ev k j)" for k j
    using evolvesD [OF list_notifications_reads [OF assms]] evolvesD [OF list_notifications_svc]
    by (intro evolvesI same_dataI) (auto simp: same_def)
  then show ?thesis
    unfolding list_route_def Let_def
    by (intro evolves_if data_with_handlers data.evolves_bind data.evolves_return)
qed

lemma queue_depth_zset:
  assumes "redis_laws R" "queue_depth R s = (x, s')"
  shows "r_zset R (svc_redis s') = r_zset R (svc_redis s) \<and> r_kv R (svc_redis s') = r_kv R (svc_redis s) \<and>
    svc_amqp s' = svc_amqp s \<and> svc_host s' = svc_host s"
proof -
  obtain y r where card: "r_zcard R QUEUE_KEY (svc_redis s) = (y, r)" by (cases "r_zcard R QUEUE_KEY (svc_redis s)")
  then have "s' = s\<lparr>svc_redis := r\<rparr>"
    using assms(2) by (auto simp: queue_depth_def io_try_def on_redis_def io_zoom_def io_return_def split: sum.splits)
  moreover have "r_kv R r = r_kv R (svc_redis s)" "r_zset R r = r_zset R (svc_redis s)"
    using assms(1) card by (simp_all add: redis_laws_def redis_zset_laws_def)
  ultimately show ?thesis by simp
qed

lemma metrics_data:
  fixes S :: "('d, 'r, 'q) services"
  assumes "services_laws S"
  shows "evolves (same_data S) (metrics_route S :: (('d, 'r, 'q, 'p) world, response) io)"
proof -
  have "evolves (same_data S) (on_svc (queue_depth (srv_redis S)) :: (('d, 'r, 'q, 'p) world, int) io)"
  proof (rule evolvesI)
    fix w w' :: "('d, 'r, 'q, 'p) world" and x
    assume "on_svc (queue_depth (srv_redis S)) w = (x, w')"
    then obtain s where s: "queue_depth (srv_redis S) (w_svc w) = (x, s)" "w' = w\<lparr>w_svc := s\<rparr>" by (rule on_svc_cases)
    from queue_depth_zset [OF services_laws_parts(2) [OF assms] s(1)] s(2) show "same_data S w w'"
      by (simp add: same_data_def queue_entries_def queue_ok_def queue_ids_ok_def clock_ok_def)
  qed
  then show ?thesis
    unfolding metrics_route_def by (intro data_with_handlers data.evolves_bind data.evolves_return)
qed

lemma provider_up_data: "evolves (same_data S) (provider_up providers c)"
proof -
  have "evolves (same_data S) (on_prov m)" for m :: "('p, 'x) io"
    by (auto simp: evolves_def same_data_def on_prov_def io_zoom_def queue_ok_def clock_ok_def split: prod.splits)
  then show ?thesis
    unfolding provider_up_def by (intro evolves_case_option data.evolves_bind data.evolves_return data.evolves_raise)
qed

lemma health_providers_data: "evolves (same_data S) (health_providers_route providers)"
  unfolding health_providers_route_def
  by (intro data_with_handlers data.evolves_bind provider_up_data data.evolves_return)

lemma with_id_evolves:
  "(\<And>i. evolves R (f i)) \<Longrightarrow> evolves R (io_return unprocessable) \<Longrightarrow> evolves R (with_id parse_int xs f)"
  by (auto simp: with_id_def split: list.split option.split)

lemma list_endpoint_data:
  assumes "services_laws S"
  shows "evolves (same_data S) (list_endpoint S parse_int rq)"
  using list_route_data [OF assms] data.evolves_return by (auto simp: list_endpoint_def split: sum.split)

definition reads_only :: "endpoint \<Rightarrow> bool" where
  "reads_only e \<longleftrightarrow> e \<noteq> Create_notification \<and> e \<noteq> Retry_notification"

lemma run_endpoint_data:
  assumes "services_laws S" "reads_only e"
  shows "evolves (same_data S) (run_endpoint S providers parse_int rq e xs)"
proof (cases e)
  case Get_notification
  then show ?thesis
    by (simp add: run_endpoint_def with_id_evolves get_notification_data [OF assms(1)] data.evolves_return)
qed (use assms(2) in \<open>simp_all add: run_endpoint_def reads_only_def health_route_def health_providers_data
    data.evolves_return list_endpoint_data [OF assms(1)] metrics_data [OF assms(1)]\<close>)

section \<open>Routing\<close>

lemma find_route_member:
  "find_route rs m ss = Some (e, xs) \<Longrightarrow> \<exists>ps. (m, ps, e) \<in> set rs \<and> match_segments ps ss = Some xs"
  by (induction rs m ss rule: find_route.induct) (auto split: option.splits if_splits)

text \<open>The path of a route with its parameters, the inverse of matching.\<close>

fun fill_segments :: "segment list \<Rightarrow> string list \<Rightarrow> string list" where
  "fill_segments (Fixed f # ps) xs = f # fill_segments ps xs"
| "fill_segments (Parameter # ps) (x # xs) = x # fill_segments ps xs"
| "fill_segments _ _ = []"

definition proper_parameters :: "segment list \<Rightarrow> string list \<Rightarrow> bool" where
  "proper_parameters ps xs \<longleftrightarrow> length xs = length (filter (\<lambda>s. s = Parameter) ps) \<and>
     (\<forall>x \<in> set xs. x \<noteq> [] \<and> CHR ''/'' \<notin> set x)"

lemma match_fill: "match_segments ps ss = Some xs \<Longrightarrow> fill_segments ps xs = ss"
  by (induction ps ss arbitrary: xs rule: match_segments.induct) (auto split: if_splits)

lemma fill_match: "proper_parameters ps xs \<Longrightarrow> match_segments ps (fill_segments ps xs) = Some xs"
  by (induction ps xs rule: fill_segments.induct) (auto simp: proper_parameters_def)

definition without_slash :: "segment \<Rightarrow> bool" where
  "without_slash s = (case s of Fixed f \<Rightarrow> CHR ''/'' \<notin> set f | Parameter \<Rightarrow> True)"

lemma fill_segments_slash:
  "list_all without_slash ps \<Longrightarrow> \<forall>x \<in> set xs. CHR ''/'' \<notin> set x \<Longrightarrow>
   \<forall>s \<in> set (fill_segments ps xs). CHR ''/'' \<notin> set s"
  by (induction ps xs rule: fill_segments.induct) (auto simp: without_slash_def)

text \<open>Two routes overlap when some path matches both; no two of one method do, so none shadows another.\<close>

fun overlap :: "segment list \<Rightarrow> segment list \<Rightarrow> bool" where
  "overlap [] [] = True"
| "overlap (Fixed f # ps) (Fixed g # qs) = (f = g \<and> overlap ps qs)"
| "overlap (Fixed f # ps) (Parameter # qs) = overlap ps qs"
| "overlap (Parameter # ps) (q # qs) = overlap ps qs"
| "overlap _ _ = False"

lemma match_overlap:
  "match_segments ps ss = Some xs \<Longrightarrow> match_segments qs ss = Some ys \<Longrightarrow> overlap ps qs"
proof (induction ps qs arbitrary: ss xs ys rule: overlap.induct)
  case (2 f ps g qs)
  then show ?case by (cases ss) (auto split: if_splits)
next
  case (3 f ps qs)
  then show ?case by (cases ss) (auto split: if_splits)
next
  case (4 ps q qs)
  then show ?case by (cases ss; cases q) (auto split: if_splits)
qed (auto elim: match_segments.elims)

definition unambiguous :: "route list \<Rightarrow> bool" where
  "unambiguous rs \<longleftrightarrow> sorted_wrt (\<lambda>(m, ps, e) (m', ps', e'). m = m' \<longrightarrow> \<not> overlap ps ps') rs"

lemma find_route_unambiguous:
  assumes "unambiguous rs" "(m, ps, e) \<in> set rs" "match_segments ps ss = Some xs"
  shows "find_route rs m ss = Some (e, xs)"
  using assms
proof (induction rs)
  case (Cons r rs)
  obtain m' ps' e' where r: "r = (m', ps', e')" by (cases r)
  show ?case
  proof (cases "r = (m, ps, e)")
    case True
    with Cons.prems(3) show ?thesis by simp
  next
    case False
    with Cons.prems r have "(m, ps, e) \<in> set rs" "m' = m \<longrightarrow> \<not> overlap ps' ps" by (auto simp: unambiguous_def)
    moreover from this(2) match_overlap [OF _ Cons.prems(3)] have "m' = m \<longrightarrow> match_segments ps' ss = None"
      by (cases "match_segments ps' ss") auto
    ultimately show ?thesis
      using Cons.IH Cons.prems r by (auto simp: unambiguous_def split: option.split)
  qed
qed simp

text \<open>The table of the application, by evaluation.\<close>

lemma app_routes_table:
  "unambiguous app_routes"
  "list_all (\<lambda>(m, ps, e). ps \<noteq> [] \<and> list_all without_slash ps) app_routes"
  "list_all (\<lambda>(m, ps, e). m = ''GET'' \<longrightarrow> reads_only e) app_routes"
  by code_simp+

lemma get_reads_only: "find_route app_routes ''GET'' ss = Some (e, xs) \<Longrightarrow> reads_only e"
  using app_routes_table(3) by (auto simp: list_all_iff dest!: find_route_member)

lemma resolve_filled:
  assumes route: "(m, ps, e) \<in> set app_routes" and xs: "proper_parameters ps xs"
  shows "resolve app_routes m (path_of (fill_segments ps xs)) = Found e xs"
proof -
  note match = fill_match [OF xs]
  have "ps \<noteq> []" "list_all without_slash ps" using app_routes_table(2) route by (auto simp: list_all_iff)
  moreover from xs have "\<forall>x \<in> set xs. CHR ''/'' \<notin> set x" by (simp add: proper_parameters_def)
  moreover have "fill_segments ps xs \<noteq> []" using match \<open>ps \<noteq> []\<close> by (cases ps) auto
  ultimately have "path_segments (path_of (fill_segments ps xs)) = fill_segments ps xs"
    by (intro path_segments_of fill_segments_slash)
  with find_route_unambiguous [OF app_routes_table(1) route match] show ?thesis by (simp add: resolve_def)
qed

lemma resolve_found:
  assumes "resolve rs m p = Found e xs"
  shows "\<exists>ps. (m, ps, e) \<in> set rs \<and> path_segments p = fill_segments ps xs"
  using assms match_fill
  by (fastforce simp: resolve_def Let_def split: option.splits if_splits prod.splits dest!: find_route_member)

lemma serve_get_data:
  assumes "services_laws S" "rq_method rq = ''GET''"
  shows "evolves (same_data S) (serve S providers parse_int rq)"
proof (cases "resolve app_routes (rq_method rq) (rq_path rq)")
  case (Found e xs)
  then have "find_route app_routes ''GET'' (path_segments (rq_path rq)) = Some (e, xs)"
    using assms(2) by (auto simp: resolve_def Let_def split: option.splits if_splits prod.splits)
  with Found run_endpoint_data [OF assms(1) get_reads_only] show ?thesis by (simp add: serve_def)
qed (simp_all add: serve_def data.evolves_return)

section \<open>Bodies and messages\<close>

text \<open>The same JSON is accepted as the body of a request and as the body of a message.\<close>

lemma bodies_agree: "create_body j = Inr p \<longleftrightarrow> payload_of_body j = Inr p"
  by (cases j) (auto simp: create_body_def payload_of_body_def split: option.split sum.split)

end
