(* ===== verification/Http_Effects.thy ===== *)
theory Http_Effects
  imports Http_Api Worker_Liveness "HOL-Library.Sublist"
begin

text \<open>
  What a request may do, stated over the rows, the queue and the keys alone: the specification
  \<open>request_effect\<close>, which \<open>serve\<close> is proved to implement.
\<close>

section \<open>The specification\<close>

text \<open>Rows \<open>ns\<close> under fresh ids are added to the table, and the queue gains no other id and loses none.\<close>

definition rows_added ::
  "('d, 'r, 'q) services \<Rightarrow> notification list \<Rightarrow> ('d, 'r, 'q, 'p) world \<Rightarrow> ('d, 'r, 'q, 'p) world \<Rightarrow> bool"
where
  "rows_added S ns w w' \<longleftrightarrow>
     distinct (map nid ns) \<and> (\<forall>n \<in> set ns. w_rows S w (nid n) = None) \<and>
     w_rows S w' = w_rows S w ++ map_of (map (\<lambda>n. (nid n, n)) ns) \<and>
     fst ` set (w_entries S w) \<subseteq> fst ` set (w_entries S w') \<and>
     fst ` set (w_entries S w') \<subseteq> fst ` set (w_entries S w) \<union> nid ` set ns"

text \<open>A creation: under a key that is taken nothing but the refusal, otherwise a row for some of the channels
  (all of them, unless something raised or a row is there), in their order, and 201 with just these.\<close>

definition creation_effect ::
  "('d, 'r, 'q) services \<Rightarrow> notification_create \<Rightarrow> response \<Rightarrow>
   ('d, 'r, 'q, 'p) world \<Rightarrow> ('d, 'r, 'q, 'p) world \<Rightarrow> bool"
where
  "creation_effect S p r w w' \<longleftrightarrow>
     (if w_kv S w (redis_idem_key (req_idempotency_key p)) \<noteq> None
      then (http_status r = 409 \<and> http_body r = Duplicate_of (req_idempotency_key p) \<or> http_status r \<in> {422, 500}) \<and>
        w_rows S w' = w_rows S w \<and> w_entries S w' = w_entries S w
      else \<exists>src ev prio cs ns. validated p src ev prio \<and> subseq cs (event_channels ev) \<and>
        list_all2 (created_row p src ev prio) cs ns \<and> rows_added S ns w w' \<and>
        (http_status r = 201 \<and> w_kv S w' (redis_idem_key (req_idempotency_key p)) \<noteq> None \<and>
           http_body r = Created \<lparr>cr_idempotency_key = req_idempotency_key p, cr_event_type = req_event_type p,
             cr_notifications = map channel_status_convert ns\<rparr> \<or>
         http_status r \<in> {422, 500}))"

text \<open>A manual retry: a row that is missing, sent or queued is refused; another one becomes pending with one
  retry more, and only its id may join the queue.\<close>

definition retried_row :: "notification \<Rightarrow> int option \<Rightarrow> notification" where
  "retried_row n t = n\<lparr>status := status_value PENDING, retry_count := retry_count n + 1, error_code := None,
     next_retry_time := None, mtime := t\<rparr>"

definition retriable :: "notification option \<Rightarrow> bool" where
  "retriable row = (case row of None \<Rightarrow> False
     | Some n \<Rightarrow> status n \<noteq> status_value SENT \<and> status n \<noteq> status_value QUEUED)"

definition retry_effect ::
  "('d, 'r, 'q) services \<Rightarrow> int \<Rightarrow> response \<Rightarrow> ('d, 'r, 'q, 'p) world \<Rightarrow> ('d, 'r, 'q, 'p) world \<Rightarrow> bool"
where
  "retry_effect S i r w w' \<longleftrightarrow>
     (if retriable (w_rows S w i)
      then \<exists>n t. w_rows S w i = Some n \<and>
        (http_status r = 200 \<and> w_rows S w' = (w_rows S w)(i \<mapsto> retried_row n t) \<and>
           http_body r = Retried \<lparr>rr_id = nid n, rr_status = ''pending'', rr_retry_count = retry_count n + 1,
             rr_message = ''Notification requeued successfully''\<rparr> \<or>
         http_status r \<in> {422, 500} \<and> w_rows S w' \<in> {w_rows S w, (w_rows S w)(i \<mapsto> retried_row n t)}) \<and>
        fst ` set (w_entries S w) \<subseteq> fst ` set (w_entries S w') \<and>
        fst ` set (w_entries S w') \<subseteq> insert i (fst ` set (w_entries S w))
      else http_status r \<in> {400, 422, 500} \<and> w_rows S w' = w_rows S w \<and> w_entries S w' = w_entries S w)"

definition request_effect ::
  "('d, 'r, 'q) services \<Rightarrow> (string \<Rightarrow> int option) \<Rightarrow> http_request \<Rightarrow> response \<Rightarrow>
   ('d, 'r, 'q, 'p) world \<Rightarrow> ('d, 'r, 'q, 'p) world \<Rightarrow> bool"
where
  "request_effect S parse_int rq r w w' \<longleftrightarrow>
     (case resolve app_routes (rq_method rq) (rq_path rq) of
        Found Create_notification _ \<Rightarrow>
          (case rq_json rq of
             Inl _ \<Rightarrow> http_status r \<in> {400, 422} \<and> w' = w
           | Inr j \<Rightarrow> (case create_body j of
               Inl _ \<Rightarrow> http_status r = 422 \<and> w' = w
             | Inr p \<Rightarrow> creation_effect S p r w w'))
      | Found Retry_notification xs \<Rightarrow>
          (case map_option parse_int (if length xs = 1 then Some (hd xs) else None) of
             Some (Some i) \<Rightarrow> retry_effect S i r w w'
           | _ \<Rightarrow> http_status r = 422 \<and> w' = w)
      | _ \<Rightarrow> same_data S w w')"

section \<open>Creation\<close>

text \<open>A SELECT checks no constraint.\<close>

definition refresh_checks_nothing :: "'d pg \<Rightarrow> bool" where
  "refresh_checks_nothing P \<longleftrightarrow> (\<forall>i d. fst (pg_refresh P i d) \<noteq> Inl IntegrityError)"

lemma rows_added_none:
  "w_rows S w' = w_rows S w \<Longrightarrow> w_entries S w' = w_entries S w \<Longrightarrow> rows_added S [] w w'"
  by (simp add: rows_added_def)

lemma rows_added_trans:
  assumes "rows_added S ms u v" "rows_added S ns v w"
  shows "rows_added S (ms @ ns) u w"
proof -
  from assms(1) have m: "distinct (map nid ms)" "\<forall>n \<in> set ms. w_rows S u (nid n) = None"
    "w_rows S v = w_rows S u ++ map_of (map (\<lambda>n. (nid n, n)) ms)" by (simp_all add: rows_added_def)
  from assms(2) have n: "distinct (map nid ns)" "\<forall>n \<in> set ns. w_rows S v (nid n) = None"
    "w_rows S w = w_rows S v ++ map_of (map (\<lambda>n. (nid n, n)) ns)" by (simp_all add: rows_added_def)
  let ?m = "map_of (map (\<lambda>n. (nid n, n)) ms)" and ?n = "map_of (map (\<lambda>n. (nid n, n)) ns)"
  have dom: "dom ?m = nid ` set ms" "dom ?n = nid ` set ns" by (auto simp: dom_map_of_conv_image_fst image_image)
  have fresh: "w_rows S u (nid k) = None \<and> ?m (nid k) = None" if "k \<in> set ns" for k
    using n(2) that m(3) by (auto simp: map_add_None)
  with dom have disj: "nid ` set ms \<inter> nid ` set ns = {}" by (force simp: domIff)
  then have comm: "?m ++ ?n = ?n ++ ?m" by (intro map_add_comm) (simp add: dom)
  have "w_rows S w = w_rows S u ++ (?m ++ ?n)" using m(3) n(3) by simp
  then have "w_rows S w = w_rows S u ++ map_of (map (\<lambda>n. (nid n, n)) (ms @ ns))"
    by (simp only: comm map_append map_of_append)
  moreover have "fst ` set (w_entries S u) \<subseteq> fst ` set (w_entries S w)"
    "fst ` set (w_entries S w) \<subseteq> fst ` set (w_entries S u) \<union> nid ` set (ms @ ns)"
  proof -
    from assms(1) have 1: "fst ` set (w_entries S u) \<subseteq> fst ` set (w_entries S v)"
      "fst ` set (w_entries S v) \<subseteq> fst ` set (w_entries S u) \<union> nid ` set ms" by (simp_all add: rows_added_def)
    from assms(2) have 2: "fst ` set (w_entries S v) \<subseteq> fst ` set (w_entries S w)"
      "fst ` set (w_entries S w) \<subseteq> fst ` set (w_entries S v) \<union> nid ` set ns" by (simp_all add: rows_added_def)
    show "fst ` set (w_entries S u) \<subseteq> fst ` set (w_entries S w)" by (rule subset_trans [OF 1(1) 2(1)])
    show "fst ` set (w_entries S w) \<subseteq> fst ` set (w_entries S u) \<union> nid ` set (ms @ ns)"
      using subset_trans [OF 2(2) Un_mono [OF 1(2) subset_refl]] by (simp add: image_Un Un_assoc)
  qed
  moreover have "distinct (map nid (ms @ ns))" "\<forall>n \<in> set (ms @ ns). w_rows S u (nid n) = None"
    using m(1,2) n(1) disj fresh by auto
  ultimately show ?thesis unfolding rows_added_def by blast
qed

lemma inserted_row:
  assumes "inserted (request_args p src ev prio c) i (w_rows S w) (w_rows S w')"
  obtains n where "created_row p src ev prio c n" "w_rows S w (nid n) = None" "w_rows S w' = (w_rows S w)(nid n \<mapsto> n)"
    "nid n = i"
proof -
  from assms obtain now r where n: "a_recipient (request_args p src ev prio c) = Some r" "w_rows S w i = None"
    "w_rows S w' = (w_rows S w)(i \<mapsto> row_of_args i now r (request_args p src ev prio c))"
    unfolding inserted_def by blast
  show thesis
    by (rule that [of "row_of_args i now r (request_args p src ev prio c)"]) (use n in \<open>auto simp: created_row_def\<close>)
qed

lemma create_row_cases:
  assumes laws: "services_laws S" "refresh_checks_nothing (srv_pg S)"
    and run: "on_db (repository_create (srv_pg S) (request_args p src ev prio c)) w = (x, w')"
  obtains (absent) e where "x = Inl e" "w_rows S w' = w_rows S w" "w_svc w' = w_svc w"
    | (stored) n where "created_row p src ev prio c n" "w_rows S w (nid n) = None" "w_rows S w' = (w_rows S w)(nid n \<mapsto> n)"
      "w_svc w' = w_svc w" "x = Inr n \<or> (\<exists>e. x = Inl e \<and> e \<noteq> IntegrityError)"
proof -
  note pg = services_laws_parts(1) [OF laws(1)]
  let ?a = "request_args p src ev prio c"
  from run obtain d where create: "repository_create (srv_pg S) ?a (w_db w) = (x, d)" and w': "w' = w\<lparr>w_db := d\<rparr>"
    by (rule on_db_cases)
  from create show thesis
    unfolding repository_create_def
  proof (cases rule: io_bind_cases)
    case (raised e)
    from pg_insert_law(2) [OF pg raised(1)] consider "pg_rows (srv_pg S) d = w_rows S w"
      | i where "e \<noteq> IntegrityError" "inserted ?a i (w_rows S w) (w_rows S w')" by (auto simp: w')
    then show thesis
    proof cases
      case 1
      with raised(2) show thesis by (intro absent) (simp_all add: w')
    next
      case 2
      from inserted_row [OF 2(2)] raised(2) 2(1) show thesis by (metis stored w' world.select_convs(2) world.surjective world.update_convs(1))
    qed
  next
    case (returned i d1)
    from pg_insert_law(1) [OF pg returned(1)] pg_read_law(3) [OF pg returned(2)]
    have "inserted ?a i (w_rows S w) (w_rows S w')" "\<And>n. x = Inr n \<Longrightarrow> w_rows S w' i = Some n" by (simp_all add: w')
    from inserted_row [OF this(1)] this(2) obtain n where n: "created_row p src ev prio c n" "w_rows S w (nid n) = None"
      "w_rows S w' = (w_rows S w)(nid n \<mapsto> n)" "\<And>m. x = Inr m \<Longrightarrow> m = n" by (metis fun_upd_same option.inject)
    moreover have "x \<noteq> Inl IntegrityError" using laws(2) returned(2) by (auto simp: refresh_checks_nothing_def dest: arg_cong [of _ _ fst])
    ultimately show thesis by (intro stored [of n]) (cases x; auto simp: w')+
  qed
qed

lemma create_one_effect:
  assumes laws: "services_laws S" "refresh_checks_nothing (srv_pg S)"
    and p: "validated p src ev prio" "c \<in> set (event_channels ev)" and ok: "queue_ok S w"
    and run: "create_one S p c acc w = (x, w')"
  obtains ns where "ns = [] \<or> (\<exists>n. ns = [n] \<and> created_row p src ev prio c n)" "rows_added S ns w w'"
    "\<forall>acc'. x = Inr acc' \<longrightarrow> acc' = acc @ ns" "queue_ok S w'" "w_kv S w' = w_kv S w"
proof -
  let ?create = "on_db (repository_create (srv_pg S) (request_args p src ev prio c))"
  obtain y w1 where create: "?create w = (y, w1)" by (cases "?create w")
  show thesis
  proof (cases rule: create_row_cases [OF laws create, case_names absent stored])
    case (absent e)
    obtain z w2 where undo: "on_db (pg_rollback (srv_pg S)) w1 = (z, w2)"
      by (cases "on_db (pg_rollback (srv_pg S)) w1")
    then have w2: "w_rows S w2 = w_rows S w" "w_svc w2 = w_svc w"
      using absent(2,3) pg_read_law(5) [OF services_laws_parts(1) [OF laws(1)]] by (auto elim!: on_db_cases)
    from run create absent(1) undo have "w' = w1 \<or> w' = w2" "\<And>acc'. x = Inr acc' \<Longrightarrow> acc' = acc"
      by (auto simp: create_one_def channel_args_validated [OF p] io_try_def io_bind_def io_return_def io_raise_def
          split: if_splits sum.splits)
    with absent(2,3) w2 ok show thesis
      by (intro that [of "[]"]) (auto intro!: rows_added_none simp: queue_ok_def clock_ok_def)
  next
    case (stored n)
    note prio = created_row_priority [OF stored(1), THEN conjunct1] created_row_priority [OF stored(1), THEN conjunct2]
    from ok stored(4) have ok1: "queue_ok S w1" by (simp add: queue_ok_def clock_ok_def)
    obtain b w2 where enq: "on_svc (enqueue (srv_redis S) (nid n) (priority n)) w1 = (b, w2)"
      by (cases "on_svc (enqueue (srv_redis S) (nid n) (priority n)) w1")
    note eff = world_enqueue [OF laws(1) ok1 prio enq]
    have "w' = w1 \<or> w' = w2" "\<And>acc'. x = Inr acc' \<Longrightarrow> acc' = acc @ [n]"
      using run create stored(5) enq eff
      by (auto simp: create_one_def channel_args_validated [OF p] io_try_def io_bind_def io_return_def io_raise_def
          split: if_splits sum.splits)
    moreover have "rows_added S [n] w w1"
      using stored(2,3,4) by (auto simp: rows_added_def)
    moreover have "rows_added S [n] w w2"
      using stored(2,3,4) eff by (auto simp: rows_added_def)
    moreover have "queue_ok S w2" "w_kv S w2 = w_kv S w" "w_kv S w1 = w_kv S w" using eff stored(4) by simp_all
    ultimately show thesis using ok1 stored(1) by (intro that [of "[n]"]) auto
  qed
qed

text \<open>The loop: rows for some of the channels, in their order.\<close>

lemma foreach_create_effect:
  assumes laws: "services_laws S" "refresh_checks_nothing (srv_pg S)" and p: "validated p src ev prio"
  shows "set cs \<subseteq> set (event_channels ev) \<Longrightarrow> queue_ok S w \<Longrightarrow>
    io_foreach (create_one S p) cs acc w = (x, w') \<Longrightarrow>
    \<exists>bs ns. subseq bs cs \<and> list_all2 (created_row p src ev prio) bs ns \<and> rows_added S ns w w' \<and>
      (\<forall>acc'. x = Inr acc' \<longrightarrow> acc' = acc @ ns) \<and> w_kv S w' = w_kv S w"
proof (induction cs arbitrary: acc w)
  case Nil
  then show ?case by (intro exI [of _ "[]"]) (auto simp: io_return_run rows_added_none)
next
  case (Cons c cs)
  from Cons.prems(1) have c: "c \<in> set (event_channels ev)" "set cs \<subseteq> set (event_channels ev)" by simp_all
  obtain y w1 where one: "create_one S p c acc w = (y, w1)" by (cases "create_one S p c acc w")
  obtain ms where ms: "ms = [] \<or> (\<exists>n. ms = [n] \<and> created_row p src ev prio c n)" "rows_added S ms w w1"
    "\<forall>acc'. y = Inr acc' \<longrightarrow> acc' = acc @ ms" "queue_ok S w1" "w_kv S w1 = w_kv S w"
    by (rule create_one_effect [OF laws p c(1) Cons.prems(2) one])
  from ms(1) obtain as where as: "list_all2 (created_row p src ev prio) as ms" "as = [] \<or> as = [c]"
    by (metis list_all2_Nil list_all2_Cons)
  show ?case
  proof (cases y)
    case (Inl e)
    with one Cons.prems(3) have "x = Inl e" "w' = w1" by (simp_all add: io_bind_def)
    with as ms(2,5) show ?thesis by (intro exI [of _ as] exI [of _ ms]) auto
  next
    case (Inr acc1)
    with one Cons.prems(3) ms(3) have "io_foreach (create_one S p) cs (acc @ ms) w1 = (x, w')"
      by (simp add: io_bind_def)
    from Cons.IH [OF c(2) ms(4) this] obtain bs ns where rest: "subseq bs cs"
      "list_all2 (created_row p src ev prio) bs ns" "rows_added S ns w1 w'"
      "\<forall>acc'. x = Inr acc' \<longrightarrow> acc' = (acc @ ms) @ ns" "w_kv S w' = w_kv S w1" by blast
    show ?thesis
      using as rest ms(5) rows_added_trans [OF ms(2) rest(3)] list_all2_appendI [OF as(1) rest(2)]
      by (intro exI [of _ "as @ bs"] exI [of _ "ms @ ns"]) auto
  qed
qed

text \<open>The outcome of the whole operation from those of its three parts.\<close>

lemma create_notification_shape:
  fixes w :: "('d, 'r, 'q, 'p) world"
  assumes p: "validated p src ev prio"
  defines "k \<equiv> redis_idem_key (req_idempotency_key p)"
  assumes setnx: "on_client (r_setnx (srv_redis S) k ''1'') w = (y, w1)"
    and expire: "on_client (r_expire (srv_redis S) k IDEMPOTENCY_EXPIRY) w1 = (z, w2)"
    and loop: "io_foreach (create_one S p) (event_channels ev) [] w2 = (v, w3)"
  shows "create_notification S p w = (case y of Inl e \<Rightarrow> (Inl e, w1) | Inr b \<Rightarrow>
      if \<not> b then (Inr ([], True), w1)
      else (case z of Inl e \<Rightarrow> (Inl e, w2) | Inr u \<Rightarrow>
        (case v of Inl e \<Rightarrow> (Inl e, w3) | Inr ns \<Rightarrow> (Inr (ns, False), w3))))"
proof -
  let ?rest = "io_bind (io_foreach (create_one S p) (event_channels ev) []) (\<lambda>ns. io_return (ns, False))"
  let ?expire = "io_bind (on_client (r_expire (srv_redis S) k IDEMPOTENCY_EXPIRY)) (\<lambda>_. ?rest)"
  let ?body = "\<lambda>is_new. if \<not> is_new then io_return ([], True) else ?expire"
  have rest: "?rest w2 = (case v of Inl e \<Rightarrow> (Inl e, w3) | Inr ns \<Rightarrow> (Inr (ns, False), w3))"
    using loop by (cases v; subst io_bind_def) (simp_all add: io_return_run)
  have body: "?expire w1 = (case z of Inl e \<Rightarrow> (Inl e, w2) | Inr _ \<Rightarrow> ?rest w2)"
    using expire by (cases z; subst io_bind_def) simp_all
  have "create_notification S p w = io_bind (on_client (r_setnx (srv_redis S) k ''1'')) ?body w"
    unfolding create_notification_def Let_def validated_as_int(4) [OF p] k_def io_of_simps io_return_bind ..
  also have "\<dots> = (case y of Inl e \<Rightarrow> (Inl e, w1) | Inr b \<Rightarrow> ?body b w1)"
    using setnx by (cases y; subst io_bind_def) simp_all
  finally show ?thesis using rest body by (cases y; cases z) (simp_all add: io_return_run)
qed

lemma create_notification_effect:
  assumes laws: "services_laws S" "refresh_checks_nothing (srv_pg S)" and p: "validated p src ev prio"
    and ok: "queue_ok S w" and run: "create_notification S p w = (x, w')"
  defines "k \<equiv> redis_idem_key (req_idempotency_key p)"
  shows "w_kv S w k \<noteq> None \<Longrightarrow> w_rows S w' = w_rows S w \<and> w_entries S w' = w_entries S w \<and>
      (x = Inr ([], True) \<or> (\<exists>e. x = Inl e))"
    and "w_kv S w k = None \<Longrightarrow> \<exists>bs ns. subseq bs (event_channels ev) \<and>
      list_all2 (created_row p src ev prio) bs ns \<and> rows_added S ns w w' \<and>
      (x = Inr (ns, False) \<and> w_kv S w' k \<noteq> None \<or> (\<exists>e. x = Inl e))"
proof -
  obtain y w1 where setnx: "on_client (r_setnx (srv_redis S) k ''1'') w = (y, w1)"
    by (cases "on_client (r_setnx (srv_redis S) k ''1'') w")
  obtain z w2 where expire: "on_client (r_expire (srv_redis S) k IDEMPOTENCY_EXPIRY) w1 = (z, w2)"
    by (cases "on_client (r_expire (srv_redis S) k IDEMPOTENCY_EXPIRY) w1")
  obtain v w3 where loop: "io_foreach (create_one S p) (event_channels ev) [] w2 = (v, w3)"
    by (cases "io_foreach (create_one S p) (event_channels ev) [] w2")
  have pos: "0 < IDEMPOTENCY_EXPIRY" by (simp add: IDEMPOTENCY_EXPIRY_def)
  note f1 = client_setnx [OF laws(1) setnx] and f2 = client_expire [OF laws(1) expire pos]
  from f1(1) have w1: "w_rows S w1 = w_rows S w" "w_entries S w1 = w_entries S w" "queue_ok S w1"
    using ok by (simp_all add: client_frame_def)
  with f2(1) have w2: "w_rows S w2 = w_rows S w" "w_entries S w2 = w_entries S w" "queue_ok S w2"
    by (simp_all add: client_frame_def)
  note run' = run [unfolded create_notification_shape
      [OF p setnx [unfolded k_def] expire [unfolded k_def] loop]]
  show "w_rows S w' = w_rows S w \<and> w_entries S w' = w_entries S w \<and> (x = Inr ([], True) \<or> (\<exists>e. x = Inl e))"
    if "w_kv S w k \<noteq> None"
  proof -
    from f1(2) [of True] that have "y \<noteq> Inr True" by auto
    with run' w1 show ?thesis by (cases y) auto
  qed
  show "\<exists>bs ns. subseq bs (event_channels ev) \<and> list_all2 (created_row p src ev prio) bs ns \<and> rows_added S ns w w' \<and>
      (x = Inr (ns, False) \<and> w_kv S w' k \<noteq> None \<or> (\<exists>e. x = Inl e))" if new: "w_kv S w k = None"
  proof (cases "y = Inr True \<and> z = Inr ()")
    case False
    from f1(2) [of False] new have "y \<noteq> Inr False" by auto
    with False run' have "(w' = w1 \<or> w' = w2) \<and> (\<exists>e. x = Inl e)" by (cases y; cases z) auto
    with w1 w2 show ?thesis by (intro exI [of _ "[]"]) (auto simp: rows_added_none)
  next
    case True
    with f1(2) f2(2) new have kv: "w_kv S w2 k \<noteq> None" by simp
    from True run' have res: "w' = w3" "x = (case v of Inl e \<Rightarrow> Inl e | Inr ns \<Rightarrow> Inr (ns, False))"
      by (auto split: sum.splits)
    from foreach_create_effect [OF laws p subset_refl w2(3) loop] obtain bs ns where
      all: "subseq bs (event_channels ev)" "list_all2 (created_row p src ev prio) bs ns" "rows_added S ns w2 w3"
        "\<forall>acc'. v = Inr acc' \<longrightarrow> acc' = ns" "w_kv S w3 = w_kv S w2" by auto
    from all(3) w2 have "rows_added S ns w w3" by (simp add: rows_added_def)
    with all res kv show ?thesis by (intro exI [of _ bs] exI [of _ ns]) (cases v; simp)
  qed
qed

lemma post_notification_effect:
  assumes laws: "services_laws S" "refresh_checks_nothing (srv_pg S)" and p: "validated p src ev prio"
    and ok: "queue_ok S w" and run: "post_notification S (Inr p) w = (Inr r, w')"
  shows "creation_effect S p r w w'"
proof -
  let ?created = "\<lambda>ns. \<lparr>http_status = 201, http_body = Created \<lparr>cr_idempotency_key = req_idempotency_key p,
    cr_event_type = req_event_type p, cr_notifications = map channel_status_convert ns\<rparr>\<rparr>"
  let ?duplicate = "\<lparr>http_status = 409, http_body = Duplicate_of (req_idempotency_key p)\<rparr>"
  from run obtain x where create: "create_notification S p w = (x, w')"
    and res: "(\<exists>ns. x = Inr (ns, True)) \<and> r = ?duplicate \<or> (\<exists>ns. x = Inr (ns, False) \<and> r = ?created ns) \<or>
      (\<exists>e. x = Inl e) \<and> http_status r \<in> {422, 500}"
    unfolding post_notification_def sum.case
    by (cases rule: with_handlers_cases)
      (auto elim!: io_bind_cases simp: io_return_run value_error_handler_def generic_error_handler_def
        split: prod.splits if_splits)
  note effect = create_notification_effect [OF laws p ok create]
  show ?thesis
  proof (cases "w_kv S w (redis_idem_key (req_idempotency_key p)) = None")
    case False
    from effect(1) [OF False] res False show ?thesis by (auto simp: creation_effect_def)
  next
    case True
    from effect(2) [OF True] obtain bs ns where all: "subseq bs (event_channels ev)"
      "list_all2 (created_row p src ev prio) bs ns" "rows_added S ns w w'"
      "x = Inr (ns, False) \<and> w_kv S w' (redis_idem_key (req_idempotency_key p)) \<noteq> None \<or> (\<exists>e. x = Inl e)"
      by blast
    from all(4) res have "http_status r = 201 \<and> w_kv S w' (redis_idem_key (req_idempotency_key p)) \<noteq> None \<and>
        http_body r = http_body (?created ns) \<or> http_status r \<in> {422, 500}" by auto
    with all(1-3) p True show ?thesis
      unfolding creation_effect_def
      by (simp only: True simp_thms if_True if_False HOL.not_not response.select_convs) blast
  qed
qed

section \<open>Manual retry\<close>

lemma requeue_update_cases:
  assumes laws: "services_laws S" and row: "w_rows S w i = Some n"
    and upd: "on_db (update_status (srv_pg S) i PENDING (requeue_attrs n)) w = (u, w')"
  obtains t where "w_svc w' = w_svc w"
    "u = Inr (Some (retried_row n t)) \<and> w_rows S w' = (w_rows S w)(i \<mapsto> retried_row n t) \<or>
     (\<exists>e. u = Inl e) \<and> w_rows S w' \<in> {w_rows S w, (w_rows S w)(i \<mapsto> retried_row n t)}"
proof -
  note pg = services_laws_parts(1) [OF laws]
  note f = on_db_update_cases [OF laws upd]
  from upd obtain d where d: "update_status (srv_pg S) i PENDING (requeue_attrs n) (w_db w) = (u, d)"
    and w': "w' = w\<lparr>w_db := d\<rparr>" by (rule on_db_cases)
  show thesis
  proof (cases u)
    case (Inl e)
    with f(1,3) row show thesis by (auto simp: updated_def retried_row_def intro: that)
  next
    case (Inr row')
    with f(5) row obtain m where m: "u = Inr (Some m)" by (cases row') auto
    from repo.set_then_row [OF pg d [unfolded m]] row obtain t where "m = retried_row n t"
      "pg_rows (srv_pg S) d = (w_rows S w)(i \<mapsto> m)" by (auto simp: retried_row_def)
    with m show thesis by (intro that [of t]) (simp_all add: w')
  qed
qed

lemma retry_notification_refused_effect:
  assumes laws: "services_laws S" and run: "retry_notification S i w = (x, w')" and no: "\<not> retriable (w_rows S w i)"
  shows "w_rows S w' = w_rows S w" "w_entries S w' = w_entries S w"
    "(\<exists>err. x = Inr (None, err) \<and> err \<noteq> []) \<or> (\<exists>e. x = Inl e)"
proof -
  obtain y w1 where get: "on_db (get_by_id (srv_pg S) i) w = (y, w1)" by (cases "on_db (get_by_id (srv_pg S) i) w")
  note g = on_db_get_cases [OF laws get]
  from run get g(4) no have "w' = w1 \<and> ((\<exists>err. x = Inr (None, err) \<and> err \<noteq> []) \<or> (\<exists>e. x = Inl e))"
    by (cases y) (auto simp: retry_notification_def io_bind_def io_return_def retriable_def
        split: option.splits if_splits)
  with g(1,2) show "w_rows S w' = w_rows S w" "w_entries S w' = w_entries S w"
    "(\<exists>err. x = Inr (None, err) \<and> err \<noteq> []) \<or> (\<exists>e. x = Inl e)" by simp_all
qed

lemma retry_notification_accepted_effect:
  assumes laws: "services_laws S" and ok: "queue_ok S w" and inv: "life_inv (w_rows S w)"
    and run: "retry_notification S i w = (x, w')"
    and row: "w_rows S w i = Some n" and st: "status n \<noteq> status_value SENT" "status n \<noteq> status_value QUEUED"
  obtains t where "x = Inr (Some (retried_row n t), []) \<and> w_rows S w' = (w_rows S w)(i \<mapsto> retried_row n t) \<or>
       (\<exists>e. x = Inl e) \<and> w_rows S w' \<in> {w_rows S w, (w_rows S w)(i \<mapsto> retried_row n t)}"
    "fst ` set (w_entries S w) \<subseteq> fst ` set (w_entries S w')"
    "fst ` set (w_entries S w') \<subseteq> insert i (fst ` set (w_entries S w))"
proof -
  obtain y w1 where get: "on_db (get_by_id (srv_pg S) i) w = (y, w1)" by (cases "on_db (get_by_id (srv_pg S) i) w")
  note g = on_db_get_cases [OF laws get]
  from life_inv_row [OF inv row] have prio: "1 \<le> priority n" "priority n \<le> 4" using row_inv_priority by blast+
  let ?upd = "on_db (update_status (srv_pg S) i PENDING (requeue_attrs n))"
  obtain u w2 where upd: "?upd w1 = (u, w2)" by (cases "?upd w1")
  from row g(1) have row1: "w_rows S w1 i = Some n" by simp
  obtain t where t: "w_svc w2 = w_svc w1"
    "u = Inr (Some (retried_row n t)) \<and> w_rows S w2 = (w_rows S w1)(i \<mapsto> retried_row n t) \<or>
     (\<exists>e. u = Inl e) \<and> w_rows S w2 \<in> {w_rows S w1, (w_rows S w1)(i \<mapsto> retried_row n t)}"
    by (rule requeue_update_cases [OF laws row1 upd])
  obtain b w3 where enq: "on_svc (enqueue (srv_redis S) i (priority n)) w2 = (b, w3)"
    by (cases "on_svc (enqueue (srv_redis S) i (priority n)) w2")
  from ok t(1) g(2) have ok2: "queue_ok S w2" by (simp add: queue_ok_def clock_ok_def)
  note eff = world_enqueue [OF laws ok2 prio enq]
  have rows3: "w_rows S w3 = w_rows S w2" using eff by simp
  have queue: "w_entries S w1 = w_entries S w" "w_entries S w2 = w_entries S w" using t(1) g(2) by simp_all
  have queue3: "fst ` set (w_entries S w) \<subseteq> fst ` set (w_entries S w3)"
    "fst ` set (w_entries S w3) \<subseteq> insert i (fst ` set (w_entries S w))" using eff queue(2) by auto
  from eff obtain b' where b: "b = Inr b'" by blast
  consider (got_none) e where "x = Inl e" "w' = w1" | (raised) e where "u = Inl e" "x = Inl e" "w' = w2"
    | (ok) m where "u = Inr m" "x = Inr (m, [])" "w' = w3"
    using run get g(4) row st upd enq b
    by (cases y; cases u) (auto simp: retry_notification_def io_bind_def io_return_def)
  then show thesis
  proof cases
    case got_none
    with g(1) queue(1) show thesis by (intro that [of t]) auto
  next
    case raised
    with t(2) g(1) queue(2) show thesis by (intro that [of t]) auto
  next
    case ok
    with t(2) g(1) rows3 queue3 show thesis by (intro that [of t]) auto
  qed
qed

lemma retry_route_effect:
  assumes laws: "services_laws S" and ok: "queue_ok S w" and inv: "life_inv (w_rows S w)"
    and run: "retry_route S i w = (Inr r, w')"
  shows "retry_effect S i r w w'"
proof -
  from run obtain x where retry: "retry_notification S i w = (x, w')"
    and res: "(\<exists>row err. x = Inr (row, err) \<and> err \<noteq> [] \<and> http_status r = 400) \<or>
      (\<exists>m. x = Inr (Some m, []) \<and> http_status r = 200 \<and> http_body r = Retried \<lparr>rr_id = nid m,
         rr_status = ''pending'', rr_retry_count = retry_count m, rr_message = ''Notification requeued successfully''\<rparr>) \<or>
      x = Inr (None, []) \<or> (\<exists>e. x = Inl e) \<and> http_status r \<in> {422, 500}"
    unfolding retry_route_def
    by (cases rule: with_handlers_cases)
      (auto elim!: io_bind_cases simp: io_return_run io_raise_run value_error_handler_def generic_error_handler_def
        split: prod.splits if_splits option.splits)
  show ?thesis
  proof (cases "retriable (w_rows S w i)")
    case False
    from retry_notification_refused_effect [OF laws retry False] res False show ?thesis
      by (auto simp: retry_effect_def)
  next
    case True
    then obtain n where n: "w_rows S w i = Some n" "status n \<noteq> status_value SENT" "status n \<noteq> status_value QUEUED"
      by (auto simp: retriable_def split: option.splits)
    obtain t where t: "x = Inr (Some (retried_row n t), []) \<and> w_rows S w' = (w_rows S w)(i \<mapsto> retried_row n t) \<or>
       (\<exists>e. x = Inl e) \<and> w_rows S w' \<in> {w_rows S w, (w_rows S w)(i \<mapsto> retried_row n t)}"
      and queue: "fst ` set (w_entries S w) \<subseteq> fst ` set (w_entries S w')"
        "fst ` set (w_entries S w') \<subseteq> insert i (fst ` set (w_entries S w))"
      by (rule retry_notification_accepted_effect [OF laws ok inv retry n])
    from t res have "http_status r = 200 \<and> w_rows S w' = (w_rows S w)(i \<mapsto> retried_row n t) \<and>
           http_body r = Retried \<lparr>rr_id = nid n, rr_status = ''pending'', rr_retry_count = retry_count n + 1,
             rr_message = ''Notification requeued successfully''\<rparr> \<or>
         http_status r \<in> {422, 500} \<and> w_rows S w' \<in> {w_rows S w, (w_rows S w)(i \<mapsto> retried_row n t)}"
      by (elim disjE) (auto simp: retried_row_def)
    with n(1) True queue show ?thesis unfolding retry_effect_def by auto
  qed
qed

section \<open>The application\<close>

lemma serve_effect:
  assumes laws: "services_laws S" "refresh_checks_nothing (srv_pg S)"
    and ok: "queue_ok S w" and inv: "life_inv (w_rows S w)"
    and run: "serve S providers parse_int rq w = (Inr r, w')"
  shows "request_effect S parse_int rq r w w'"
proof (cases "resolve app_routes (rq_method rq) (rq_path rq)")
  case (Found e xs)
  with run have go: "run_endpoint S providers parse_int rq e xs w = (Inr r, w')" by (simp add: serve_def)
  show ?thesis
  proof (cases "reads_only e")
    case True
    from evolvesD [OF run_endpoint_data [OF laws(1) True] go] True Found show ?thesis
      by (cases e) (simp_all add: request_effect_def reads_only_def)
  next
    case False
    then consider (create) "e = Create_notification" | (retry) "e = Retry_notification"
      by (auto simp: reads_only_def)
    then show ?thesis
    proof cases
      case create
      with go have post: "create_endpoint S rq w = (Inr r, w')" by (simp add: run_endpoint_def)
      show ?thesis
      proof (cases "\<exists>j p. rq_json rq = Inr j \<and> create_body j = Inr p")
        case True
        then obtain j p where body: "rq_json rq = Inr j" "create_body j = Inr p" by blast
        then obtain src ev prio where p: "validated p src ev prio" using create_body_init init_validated by blast
        from post body have "post_notification S (Inr p) w = (Inr r, w')" by (simp add: create_endpoint_def)
        from post_notification_effect [OF laws p ok this] Found create body show ?thesis
          by (simp add: request_effect_def)
      next
        case no: False
        then show ?thesis
          using post Found create
          by (cases "rq_json rq"; cases "create_body (projr (rq_json rq))")
            (auto simp: request_effect_def create_endpoint_def post_notification_def unprocessable_def
              unreadable_def io_return_run split: if_splits)
      qed
    next
      case retry
      show ?thesis
      proof (cases "\<exists>s i. xs = [s] \<and> parse_int s = Some i")
        case True
        then obtain s i where s: "xs = [s]" "parse_int s = Some i" by blast
        from go retry s have "retry_route S i w = (Inr r, w')" by (simp add: run_endpoint_def with_id_def)
        from retry_route_effect [OF laws(1) ok inv this] Found retry s show ?thesis
          by (simp add: request_effect_def)
      next
        case False
        then have "http_status r = 422 \<and> w' = w"
          using go retry by (auto simp: run_endpoint_def with_id_def unprocessable_def io_return_run
              split: list.splits option.splits)
        with False Found retry show ?thesis
          by (cases xs) (auto simp: request_effect_def split: option.split)
      qed
    qed
  qed
qed (use run in \<open>auto simp: request_effect_def serve_def io_return_run intro: data.reflexive\<close>)

end
