(* ===== verification/Http_Api_Properties.thy ===== *)
theory Http_Api_Properties
  imports Http_Effects Sample_Data
begin

text \<open>
  What a client may rely on: every request is answered, routing finds exactly the route of a path, GET
  changes nothing, and a request changes what its endpoint is for, with the status that says so.
\<close>

section \<open>Answers\<close>

text \<open>C32. Every request is answered, whatever the servers do and wherever they raise: with one of the statuses
  its endpoint can give, or with 404, 405 or a redirect when no route takes it. A creation whose body
  cannot be read is answered 400, and one whose body is no JSON or no valid payload 422, and both change
  nothing.\<close>

theorem every_request_is_answered:
  "\<exists>r w'. serve S providers parse_int rq w = (Inr r, w') \<and>
     http_status r \<in> statuses (resolve app_routes (rq_method rq) (rq_path rq)) \<and>
     (case resolve app_routes (rq_method rq) (rq_path rq) of
        Found Create_notification _ \<Rightarrow>
          (case rq_json rq of
             Inl e \<Rightarrow> http_status r = (if e = JSONDecodeError then 422 else 400) \<and> w' = w
           | Inr j \<Rightarrow> (case create_body j of Inl _ \<Rightarrow> http_status r = 422 \<and> w' = w | Inr _ \<Rightarrow> http_status r \<noteq> 400))
      | _ \<Rightarrow> True)"
proof -
  from serve_answers [of rq S providers parse_int] obtain r w' where
    run: "serve S providers parse_int rq w = (Inr r, w')" "http_status r \<in> statuses (resolve app_routes (rq_method rq) (rq_path rq))"
    unfolding answers_def by blast
  show ?thesis
  proof (cases "\<exists>xs. resolve app_routes (rq_method rq) (rq_path rq) = Found Create_notification xs")
    case True
    with run(1) have "create_endpoint S rq w = (Inr r, w')" by (auto simp: serve_def run_endpoint_def)
    note body = create_endpoint_body [OF this]
    with True run show ?thesis by (auto split: sum.split)
  next
    case False
    with run show ?thesis by (fastforce split: resolution.split endpoint.split)
  qed
qed

section \<open>Routing\<close>

lemma split_on_free: "\<forall>s \<in> set (split_on c xs). c \<notin> set s"
  by (induction xs) (auto split: list.splits)

lemma path_segments_free: "\<forall>s \<in> set (path_segments p). CHR ''/'' \<notin> set s"
  using split_on_free by (auto simp: path_segments_def split: list.splits if_splits)

lemma match_proper:
  "match_segments ps ss = Some xs \<Longrightarrow> \<forall>s \<in> set ss. CHR ''/'' \<notin> set s \<Longrightarrow> proper_parameters ps xs"
  by (induction ps ss arbitrary: xs rule: match_segments.induct)
    (auto simp: proper_parameters_def split: if_splits)

text \<open>C33. Routing is exact: a request reaches an endpoint with some parameters exactly if a route of its
  method has that endpoint and its path is the one filled with these parameters, which are not empty
  and have no slash. So no route shadows another.\<close>

theorem routing_is_exact:
  "resolve app_routes m p = Found e xs \<longleftrightarrow>
     (\<exists>ps. (m, ps, e) \<in> set app_routes \<and> proper_parameters ps xs \<and> path_segments p = fill_segments ps xs)"
proof
  assume "resolve app_routes m p = Found e xs"
  then have "find_route app_routes m (path_segments p) = Some (e, xs)"
    by (auto simp: resolve_def Let_def split: option.splits if_splits prod.splits)
  then obtain ps where ps: "(m, ps, e) \<in> set app_routes" "match_segments ps (path_segments p) = Some xs"
    by (auto dest: find_route_member)
  with match_fill [OF ps(2)] match_proper [OF ps(2) path_segments_free]
  show "\<exists>ps. (m, ps, e) \<in> set app_routes \<and> proper_parameters ps xs \<and> path_segments p = fill_segments ps xs"
    by auto
next
  assume "\<exists>ps. (m, ps, e) \<in> set app_routes \<and> proper_parameters ps xs \<and> path_segments p = fill_segments ps xs"
  then obtain ps where ps: "(m, ps, e) \<in> set app_routes" "proper_parameters ps xs" "path_segments p = fill_segments ps xs"
    by blast
  from find_route_unambiguous [OF app_routes_table(1) ps(1) fill_match [OF ps(2)]] ps(3)
  show "resolve app_routes m p = Found e xs" by (simp add: resolve_def)
qed

section \<open>Requests that read\<close>

text \<open>C34. GET is safe: whatever its path and its outcome, it changes no row, no entry of the queue, no key
  and nothing at the broker.\<close>

theorem get_changes_nothing:
  assumes "services_laws S" "rq_method rq = ''GET''" "serve S providers parse_int rq w = (x, w')"
  shows "w_rows S w' = w_rows S w \<and> w_entries S w' = w_entries S w \<and> w_kv S w' = w_kv S w \<and>
    broker_state w' = broker_state w"
  using evolvesD [OF serve_get_data [OF assms(1,2)] assms(3)] by (simp add: same_data_def broker_state_def)

definition get_metrics :: http_request where
  "get_metrics = \<lparr>rq_method = ''GET'', rq_path = ''/metrics'', rq_query = [], rq_json = Inl JSONDecodeError\<rparr>"

theorem get_changes_nothing_witness:
  "w_entries ref_services (snd (serve ref_services main_providers int_of_str get_metrics one_queued)) = [(1, 5)]"
proof -
  obtain x w' where run: "serve ref_services main_providers int_of_str get_metrics one_queued = (x, w')"
    by (cases "serve ref_services main_providers int_of_str get_metrics one_queued")
  have "rq_method get_metrics = ''GET''" by (simp add: get_metrics_def)
  from get_changes_nothing [OF ref_services_laws this run] run one_queued_facts(1) show ?thesis by simp
qed

section \<open>Requests that write\<close>

text \<open>C7. A request changes what its endpoint is for and nothing else, and its status says what it did. Only
  POST /notifications adds rows: none when the key is taken (409) or the body is refused, otherwise
  pending rows for channels of its event, in their order and under fresh ids, which alone may join the
  queue, and 201 reports just these rows. Only a manual retry changes a row: a missing, sent or queued one
  is left alone and refused (400), another becomes pending with one retry more, and 200 reports it. What
  raised in between is answered 422 or 500, and has then done a part of this or nothing. No other
  request changes a row, the queue, a key or the broker.\<close>

theorem requests_have_their_effects:
  assumes "services_laws S" "refresh_checks_nothing (srv_pg S)" "queue_ok S w" "life_inv (w_rows S w)"
    and "serve S providers parse_int rq w = (Inr r, w')"
  shows "request_effect S parse_int rq r w w'"
  by (rule serve_effect [OF assms])

definition sample_body :: json where
  "sample_body = JObj
     [(''idempotency_key'', JStr ''k1''), (''source_service'', JStr ''Payment''),
      (''event_type'', JStr ''PAYMENT_OTP_REQUESTED''), (''priority'', JStr ''critical''),
      (''recipient'', JObj [(''phone'', JStr ''+4912'')]),
      (''content'', JObj [(''sms'', JObj [(''body'', JStr ''1234'')])])]"

definition post_sample :: http_request where
  "post_sample = \<lparr>rq_method = ''POST'', rq_path = ''/notifications'', rq_query = [], rq_json = Inr sample_body\<rparr>"

lemma sample_body_accepted: "create_body sample_body = Inr sample_payload"
  by code_simp

lemma post_sample_route: "resolve app_routes (rq_method post_sample) (rq_path post_sample) = Found Create_notification []"
  by code_simp

lemma post_sample_served:
  "\<exists>n w. serve ref_services main_providers int_of_str post_sample ref_init = (Inr \<lparr>http_status = 201,
     http_body = Created \<lparr>cr_idempotency_key = ''k1'', cr_event_type = ''payment_otp_requested'',
       cr_notifications = [channel_status_convert n]\<rparr>\<rparr>, w)"
proof -
  obtain n w where post: "post_notification ref_services (notification_create_init sample_request) ref_init =
       (Inr \<lparr>http_status = 201, http_body = Created \<lparr>cr_idempotency_key = ''k1'',
          cr_event_type = ''payment_otp_requested'', cr_notifications = [channel_status_convert n]\<rparr>\<rparr>, w)"
    using sample_posted by metis
  have "rq_json post_sample = Inr sample_body" by (simp add: post_sample_def)
  with post show ?thesis
    by (auto simp: serve_def post_sample_route run_endpoint_def create_endpoint_def sample_body_accepted sample_init)
qed

theorem requests_have_their_effects_witness:
  "\<exists>r w. serve ref_services main_providers int_of_str post_sample ref_init = (Inr r, w) \<and> http_status r = 201 \<and>
     creation_effect ref_services sample_payload r ref_init w"
proof -
  obtain r w where serve: "serve ref_services main_providers int_of_str post_sample ref_init = (Inr r, w)"
    and r: "http_status r = 201" using post_sample_served by fastforce
  have select: "refresh_checks_nothing (srv_pg ref_services)"
    by (auto simp: refresh_checks_nothing_def rd_refresh_def split: option.splits)
  have init: "queue_ok ref_services ref_init" "life_inv (w_rows ref_services ref_init)"
    using ref_init_ok by (simp_all add: queue_ok_def clock_ok_def queue_ids_ok_def queue_entries_def)
  from requests_have_their_effects [OF ref_services_laws select init serve]
  have "creation_effect ref_services sample_payload r ref_init w"
    by (simp add: request_effect_def post_sample_route sample_body_accepted) (simp add: post_sample_def sample_body_accepted)
  with serve r show ?thesis by blast
qed

text \<open>A request and a message are accepted alike: the same JSON value is a valid body of POST
  /notifications exactly if it is a valid body of a message, and both then mean the same payload.\<close>

theorem bodies_and_messages_agree:
  "create_body j = Inr p \<longleftrightarrow> payload_of_body j = Inr p"
  by (rule bodies_agree)

end
