(* ===== verification/Stranding.thy ===== *)
theory Stranding
  imports Http_Api Worker_Liveness
begin

text \<open>
  What becomes of a row that is marked queued while its id is in no queue, as a dispatch that raises
  leaves it: no request, no event, no turn of a worker and no manual retry brings it back.
\<close>

section \<open>A row beside the queue\<close>

definition apart ::
  "('d, 'r, 'q) services \<Rightarrow> int \<Rightarrow> notification \<Rightarrow> ('d, 'r, 'q, 'p) world \<Rightarrow> bool"
where
  "apart S i n w \<longleftrightarrow> life_inv (w_rows S w) \<and> queue_ok S w \<and> w_rows S w i = Some n \<and>
     i \<notin> fst ` set (w_entries S w)"

lemma apart_same:
  assumes "w_rows S w' = w_rows S w" "w_entries S w' = w_entries S w" "queue_ok S w \<Longrightarrow> queue_ok S w'"
  shows "keeping (apart S i n) w w'"
  using assms by (simp add: keeping_def apart_def)

lemma apart_same_svc: "w_rows S w' = w_rows S w \<Longrightarrow> w_svc w' = w_svc w \<Longrightarrow> keeping (apart S i n) w w'"
  by (rule apart_same) (simp_all add: queue_ok_def clock_ok_def)

lemma apart_data: "evolves (same_data S) m \<Longrightarrow> evolves (keeping (apart S i n)) m"
  by (auto simp: evolves_def same_data_def intro!: apart_same)

lemma apart_queue:
  assumes "w_rows S w' = w_rows S w" "world_queue w' = world_queue w"
  shows "keeping (apart S i n) w w'"
proof (rule apart_same [OF assms(1)])
  show "w_entries S w' = w_entries S w" by (rule redis_ready_same(2) [OF assms(2)])
  assume "queue_ok S w"
  with redis_ready_same(3) [OF assms(2)] assms(2) show "queue_ok S w'"
    by (simp add: queue_ok_def queue_ids_ok_def world_queue_def queue_side_def)
qed

lemma apart_wire: "evolves (keeping (apart S i n)) (on_wire m)"
  by (rule evolvesI, rule apart_queue)
    (auto simp: on_wire_def on_svc_def on_amqp_def io_zoom_def world_queue_def queue_side_def split: prod.splits)

lemma apart_client:
  fixes S :: "('d, 'r, 'q) services"
  assumes "\<And>(w :: ('d, 'r, 'q, 'p) world) x w'. on_client m w = (x, w') \<Longrightarrow> client_frame S w w'"
  shows "evolves (keeping (apart S i n)) (on_client m :: (('d, 'r, 'q, 'p) world, 'a) io)"
proof (rule evolvesI)
  fix w w' :: "('d, 'r, 'q, 'p) world" and x
  assume "on_client m w = (x, w')"
  from assms [OF this] show "keeping (apart S i n) w w'" by (intro apart_same) (simp_all add: client_frame_def)
qed

lemma apart_enqueue:
  assumes laws: "services_laws S" and a: "apart S i n w" and j: "j \<noteq> i" "1 \<le> p" "p \<le> 4"
    and run: "on_svc (enqueue (srv_redis S) j p) w = (x, w')"
  shows "apart S i n w'"
proof -
  from a have "queue_ok S w" by (simp add: apart_def)
  from world_enqueue [OF laws this j(2,3) run] a j(1) show ?thesis by (auto simp: apart_def)
qed

text \<open>The priority of a row the invariant holds for.\<close>

lemma apart_row:
  assumes "apart S i n w" "w_rows S w j = Some m"
  shows "nid m = j" "1 \<le> priority m" "priority m \<le> 4"
  using assms life_inv_row [of "w_rows S w" j m] row_inv_priority [of m] by (auto simp: apart_def row_inv_def)

section \<open>Creation\<close>

lemma apart_create:
  assumes laws: "services_laws S" and args: "event_args a" and apart: "apart S i n w"
    and run: "on_db (repository_create (srv_pg S) a) w = (x, w')"
  shows "apart S i n w'" and "x = Inr saved \<Longrightarrow> nid saved \<noteq> i \<and> w_rows S w' (nid saved) = Some saved"
proof -
  note pg = services_laws_parts(1) [OF laws]
  from run obtain d where create: "repository_create (srv_pg S) a (w_db w) = (x, d)" and w': "w' = w\<lparr>w_db := d\<rparr>"
    by (rule on_db_cases)
  from apart have inv: "life_inv (w_rows S w)" and row: "w_rows S w i = Some n" by (simp_all add: apart_def)
  have "life_steps S w w'" using evolvesD [OF life_create [OF laws args] run] .
  then have inv': "life_inv (w_rows S w')" using inv life_writes_inv unfolding life_steps_def by blast
  have row': "w_rows S w' i = Some n" using repo.create_keeps_rows [OF pg create row] by (simp add: w')
  show "apart S i n w'" using apart inv' row' by (simp add: apart_def w' queue_ok_def clock_ok_def)
  assume "x = Inr saved"
  with create have "repository_create (srv_pg S) a (w_db w) = (Inr saved, d)" by simp
  from repo.create_result [OF pg this] obtain j where j: "inserted a j (w_rows S w) (w_rows S w')"
    "w_rows S w' j = Some saved" by (auto simp: w')
  then have "j \<noteq> i" using row by (auto simp: inserted_def)
  with j(2) life_inv_row [OF inv' j(2)] show "nid saved \<noteq> i \<and> w_rows S w' (nid saved) = Some saved" by auto
qed

lemma apart_create_one:
  fixes S :: "('d, 'r, 'q) services"
  assumes laws: "services_laws S" and p: "validated p src ev prio" "c \<in> set (event_channels ev)"
  shows "evolves (keeping (apart S i n)) (create_one S p c acc :: (('d, 'r, 'q, 'p) world, _) io)"
proof -
  let ?a = "request_args p src ev prio c"
  have body: "evolves (keeping (apart S i n)) (io_bind (on_db (repository_create (srv_pg S) ?a)) (\<lambda>saved.
        io_bind (on_svc (enqueue (srv_redis S) (nid saved) (priority saved))) (\<lambda>_.
        io_return (acc @ [saved]))) :: (('d, 'r, 'q, 'p) world, _) io)" (is "evolves _ ?body")
  proof (rule evolvesI, unfold keeping_def, rule impI)
    fix w w' :: "('d, 'r, 'q, 'p) world" and x
    assume run: "?body w = (x, w')" and apart: "apart S i n w"
    note create = apart_create [OF laws request_args_event(1) [OF p] apart]
    from run show "apart S i n w'"
    proof (cases rule: io_bind_cases)
      case (raised e)
      then show ?thesis by (intro create(1) [OF raised(1)])
    next
      case (returned saved w1)
      have w1: "apart S i n w1" "nid saved \<noteq> i" "w_rows S w1 (nid saved) = Some saved"
        using create [OF returned(1)] by auto
      from returned(2) show ?thesis
        by (cases rule: io_bind_cases)
          (use apart_enqueue [OF laws w1(1,2) apart_row(2,3) [OF w1(1,3)]] in \<open>auto simp: io_return_run\<close>)
    qed
  qed
  have "evolves (keeping (apart S i n)) (on_db (pg_rollback (srv_pg S)))"
    using pg_read_law(5) [OF services_laws_parts(1) [OF laws]]
    by (intro evolvesI apart_same_svc) (auto elim!: on_db_cases)
  then show ?thesis
    unfolding create_one_def channel_args_validated [OF p] io_of_simps io_return_bind
    by (intro kept.evolves_try [OF body] kept.evolves_bind evolves_if kept.evolves_return kept.evolves_raise)
qed

lemma apart_create_notification:
  assumes laws: "services_laws S" and p: "validated p src ev prio"
  shows "evolves (keeping (apart S i n)) (create_notification S p)"
proof -
  have pos: "0 < IDEMPOTENCY_EXPIRY" by (simp add: IDEMPOTENCY_EXPIRY_def)
  show ?thesis
    unfolding create_notification_def Let_def validated_as_int(4) [OF p] io_of_simps io_return_bind
    by (intro kept.evolves_bind kept.evolves_return evolves_if kept.evolves_foreach apart_create_one [OF laws p]
        apart_client client_setnx(1) [OF laws] client_expire(1) [OF laws _ pos])
qed

section \<open>The other operations\<close>

lemma apart_new_event:
  assumes laws: "services_laws S"
  shows "evolves (keeping (apart S i n)) (on_new_event S msg)"
proof -
  have "evolves (keeping (apart S i n)) (process_event S msg)"
  proof (cases "delivery_payload msg")
    case (Inl e)
    then show ?thesis by (intro evolvesI) (simp add: process_event_invalid keeping_def)
  next
    case (Inr p)
    then obtain src ev prio where "validated p src ev prio" by (rule delivery_payload_validated)
    from apart_create_notification [OF laws this] Inr show ?thesis by (simp add: process_event_def)
  qed
  then show ?thesis
    unfolding on_new_event_parts msg_ack_def msg_nack_def
    by (intro kept.evolves_try kept.evolves_bind apart_wire)
qed

lemma apart_get:
  "services_laws S \<Longrightarrow> on_db (get_by_id (srv_pg S) j) w = (x, w') \<Longrightarrow> keeping (apart S i n) w w'"
  by (intro apart_same_svc on_db_get_cases(1,2))

text \<open>A retry message for another id.\<close>

lemma apart_retry_event:
  fixes S :: "('d, 'r, 'q) services"
  assumes laws: "services_laws S" and other: "decoded_id msg \<noteq> Inr i"
  shows "evolves (keeping (apart S i n)) (on_retry_event S msg :: (('d, 'r, 'q, 'p) world, _) io)"
proof (cases "decoded_id msg")
  case (Inl e)
  have "io_bind (io_raise e) f = io_raise e" for f :: "int \<Rightarrow> (('d, 'r, 'q, 'p) world, unit) io"
    by (rule ext) (simp add: io_bind_def io_raise_def)
  with Inl show ?thesis
    unfolding on_retry_event_def msg_ack_def msg_nack_def Inl io_of_simps
    by (simp add: kept.evolves_try kept.evolves_raise apart_wire)
next
  case (Inr j)
  have "evolves (keeping (apart S i n)) (io_bind (on_db (get_by_id (srv_pg S) j)) (\<lambda>row.
        io_bind
          (case row of
             None \<Rightarrow> io_return False
           | Some n \<Rightarrow> on_svc (enqueue (srv_redis S) (nid n) (priority n))) (\<lambda>_.
        on_wire (q_ack (srv_amqp S) (dl_tag msg)))) :: (('d, 'r, 'q, 'p) world, _) io)" (is "evolves _ ?body")
  proof (rule evolvesI, unfold keeping_def, rule impI)
    fix w w' :: "('d, 'r, 'q, 'p) world" and x
    assume run: "?body w = (x, w')" and apart: "apart S i n w"
    from run show "apart S i n w'"
    proof (cases rule: io_bind_cases)
      case (raised e)
      with apart_get [OF laws raised(1)] apart show ?thesis by (simp add: keeping_def)
    next
      case (returned row w1)
      from apart_get [OF laws returned(1)] apart have w1: "apart S i n w1" by (simp add: keeping_def)
      have after: "apart S i n w2" if "(case row of None \<Rightarrow> io_return False
           | Some n \<Rightarrow> on_svc (enqueue (srv_redis S) (nid n) (priority n))) w1 = (y, w2)" for y w2
      proof (cases row)
        case (Some m)
        with on_db_get_cases(1,4) [OF laws returned(1)] have m: "w_rows S w1 j = Some m" by simp
        from apart_row [OF w1 m] other Inr have "nid m \<noteq> i" "1 \<le> priority m" "priority m \<le> 4" by auto
        from apart_enqueue [OF laws w1 this] that Some show ?thesis by simp
      qed (use that w1 in \<open>simp add: io_return_run\<close>)
      from returned(2) show ?thesis
      proof (cases rule: io_bind_cases)
        case (returned y w2)
        with after [OF returned(1)] evolvesD [OF apart_wire returned(2)] show ?thesis by (simp add: keeping_def)
      qed (rule after)
    qed
  qed
  then show ?thesis
    unfolding on_retry_event_def msg_ack_def msg_nack_def Inr io_of_simps io_return_bind
    by (intro kept.evolves_try apart_wire)
qed

text \<open>A manual retry: of another row it changes that one, and a row that is marked queued it refuses.\<close>

lemma apart_retry_notification:
  fixes S :: "('d, 'r, 'q) services"
  assumes laws: "services_laws S" and st: "status n = status_value QUEUED \<or> j \<noteq> i"
  shows "evolves (keeping (apart S i n)) (retry_notification S j :: (('d, 'r, 'q, 'p) world, _) io)"
proof (rule evolvesI, unfold keeping_def, rule impI)
  fix w w' :: "('d, 'r, 'q, 'p) world" and x
  assume run: "retry_notification S j w = (x, w')" and apart: "apart S i n w"
  from run show "apart S i n w'"
    unfolding retry_notification_def
  proof (cases rule: io_bind_cases)
    case (raised e)
    with apart_get [OF laws raised(1)] apart show ?thesis by (simp add: keeping_def)
  next
    case (returned row w1)
    from apart_get [OF laws returned(1)] apart have w1: "apart S i n w1" by (simp add: keeping_def)
    from on_db_get_cases(1,4) [OF laws returned(1)] have row: "row = w_rows S w1 j" by simp
    show ?thesis
    proof (cases "\<exists>m. row = Some m \<and> status m \<noteq> status_value SENT \<and> status m \<noteq> status_value QUEUED")
      case False
      with returned(2) have "w' = w1" by (auto simp: io_return_run split: option.splits if_splits)
      with w1 show ?thesis by simp
    next
      case True
      then obtain m where m: "row = Some m" "status m \<noteq> status_value SENT" "status m \<noteq> status_value QUEUED"
        by blast
      from m(1) row have m1: "w_rows S w1 j = Some m" by simp
      with m(3) st w1 have ne: "j \<noteq> i" by (auto simp: apart_def)
      from returned(2) m have "io_bind (on_db (update_status (srv_pg S) j PENDING (requeue_attrs m))) (\<lambda>upd.
          io_bind (on_svc (enqueue (srv_redis S) j (priority m))) (\<lambda>_. io_return (upd, ''''))) w1 = (x, w')"
        by simp
      then obtain y w2 where upd: "on_db (update_status (srv_pg S) j PENDING (requeue_attrs m)) w1 = (y, w2)"
        and rest: "w' = w2 \<or> (\<exists>z. on_svc (enqueue (srv_redis S) j (priority m)) w2 = (z, w'))"
        by (elim io_bind_cases) (auto simp: io_return_run)
      have "life_inv (w_rows S w2)"
        using life_requeue [OF laws m1 m(2,3) upd] w1 life_writes_inv by (auto simp: apart_def life_steps_def)
      with on_db_update_cases(1,3) [OF laws upd] w1 ne have "apart S i n w2"
        by (auto simp: apart_def updated_def queue_ok_def clock_ok_def)
      with rest apart_enqueue [OF laws this ne apart_row(2,3) [OF w1 m1]] show ?thesis by auto
    qed
  qed
qed

section \<open>Requests\<close>

lemma apart_with_handlers: "evolves (keeping (apart S i n)) m \<Longrightarrow> evolves (keeping (apart S i n)) (with_handlers m)"
  unfolding with_handlers_def by (intro kept.evolves_try kept.evolves_return)

lemma apart_serve:
  assumes laws: "services_laws S" and st: "status n = status_value QUEUED \<or> \<not> retries_row parse_int rq i"
  shows "evolves (keeping (apart S i n)) (serve S providers parse_int rq)"
proof (cases "resolve app_routes (rq_method rq) (rq_path rq)")
  case (Found e xs)
  have post: "evolves (keeping (apart S i n)) (create_endpoint S rq)"
  proof (cases "\<exists>j p. rq_json rq = Inr j \<and> create_body j = Inr p")
    case True
    then obtain j p where body: "rq_json rq = Inr j" "create_body j = Inr p" by blast
    then obtain src ev prio where "validated p src ev prio" using create_body_init init_validated by blast
    from apart_create_notification [OF laws this] body show ?thesis
      unfolding create_endpoint_def post_notification_def
      by (auto intro!: apart_with_handlers kept.evolves_bind kept.evolves_return split: prod.splits)
  qed (auto simp: create_endpoint_def post_notification_def kept.evolves_return split: sum.split)
  have retry: "evolves (keeping (apart S i n)) (retry_route S j)" if "status n = status_value QUEUED \<or> j \<noteq> i" for j
    unfolding retry_route_def
    by (intro apart_with_handlers kept.evolves_bind apart_retry_notification [OF laws that])
      (auto intro: kept.evolves_return kept.evolves_raise split: prod.splits option.splits)
  have with_retry: "evolves (keeping (apart S i n)) (with_id parse_int xs (retry_route S))"
    if "e = Retry_notification"
    using that Found st retry kept.evolves_return
    by (fastforce simp: with_id_def retries_row_def simp del: status_value.simps split: list.split option.split)
  have "evolves (keeping (apart S i n)) (run_endpoint S providers parse_int rq e xs)"
  proof (cases "reads_only e")
    case True
    from apart_data [OF run_endpoint_data [OF laws this]] show ?thesis .
  next
    case False
    then show ?thesis
      using post with_retry
      by (cases e) (simp_all add: reads_only_def run_endpoint_def)
  qed
  with Found show ?thesis by (simp add: serve_def)
qed (simp_all add: serve_def kept.evolves_return)

section \<open>Workers\<close>

lemma dequeue_takes:
  assumes "redis_laws R" "queue_ids_ok R s" "dequeue R s = (y, s')"
  shows "queue_ids_ok R s'" and "set (queue_entries R s') \<subseteq> set (queue_entries R s)"
    and "y = Inr (Some j) \<Longrightarrow> j \<in> fst ` set (queue_entries R s)"
proof -
  from wq.deq_effect [OF assms] show "queue_ids_ok R s'" "set (queue_entries R s') \<subseteq> set (queue_entries R s)"
    by (cases "queue_entries R s"; auto)+
  obtain x r where pop: "r_bzpopmin R QUEUE_KEY 1 (svc_redis s) = (x, r)"
    by (cases "r_bzpopmin R QUEUE_KEY 1 (svc_redis s)")
  assume "y = Inr (Some j)"
  with assms(3) pop obtain e where x: "x = Inr (Some e)" and j: "int_of_str (fst (snd e)) = Some j"
    by (auto simp: dequeue_run split: sum.splits option.splits)
  from bzpopmin_law(3) [OF assms(1) pop x] have "snd e \<in> set (r_zset R (svc_redis s) QUEUE_KEY)" by auto
  then have "(the (int_of_str (fst (snd e))), snd (snd e)) \<in> set (queue_entries R s)"
    unfolding queue_entries_def set_map by (rule imageI)
  with j show "j \<in> fst ` set (queue_entries R s)" by (force simp: image_iff)
qed

lemma apart_dispatch:
  assumes laws: "services_laws S" and provs: "providers_ok providers" and apart: "apart S i n w"
    and j: "j \<noteq> i" and run: "dispatch S providers j w = (x, w')"
  shows "apart S i n w'"
proof -
  from apart have ok: "table_ok (w_rows S w)" "life_inv (w_rows S w)" by (simp_all add: apart_def life_inv_def)
  from dispatch_life [OF laws provs ok(1) run] have at: "life_at S j w w'" .
  then have inv: "life_inv (w_rows S w')"
    using ok(2) life_writes_inv life_at_steps [OF at] unfolding life_steps_def by blast
  have row: "w_rows S w' i = w_rows S w i" using fun_cong [OF life_at_isolated [OF at], of i] j by simp
  from evolvesD [OF dispatch_queue run] have queue: "world_queue w' = world_queue w" by (simp add: same_def)
  from redis_ready_same(2) [OF queue, of S] redis_ready_same(3) [OF queue] queue apart inv row show ?thesis
    by (simp add: apart_def queue_ok_def queue_ids_ok_def world_queue_def queue_side_def)
qed

lemma apart_turn:
  assumes laws: "services_laws S" and provs: "providers_ok providers" and apart: "apart S i n w"
    and run: "worker_turn S providers w = (x, w')"
  shows "apart S i n w'"
proof -
  note R = services_laws_parts(2) [OF laws]
  from apart have ids: "queue_ids_ok (srv_redis S) (w_svc w)" by (simp add: apart_def queue_ok_def)
  have taken: "apart S i n (w\<lparr>w_svc := s\<rparr>)" if deq: "dequeue (srv_redis S) (w_svc w) = (y, s)" for y s
    using dequeue_takes(1,2) [OF R ids deq] dequeue_clock [OF deq] apart
    by (auto simp: apart_def queue_ok_def clock_ok_def)
  from run show ?thesis
  proof (cases rule: worker_turn_cases)
    case (idle y s)
    then show ?thesis using taken by simp
  next
    case (dispatched j s y)
    from dequeue_takes(3) [OF R ids dispatched(1) refl] apart have "j \<noteq> i" by (auto simp: apart_def)
    from apart_dispatch [OF laws provs taken [OF dispatched(1)] this dispatched(2)] show ?thesis .
  qed
qed

section \<open>Steps that leave it there\<close>

text \<open>
  Everything the service does but the callback of a retry message with the id \<open>i\<close>, and whatever the
  servers do that adds no entry with it and writes no row.
\<close>

inductive unattended_step ::
  "('d, 'r, 'q) services \<Rightarrow> (notification_channel \<Rightarrow> 'p provider option) \<Rightarrow> (string \<Rightarrow> int option) \<Rightarrow> int \<Rightarrow>
   ('d, 'r, 'q, 'p) world \<Rightarrow> ('d, 'r, 'q, 'p) world \<Rightarrow> bool"
  for S :: "('d, 'r, 'q) services" and providers :: "notification_channel \<Rightarrow> 'p provider option"
    and parse_int :: "string \<Rightarrow> int option" and i :: int
where
  served: "serve S providers parse_int rq w = (x, w') \<Longrightarrow> unattended_step S providers parse_int i w w'"
| new_event: "on_new_event S msg w = (u, w') \<Longrightarrow> unattended_step S providers parse_int i w w'"
| other_retry: "decoded_id msg \<noteq> Inr i \<Longrightarrow> on_retry_event S msg w = (u, w') \<Longrightarrow>
    unattended_step S providers parse_int i w w'"
| worker: "worker_turn S providers w = (u, w') \<Longrightarrow> unattended_step S providers parse_int i w w'"
| outside: "w_rows S w' = w_rows S w \<Longrightarrow> (i \<in> fst ` set (w_entries S w') \<Longrightarrow> i \<in> fst ` set (w_entries S w)) \<Longrightarrow>
    (queue_ok S w \<Longrightarrow> queue_ok S w') \<Longrightarrow> unattended_step S providers parse_int i w w'"

inductive_cases unattended_stepE: "unattended_step S providers parse_int i w w'"

lemma unattended_apart:
  assumes laws: "services_laws S" and provs: "providers_ok providers" and st: "status n = status_value QUEUED"
    and step: "unattended_step S providers parse_int i w w'" and apart: "apart S i n w"
  shows "apart S i n w'"
  using step
proof cases
  case (served rq x)
  from evolvesD [OF apart_serve [OF laws disjI1 [OF st]] served] apart show ?thesis by (simp add: keeping_def)
next
  case (new_event msg u)
  from evolvesD [OF apart_new_event [OF laws] new_event] apart show ?thesis by (simp add: keeping_def)
next
  case (other_retry msg u)
  from evolvesD [OF apart_retry_event [OF laws other_retry(1)] other_retry(2)] apart show ?thesis
    by (simp add: keeping_def)
next
  case (worker u)
  from apart_turn [OF laws provs apart worker] show ?thesis .
next
  case outside
  with apart show ?thesis by (auto simp: apart_def)
qed

section \<open>A dispatch that raises publishes nothing\<close>

definition raises_silently :: "(('d, 'r, 'q, 'p) world, 'a) io \<Rightarrow> bool" where
  "raises_silently m \<longleftrightarrow> (\<forall>w e w'. m w = (Inl e, w') \<longrightarrow> broker_state w' = broker_state w)"

lemma raises_silently_same: "evolves (same broker_state) m \<Longrightarrow> raises_silently m"
  by (auto simp: raises_silently_def same_def dest: evolvesD)

lemma raises_silently_never: "(\<And>w. \<exists>x w'. m w = (Inr x, w')) \<Longrightarrow> raises_silently m"
  by (metis Inl_Inr_False Pair_inject raises_silently_def)

lemma raises_silently_bind:
  assumes "evolves (same broker_state) m" "\<And>x. raises_silently (f x)"
  shows "raises_silently (io_bind m f)"
  unfolding raises_silently_def
proof (intro allI impI)
  fix w e w'
  assume "io_bind m f w = (Inl e, w')"
  then show "broker_state w' = broker_state w"
    by (cases rule: io_bind_cases)
      (use assms in \<open>auto simp: same_def raises_silently_def dest!: evolvesD\<close>)
qed

lemma raises_silently_if: "raises_silently m \<Longrightarrow> raises_silently k \<Longrightarrow> raises_silently (if b then m else k)"
  by simp

lemma raises_silently_option:
  "raises_silently m \<Longrightarrow> (\<And>y. raises_silently (f y)) \<Longrightarrow> raises_silently (case x of None \<Rightarrow> m | Some y \<Rightarrow> f y)"
  by (cases x) simp_all

lemma broker_state_prov: "evolves (same broker_state) (on_prov m)"
  by (auto simp: evolves_def same_def broker_state_def on_prov_def io_zoom_def split: prod.splits)

lemma broker_state_host: "evolves (same broker_state) (on_svc (on_host m))"
  by (auto simp: evolves_def same_def broker_state_def on_svc_def on_host_def io_zoom_def split: prod.splits)

lemmas broker_frame = broker_state_db broker_state_prov broker_state_host
  unchanged.evolves_bind unchanged.evolves_of unchanged.evolves_return

lemma mark_failed_broker: "evolves (same broker_state) (mark_failed S n code)"
  unfolding mark_failed_def by (intro broker_frame)

lemma publish_retry_step_returns:
  "\<exists>x w'. io_bind (on_svc (publish_retry A i d)) (\<lambda>_. io_return ()) w = (Inr x, w')"
proof -
  obtain y s where run: "publish_retry A i d (w_svc w) = (y, s)" by (cases "publish_retry A i d (w_svc w)")
  then obtain b where "y = Inr b"
    unfolding publish_retry_def by (cases rule: io_try_cases) (auto simp: io_return_run)
  with run show ?thesis by (auto simp: io_bind_def io_return_def on_svc_run)
qed

lemma dispatch_raises_silently: "raises_silently (dispatch S providers i)"
proof -
  have dlq: "raises_silently (send_to_dlq S n code)" for n code
    using send_to_dlq_returns by (intro raises_silently_never) blast
  have pub: "raises_silently (io_bind (on_svc (publish_retry A k d)) (\<lambda>_. io_return ()))" for A k d
    using publish_retry_step_returns by (intro raises_silently_never) blast
  have retry: "raises_silently (schedule_retry S n code)" for n code
    unfolding schedule_retry_def Let_def
    by (intro raises_silently_bind raises_silently_if broker_frame mark_failed_broker dlq pub)
  show ?thesis
    unfolding dispatch_def Let_def mark_sent_def
    by (intro raises_silently_bind raises_silently_if raises_silently_option retry
        raises_silently_same broker_frame mark_failed_broker)
qed

end
