(* ===== verification/Stranded_Properties.thy ===== *)
theory Stranded_Properties
  imports Stranding Sample_Data
begin

text \<open>
  The loss of a notification whose dispatch raised after it was marked queued, with an instance.
\<close>

text \<open>C17. A dispatch that raises loses its notification when the row was marked queued before: the worker
  goes on, no message is published, the id is in no queue, and whatever the service does afterwards
  (requests, manual retries of this row among them, events, turns of workers, retry messages of other
  rows) the row stays as it is and its id is never queued again.\<close>

theorem raised_dispatch_is_lost:
  assumes laws: "services_laws S" and provs: "providers_ok providers"
    and inv: "life_inv (w_rows S w)" "queue_ok S w" "redis_up S w"
    and deq: "dequeue (srv_redis S) (w_svc w) = (Inr (Some i), s)"
    and raised: "dispatch S providers i (w\<lparr>w_svc := s\<rparr>) = (Inl e, w1)"
    and row: "w_rows S w1 i = Some n" "status n = status_value QUEUED"
  shows "worker_turn S providers w = (Inr (), w1) \<and> broker_state w1 = broker_state w \<and>
    (\<forall>w2. (unattended_step S providers parse_int i)\<^sup>*\<^sup>* w1 w2 \<longrightarrow>
       w_rows S w2 i = Some n \<and> i \<notin> fst ` set (w_entries S w2))"
proof -
  from deq raised have turn: "worker_turn S providers w = (Inr (), w1)"
    by (simp add: worker_turn_def io_try_def io_bind_def io_return_def on_svc_run)
  have "broker_state w1 = broker_state (w\<lparr>w_svc := s\<rparr>)"
    using dispatch_raises_silently raised unfolding raises_silently_def by blast
  moreover have "broker_state (w\<lparr>w_svc := s\<rparr>) = broker_state w"
    using deq by (auto simp: broker_state_def dequeue_run split: prod.splits)
  moreover have start: "apart S i n w1"
  proof -
    from inv have ready: "redis_ready S w" by (simp add: redis_ready_def queue_ok_def)
    from inv(1) have "table_ok (w_rows S w)" by (simp add: life_inv_def)
    from worker_turn_life [OF laws provs this turn] inv(1) have "life_inv (w_rows S w1)"
      unfolding life_steps_def using life_writes_inv by blast
    moreover note one = worker_turn_takes_one [OF laws ready turn]
    from wq.entries_ordered [OF services_laws_parts(2) [OF laws], of "w_svc w"] ready
    have "distinct (map fst (w_entries S w))" by (simp add: redis_ready_def)
    with one turn_dequeues(1) [OF laws ready deq] have "i \<notin> fst ` set (w_entries S w1)"
      by (auto split: list.splits)
    ultimately show ?thesis using one row(1) inv(2) by (simp add: apart_def queue_ok_def redis_ready_def)
  qed
  have "apart S i n w2" if "(unattended_step S providers parse_int i)\<^sup>*\<^sup>* w1 w2" for w2
    using that start by (induction rule: rtranclp_induct) (blast intro: unattended_apart [OF laws provs row(2)])+
  ultimately show ?thesis using turn by (auto simp: apart_def)
qed

text \<open>A provider whose external id does not fit into its column: the commit of SENT raises after the send.\<close>

definition overlong_id :: string where
  "overlong_id = replicate 300 (CHR ''a'')"

definition overlong_provider :: "mock_state provider" where
  "overlong_provider = const_provider SMS True (sent_result overlong_id)"

lemma overlong_update:
  assumes "rd_up d" "rd_table d i = Some n"
  shows "update_status ref_pg i SENT [External_id (Some overlong_id), Stime t] d = (Inl OtherException, d)"
proof -
  have "\<not> storable (n\<lparr>status := status_value SENT, external_id := Some overlong_id, stime := t\<rparr>)"
    by (simp add: storable_def varchar_255_def overlong_id_def)
  then have "rd_update i (changes n [Status (status_value SENT), External_id (Some overlong_id), Stime t]) d =
      (Inl OtherException, d)"
    using assms by (simp add: rd_update_def del: changes.simps status_value.simps)
  with assms show ?thesis
    by (simp add: update_status_def get_by_id_def io_bind_def rd_select_id_def del: changes.simps status_value.simps)
qed

lemma overlong_dispatch:
  assumes up: "db_up ref_services w" and row: "w_rows ref_services w 1 = Some (row_with PENDING 0)"
  obtains n w' where "dispatch ref_services (sms_only overlong_provider) 1 w = (Inl OtherException, w')"
    "w_rows ref_services w' 1 = Some n" "status n = status_value QUEUED"
proof -
  obtain x w1 where get: "on_db (get_by_id (srv_pg ref_services) 1) w = (x, w1)"
    by (cases "on_db (get_by_id (srv_pg ref_services) 1) w")
  from on_db_get_cases(5) [OF ref_services_laws get up] on_db_get_cases(1) [OF ref_services_laws get] row
  have w1: "x = Inr (Some (row_with PENDING 0))" "db_up ref_services w1"
    "w_rows ref_services w1 1 = Some (row_with PENDING 0)" by simp_all
  have "storable (set_attrs [Status (status_value QUEUED)] (row_with PENDING 0))"
    using row_with_storable [of 0 PENDING] by (simp add: storable_def)
  from on_db_update_up [OF ref_services_laws w1(2,3) this] obtain m t w2 where
    upd: "on_db (update_status (srv_pg ref_services) 1 QUEUED []) w1 = (Inr (Some m), w2)" "db_up ref_services w2"
      "w_rows ref_services w2 = (w_rows ref_services w1)(1 \<mapsto> m)"
    and m: "m = (set_attrs [Status (status_value QUEUED)] (row_with PENDING 0))\<lparr>mtime := t\<rparr>" by metis
  obtain u w3 where now: "on_svc (on_host host_now) w2 = (Inr u, w3)" "w_db w3 = w_db w2"
    by (auto simp: on_svc_def on_host_def io_zoom_def host_now_def)
  have "rd_up (w_db w3)" "rd_table (w_db w3) 1 = Some m" using upd(2,3) now(2) by (simp_all add: db_up_def)
  from overlong_update [OF this, of "Some u"]
  have "on_db (update_status ref_pg 1 SENT [External_id (Some overlong_id), Stime (Some u)]) w3 = (Inl OtherException, w3)"
    by (simp add: on_db_def io_zoom_def)
  with now(1) have "mark_sent ref_services m (Some overlong_id) w2 = (Inl OtherException, w3)"
    by (simp add: mark_sent_def io_bind_def m)
  then have "attempt ref_services overlong_provider m w2 = (Inl OtherException, w3)"
    by (simp add: attempt_def after_send_def overlong_provider_def const_provider_def io_bind_def on_prov_def io_zoom_def io_return_def
        sent_result_def)
  moreover have "enum_of_value channel_members channel_value (channel (row_with PENDING 0)) = Inr SMS"
    by (simp del: channel_value.simps)
  ultimately have "dispatch ref_services (sms_only overlong_provider) 1 w = (Inl OtherException, w3)"
    using get w1(1) upd(1)
    by (simp add: dispatch_parts io_bind_def io_return_def refreshed_def del: row_with_fields(2))
  moreover have "w_rows ref_services w3 1 = Some m" using upd(3) now(2) by simp
  ultimately show thesis by (rule that) (simp add: m)
qed

theorem raised_dispatch_is_lost_witness:
  "\<exists>w1 n. worker_turn ref_services (sms_only overlong_provider) one_queued = (Inr (), w1) \<and>
     w_rows ref_services w1 1 = Some n \<and> status n = status_value QUEUED \<and> 1 \<notin> fst ` set (w_entries ref_services w1)"
proof -
  have ok: "providers_ok (sms_only overlong_provider)"
    unfolding overlong_provider_def
    by (intro sms_only_ok const_provider_ok) (simp_all add: sent_result_def)
  have inv: "life_inv (w_rows ref_services one_queued)" "queue_ok ref_services one_queued" "redis_up ref_services one_queued"
    using one_queued_facts(2) row_with_inv [of PENDING 0]
    by (simp_all add: all_up_def one_queued_def life_inv_def table_ok_def)
  obtain y s where deq: "dequeue (srv_redis ref_services) (w_svc one_queued) = (y, s)"
    by (cases "dequeue (srv_redis ref_services) (w_svc one_queued)")
  have "redis_ready ref_services one_queued" using inv by (simp add: redis_ready_def queue_ok_def)
  from turn_dequeues(1) [OF ref_services_laws this deq] one_queued_facts(1) have y: "y = Inr (Some 1)" by simp
  have "db_up ref_services (one_queued\<lparr>w_svc := s\<rparr>)" "w_rows ref_services (one_queued\<lparr>w_svc := s\<rparr>) 1 = Some (row_with PENDING 0)"
    using one_queued_facts(2,3) by (simp_all add: all_up_def db_up_def)
  then obtain n w1 where run: "dispatch ref_services (sms_only overlong_provider) 1 (one_queued\<lparr>w_svc := s\<rparr>) = (Inl OtherException, w1)"
    and n: "w_rows ref_services w1 1 = Some n" "status n = status_value QUEUED" by (rule overlong_dispatch)
  from raised_dispatch_is_lost [OF ref_services_laws ok inv deq [unfolded y] run n] n show ?thesis by blast
qed

end
