(* ===== verification/Configuration.thy ===== *)
theory Configuration
  imports Application
begin

text \<open>
  What the process reads and opens when its modules are imported: \<open>app/config.py\<close>, the engine and the
  sessions of \<open>app/database.py\<close>. How \<open>BaseSettings\<close> finds a field is pydantic-settings' documented
  rule: the environment first, the file \<open>.env\<close> second, names in any case, and a key of the file that
  is no field is refused. The text forms of an integer Pydantic takes are the parameter \<open>parse_int\<close>.
\<close>

section \<open>Settings\<close>

record settings =
  st_postgres_user :: string
  st_postgres_password :: string
  st_postgres_db :: string
  st_database_url :: string
  st_redis_url :: string
  st_rabbitmq_user :: string
  st_rabbitmq_password :: string
  st_rabbitmq_url :: string
  st_worker_count :: int
  st_max_retries :: int

type_synonym environment = "(string \<times> string) list"

text \<open>The fields without a default, in their order, and those with one.\<close>

definition required_settings :: "string list" where
  "required_settings =
     [''postgres_user'', ''postgres_password'', ''postgres_db'', ''database_url'', ''redis_url'',
      ''rabbitmq_user'', ''rabbitmq_password'', ''rabbitmq_url'']"

definition default_settings :: "(string \<times> int) list" where
  "default_settings = [(''worker_count'', 100), (''max_retries'', 3)]"

definition environment_value :: "environment \<Rightarrow> string \<Rightarrow> string option" where
  "environment_value env k = map_of (rev (map (\<lambda>(nm, v). (str_lower nm, v)) env)) k"

definition setting_text :: "environment \<Rightarrow> environment \<Rightarrow> string \<Rightarrow> string option" where
  "setting_text env file k =
     (case environment_value env k of Some v \<Rightarrow> Some v | None \<Rightarrow> environment_value file k)"

definition setting_int ::
  "(string \<Rightarrow> int option) \<Rightarrow> environment \<Rightarrow> environment \<Rightarrow> string \<Rightarrow> int option"
where
  "setting_int parse_int env file k =
     (case setting_text env file k of None \<Rightarrow> map_of default_settings k | Some s \<Rightarrow> parse_int s)"

definition extra_setting :: "environment \<Rightarrow> bool" where
  "extra_setting file \<longleftrightarrow>
     list_ex (\<lambda>(nm, v). v \<noteq> [] \<and> str_lower nm \<notin> set (required_settings @ map fst default_settings)) file"

text \<open>\<open>Settings()\<close>; a \<open>ValidationError\<close> is a \<open>ValueError\<close>.\<close>

definition settings_init ::
  "(string \<Rightarrow> int option) \<Rightarrow> environment \<Rightarrow> environment \<Rightarrow> py_exn + settings"
where
  "settings_init parse_int env file =
     (if extra_setting file then Inl ValueError
      else
        case (those (map (setting_text env file) required_settings),
              setting_int parse_int env file ''worker_count'', setting_int parse_int env file ''max_retries'') of
          (Some [pu, pp, pdb, db, redis, ru, rp, rabbit], Some workers, Some retries) \<Rightarrow>
            Inr \<lparr>st_postgres_user = pu, st_postgres_password = pp, st_postgres_db = pdb, st_database_url = db,
              st_redis_url = redis, st_rabbitmq_user = ru, st_rabbitmq_password = rp, st_rabbitmq_url = rabbit,
              st_worker_count = workers, st_max_retries = retries\<rparr>
        | _ \<Rightarrow> Inl ValueError)"

lemma those_length: "those (map f xs) = Some ys \<Longrightarrow> length ys = length xs"
  by (induction xs arbitrary: ys) (auto split: option.splits)

lemma those_Some: "those (map f xs) = Some ys \<longleftrightarrow> map f xs = map Some ys"
  by (induction xs arbitrary: ys) (auto split: option.splits)

lemma those_defined: "(\<exists>ys. those (map f xs) = Some ys) \<longleftrightarrow> (\<forall>x \<in> set xs. f x \<noteq> None)"
  by (induction xs) (auto split: option.splits)

text \<open>The settings exist exactly if no key is unknown, no required one is missing and both numbers are numbers.\<close>

lemma settings_init_exists:
  "(\<exists>st. settings_init parse_int env file = Inr st) \<longleftrightarrow>
     \<not> extra_setting file \<and> (\<forall>k \<in> set required_settings. setting_text env file k \<noteq> None) \<and>
     (\<forall>(k, d) \<in> set default_settings. setting_int parse_int env file k \<noteq> None)"
  (is "?made \<longleftrightarrow> ?right")
proof
  show "?made \<Longrightarrow> ?right"
    using those_defined [of "setting_text env file" required_settings]
    by (auto simp: settings_init_def default_settings_def split: if_splits option.splits list.splits)
next
  assume right: ?right
  then obtain ys where ys: "those (map (setting_text env file) required_settings) = Some ys"
    using those_defined [of "setting_text env file" required_settings] by blast
  from those_length [OF ys] have "length ys = 8" by (simp add: required_settings_def)
  then obtain a b c d e f g h where "ys = [a, b, c, d, e, f, g, h]"
    by (auto simp: length_Suc_conv numeral_eq_Suc)
  with ys right show ?made by (auto simp: settings_init_def default_settings_def)
qed

lemma settings_numbers:
  "settings_init parse_int env file = Inr st \<Longrightarrow>
     setting_int parse_int env file ''worker_count'' = Some (st_worker_count st) \<and>
     setting_int parse_int env file ''max_retries'' = Some (st_max_retries st)"
  by (auto simp: settings_init_def split: if_splits option.splits list.splits)

section \<open>The engine and its sessions\<close>

record engine_options =
  eo_url :: string
  eo_echo :: bool
  eo_pool_size :: int
  eo_max_overflow :: int

definition engine_options_of :: "settings \<Rightarrow> engine_options" where
  "engine_options_of st =
     \<lparr>eo_url = st_database_url st, eo_echo = True, eo_pool_size = 20, eo_max_overflow = 10\<rparr>"

text \<open>What the pool of the engine holds at most, which is less than the workers of the default settings.\<close>

definition max_connections :: "engine_options \<Rightarrow> int" where
  "max_connections opts = eo_pool_size opts + eo_max_overflow opts"

text \<open>
  Sessions are SQLAlchemy's: \<open>AsyncSessionLocal()\<close> opens one, the exit of its context manager closes
  it. \<open>get_db\<close> opens a session for a request and closes it however the request ends.
\<close>

record 'c session_factory =
  sf_open :: "('c, nat) io"
  sf_close :: "nat \<Rightarrow> ('c, unit) io"

definition get_db :: "'c session_factory \<Rightarrow> (nat \<Rightarrow> ('c, 'a) io) \<Rightarrow> ('c, 'a) io" where
  "get_db F request = io_bind (sf_open F) (\<lambda>session. io_finally (request session) (sf_close F session))"

definition sessions_law :: "('c \<Rightarrow> nat set) \<Rightarrow> 'c session_factory \<Rightarrow> bool" where
  "sessions_law open_sessions F \<longleftrightarrow>
     (\<forall>c x c'. sf_open F c = (x, c') \<longrightarrow>
        (case x of Inl e \<Rightarrow> open_sessions c' = open_sessions c
         | Inr s \<Rightarrow> s \<notin> open_sessions c \<and> open_sessions c' = insert s (open_sessions c))) \<and>
     (\<forall>s c x c'. sf_close F s c = (x, c') \<longrightarrow> open_sessions c' = open_sessions c - {s})"

text \<open>No request leaks its session, whether it returns or raises.\<close>

lemma get_db_closes:
  assumes "sessions_law open_sessions F" "\<And>s. evolves (same open_sessions) (request s)"
  shows "evolves (same open_sessions) (get_db F request)"
proof (rule evolvesI, unfold same_def)
  fix c x c'
  assume "get_db F request c = (x, c')"
  then show "open_sessions c' = open_sessions c"
    unfolding get_db_def
  proof (cases rule: io_bind_cases)
    case (raised e)
    then show ?thesis using assms(1) unfolding sessions_law_def by force
  next
    case (returned s c1)
    obtain y c2 where run: "request s c1 = (y, c2)" by (cases "request s c1")
    obtain z c3 where close: "sf_close F s c2 = (z, c3)" by (cases "sf_close F s c2")
    from returned(2) run close have "c' = c3" by (auto simp: io_finally_def split: sum.splits)
    moreover have "open_sessions c2 = open_sessions c1"
      using evolvesD [OF assms(2) run] by (simp add: same_def)
    moreover have "s \<notin> open_sessions c \<and> open_sessions c1 = insert s (open_sessions c)"
      using assms(1) returned(1) unfolding sessions_law_def by force
    moreover have "open_sessions c3 = open_sessions c2 - {s}"
      using assms(1) close unfolding sessions_law_def by blast
    ultimately show ?thesis by simp
  qed
qed

end
