(* ===== verification/Configuration_Properties.thy ===== *)
theory Configuration_Properties
  imports Configuration Sample_Data
begin

text \<open>
  From the environment to the running pool: which settings a process starts with, and how many workers
  and connections they give it.
\<close>

text \<open>C27. The process has settings exactly if every required variable is set in the environment or the
  file, the numbers are numbers and the file has no unknown key; it then starts, once the tables are
  there, the workers the variable WORKER_COUNT says, one hundred without it and none when it is zero
  or less, over an engine of at most thirty connections.\<close>

theorem workers_follow_the_environment:
  assumes "eng_create_all E (w_db w) = (Inr (), d)"
  shows "(\<exists>st. settings_init parse_int env file = Inr st) =
      (\<not> extra_setting file \<and> (\<forall>k \<in> set required_settings. setting_text env file k \<noteq> None) \<and>
       setting_int parse_int env file ''worker_count'' \<noteq> None \<and> setting_int parse_int env file ''max_retries'' \<noteq> None) \<and>
    (\<forall>st. settings_init parse_int env file = Inr st \<longrightarrow>
      (\<exists>a. startup E A (app_init (st_worker_count st) w) = (Inr (), a) \<and> wp_running (ap_pool a) \<and>
        int (length (wp_tasks (ap_pool a))) =
          (case setting_text env file ''worker_count'' of None \<Rightarrow> 100 | Some s \<Rightarrow> max 0 (the (parse_int s))) \<and>
        max_connections (engine_options_of st) = 30))"
proof (intro conjI allI impI)
  show "(\<exists>st. settings_init parse_int env file = Inr st) =
      (\<not> extra_setting file \<and> (\<forall>k \<in> set required_settings. setting_text env file k \<noteq> None) \<and>
       setting_int parse_int env file ''worker_count'' \<noteq> None \<and> setting_int parse_int env file ''max_retries'' \<noteq> None)"
    using settings_init_exists [of parse_int env "file"] by (simp add: default_settings_def)
next
  fix st
  assume st: "settings_init parse_int env file = Inr st"
  let ?a = "app_init (st_worker_count st) w"
  have "eng_create_all E (w_db (ap_world ?a)) = (Inr (), d)" using assms by (simp add: app_init_def)
  then obtain r where run: "startup E A ?a = (Inr (), put_rabbit r (?a\<lparr>ap_world := (ap_world ?a)\<lparr>w_db := d\<rparr>,
      ap_pool := worker_start (ap_pool ?a)\<rparr>))" by (rule startup_run)
  have "st_worker_count st = (case setting_text env file ''worker_count'' of None \<Rightarrow> 100 | Some s \<Rightarrow> the (parse_int s))"
    using settings_numbers [OF st] by (auto simp: setting_int_def default_settings_def split: option.splits)
  with run show "\<exists>a. startup E A ?a = (Inr (), a) \<and> wp_running (ap_pool a) \<and>
      int (length (wp_tasks (ap_pool a))) =
        (case setting_text env file ''worker_count'' of None \<Rightarrow> 100 | Some s \<Rightarrow> max 0 (the (parse_int s))) \<and>
      max_connections (engine_options_of st) = 30"
    by (auto simp: app_init_def worker_start_def worker_init_def max_connections_def engine_options_of_def
        split: option.split)
qed

text \<open>An environment like the one of the README's \<open>.env\<close>, with and without the number of workers.\<close>

definition sample_environment :: environment where
  "sample_environment =
     [(''POSTGRES_USER'', ''u''), (''POSTGRES_PASSWORD'', ''p''), (''POSTGRES_DB'', ''db''),
      (''DATABASE_URL'', ''postgresql+asyncpg://u:p@localhost/db''), (''REDIS_URL'', ''redis://localhost''),
      (''RABBITMQ_USER'', ''u''), (''RABBITMQ_PASSWORD'', ''p''), (''RABBITMQ_URL'', ''amqp://localhost'')]"

definition sample_engine :: "ref_db engine" where
  "sample_engine = \<lparr>eng_create_all = io_return (), eng_dispose = io_return ()\<rparr>"

lemma sample_environment_facts:
  "\<not> extra_setting sample_environment"
  "\<forall>k \<in> set required_settings. setting_text [(''WORKER_COUNT'', ''0'')] sample_environment k \<noteq> None"
  "setting_int int_of_str [(''WORKER_COUNT'', ''0'')] sample_environment ''worker_count'' = Some 0"
  "setting_int int_of_str [(''WORKER_COUNT'', ''0'')] sample_environment ''max_retries'' = Some 3"
  "setting_text [(''WORKER_COUNT'', ''0'')] sample_environment ''worker_count'' = Some ''0''"
  "int_of_str ''0'' = Some 0"
  by code_simp+

theorem workers_follow_the_environment_witness:
  "\<exists>st a. settings_init int_of_str [(''WORKER_COUNT'', ''0'')] sample_environment = Inr st \<and>
     startup sample_engine ref_amqp_ops (app_init (st_worker_count st) ref_init) = (Inr (), a) \<and>
     wp_running (ap_pool a) \<and> wp_tasks (ap_pool a) = []"
proof -
  have "eng_create_all sample_engine (w_db ref_init) = (Inr (), w_db ref_init)"
    by (simp add: sample_engine_def io_return_def)
  note start = workers_follow_the_environment [OF this, of int_of_str "[(''WORKER_COUNT'', ''0'')]" sample_environment
      ref_amqp_ops]
  from start obtain st where st: "settings_init int_of_str [(''WORKER_COUNT'', ''0'')] sample_environment = Inr st"
    using sample_environment_facts by auto
  with start show ?thesis using sample_environment_facts(5,6) by fastforce
qed

end
