(* ===== verification/Alembic_Env.thy ===== *)
theory Alembic_Env
  imports Migration
begin

text \<open>
  The Alembic environment \<open>alembic/env.py\<close>: how a migration is run, offline into a script or online over
  a connection, and what a run does to the schema of the database. Alembic's \<open>context\<close> and SQLAlchemy's
  engine are a parameter, a record of the calls the script makes on them.
\<close>

section \<open>The environment script\<close>

text \<open>The arguments of \<open>context.configure\<close>, beside the metadata of the models.\<close>

datatype env_configuration =
    Offline_config "string option" bool string
  | Online_config nat

record 'c alembic_api =
  al_config_file :: "'c \<Rightarrow> string option"
  al_file_config :: "string \<Rightarrow> ('c, unit) io"
  al_is_offline :: "('c, bool) io"
  al_main_option :: "string \<Rightarrow> ('c, string option) io"
  al_configure :: "env_configuration \<Rightarrow> ('c, unit) io"
  al_begin :: "('c, unit) io"
  al_exit :: "py_exn option \<Rightarrow> ('c, unit) io"
  al_run_migrations :: "('c, unit) io"
  al_engine :: "('c, nat) io"
  al_connect :: "nat \<Rightarrow> ('c, nat) io"
  al_close :: "nat \<Rightarrow> ('c, unit) io"
  al_dispose :: "nat \<Rightarrow> ('c, unit) io"

text \<open>\<open>with context.begin_transaction()\<close>: the exit of the context manager is told what the body raised.\<close>

definition in_transaction :: "'c alembic_api \<Rightarrow> ('c, unit) io \<Rightarrow> ('c, unit) io" where
  "in_transaction A body =
     io_bind (al_begin A) (\<lambda>_.
     io_bind (io_try body (\<lambda>e. io_bind (al_exit A (Some e)) (\<lambda>_. io_raise e))) (\<lambda>_.
     al_exit A None))"

definition run_migrations_offline :: "'c alembic_api \<Rightarrow> ('c, unit) io" where
  "run_migrations_offline A =
     io_bind (al_main_option A ''sqlalchemy.url'') (\<lambda>url.
     io_bind (al_configure A (Offline_config url True ''named'')) (\<lambda>_.
     in_transaction A (al_run_migrations A)))"

definition do_run_migrations :: "'c alembic_api \<Rightarrow> nat \<Rightarrow> ('c, unit) io" where
  "do_run_migrations A connection =
     io_bind (al_configure A (Online_config connection)) (\<lambda>_.
     in_transaction A (al_run_migrations A))"

text \<open>The engine is made of the section \<open>sqlalchemy\<close> of the file, with a \<open>NullPool\<close>.\<close>

definition run_async_migrations :: "'c alembic_api \<Rightarrow> ('c, unit) io" where
  "run_async_migrations A =
     io_bind (al_engine A) (\<lambda>connectable.
     io_bind
       (io_bind (al_connect A connectable) (\<lambda>connection.
        io_finally (do_run_migrations A connection) (al_close A connection))) (\<lambda>_.
     al_dispose A connectable))"

definition run_migrations_online :: "'c alembic_api \<Rightarrow> ('c, unit) io" where
  "run_migrations_online A = run_async_migrations A"

text \<open>The statements of the module, in their order.\<close>

definition read_logging_config :: "'c alembic_api \<Rightarrow> ('c, unit) io" where
  "read_logging_config A =
     io_bind (io_gets (al_config_file A)) (\<lambda>config_file_name.
     case config_file_name of None \<Rightarrow> io_return () | Some f \<Rightarrow> al_file_config A f)"

definition env_main :: "'c alembic_api \<Rightarrow> ('c, unit) io" where
  "env_main A =
     io_bind (read_logging_config A) (\<lambda>_.
     io_bind (al_is_offline A) (\<lambda>offline.
     if offline then run_migrations_offline A else run_migrations_online A))"

section \<open>Schemas\<close>

text \<open>
  What the statements of a migration do to a schema, as PostgreSQL documents it: a table, a constraint or
  an index that exists is not created again, and dropping needs what it drops. Indexes and unique
  constraints share the names of their schema; dropping a table drops its own.
\<close>

record schema =
  sc_tables :: "(string \<times> column list) list"
  sc_uniques :: "(string \<times> string \<times> string list) list"
  sc_indexes :: "(string \<times> string \<times> string list) list"

definition relation_names :: "schema \<Rightarrow> string list" where
  "relation_names sc = map fst (sc_tables sc) @ map fst (sc_uniques sc) @ map fst (sc_indexes sc)"

definition has_columns :: "schema \<Rightarrow> string \<Rightarrow> string list \<Rightarrow> bool" where
  "has_columns sc t cols =
     (case map_of (sc_tables sc) t of None \<Rightarrow> False | Some cs \<Rightarrow> list_all (\<lambda>c. c \<in> set (map cl_name cs)) cols)"

fun run_ddl :: "ddl \<Rightarrow> schema \<Rightarrow> py_exn + schema" where
  "run_ddl (Create_table t cs) sc =
     (if t \<in> set (relation_names sc) then Inl OtherException
      else Inr (sc\<lparr>sc_tables := (t, cs) # sc_tables sc\<rparr>))"
| "run_ddl (Create_unique nm t cols) sc =
     (if nm \<in> set (relation_names sc) \<or> \<not> has_columns sc t cols then Inl OtherException
      else Inr (sc\<lparr>sc_uniques := (nm, t, cols) # sc_uniques sc\<rparr>))"
| "run_ddl (Create_index nm t cols) sc =
     (if nm \<in> set (relation_names sc) \<or> \<not> has_columns sc t cols then Inl OtherException
      else Inr (sc\<lparr>sc_indexes := (nm, t, cols) # sc_indexes sc\<rparr>))"
| "run_ddl (Drop_index nm t) sc =
     (if nm \<in> set (map fst (sc_indexes sc))
      then Inr (sc\<lparr>sc_indexes := filter (\<lambda>e. fst e \<noteq> nm) (sc_indexes sc)\<rparr>) else Inl OtherException)"
| "run_ddl (Drop_constraint nm t) sc =
     (if nm \<in> set (map fst (filter (\<lambda>e. fst (snd e) = t) (sc_uniques sc)))
      then Inr (sc\<lparr>sc_uniques := filter (\<lambda>e. fst e \<noteq> nm \<or> fst (snd e) \<noteq> t) (sc_uniques sc)\<rparr>)
      else Inl OtherException)"
| "run_ddl (Drop_table t) sc =
     (if t \<in> set (map fst (sc_tables sc))
      then Inr \<lparr>sc_tables = filter (\<lambda>e. fst e \<noteq> t) (sc_tables sc),
        sc_uniques = filter (\<lambda>e. fst (snd e) \<noteq> t) (sc_uniques sc),
        sc_indexes = filter (\<lambda>e. fst (snd e) \<noteq> t) (sc_indexes sc)\<rparr>
      else Inl OtherException)"

text \<open>A migration runs its statements in order and stops at the first that raises.\<close>

fun run_ddls :: "ddl list \<Rightarrow> schema \<Rightarrow> py_exn + schema" where
  "run_ddls [] sc = Inr sc"
| "run_ddls (d # ds) sc = (case run_ddl d sc of Inl e \<Rightarrow> Inl e | Inr sc' \<Rightarrow> run_ddls ds sc')"

text \<open>\<open>Base.metadata.create_all\<close>: the table of the model, when there is none of its name.\<close>

definition create_all :: "schema \<Rightarrow> py_exn + schema" where
  "create_all sc =
     (if ''notifications'' \<in> set (map fst (sc_tables sc)) then Inr sc
      else
        run_ddls
          (Create_table ''notifications'' orm_columns #
           map (\<lambda>(nm, cols). Create_unique nm ''notifications'' cols) orm_uniques @
           map (\<lambda>(nm, cols). Create_index nm ''notifications'' cols) orm_indexes) sc)"

text \<open>The names the service's table uses, and a schema that does not have them.\<close>

definition table_names :: "string list" where
  "table_names = ''notifications'' # map fst orm_uniques @ map fst orm_indexes"

definition without_table :: "schema \<Rightarrow> bool" where
  "without_table sc \<longleftrightarrow> set table_names \<inter> set (relation_names sc) = {} \<and>
     ''notifications'' \<notin> set (map (fst \<circ> snd) (sc_uniques sc @ sc_indexes sc))"


section \<open>A run that is recorded\<close>

datatype env_call =
    Call_file_config string
  | Call_is_offline
  | Call_main_option string
  | Call_configure env_configuration
  | Call_begin
  | Call_exit "py_exn option"
  | Call_run_migrations
  | Call_engine
  | Call_connect nat
  | Call_close nat
  | Call_dispose nat

text \<open>The calls made so far, the number of the one that raises, and the mode of the run.\<close>

record env_trace =
  et_calls :: "env_call list"
  et_fails :: nat
  et_offline :: bool

definition env_traced :: "env_call \<Rightarrow> (env_trace \<Rightarrow> 'a) \<Rightarrow> (env_trace, 'a) io" where
  "env_traced c x t =
     (if length (et_calls t) = et_fails t then Inl OtherException else Inr (x t),
      t\<lparr>et_calls := et_calls t @ [c]\<rparr>)"

definition traced_api :: "env_trace alembic_api" where
  "traced_api =
     \<lparr>al_config_file = (\<lambda>_. Some ''alembic.ini''), al_file_config = (\<lambda>f. env_traced (Call_file_config f) (\<lambda>_. ())),
      al_is_offline = env_traced Call_is_offline et_offline,
      al_main_option = (\<lambda>k. env_traced (Call_main_option k) (\<lambda>_. Some ''url'')),
      al_configure = (\<lambda>c. env_traced (Call_configure c) (\<lambda>_. ())), al_begin = env_traced Call_begin (\<lambda>_. ()),
      al_exit = (\<lambda>e. env_traced (Call_exit e) (\<lambda>_. ())), al_run_migrations = env_traced Call_run_migrations (\<lambda>_. ()),
      al_engine = env_traced Call_engine (\<lambda>_. 1), al_connect = (\<lambda>e. env_traced (Call_connect e) (\<lambda>_. 2)),
      al_close = (\<lambda>c. env_traced (Call_close c) (\<lambda>_. ())), al_dispose = (\<lambda>e. env_traced (Call_dispose e) (\<lambda>_. ()))\<rparr>"

definition env_start :: "bool \<Rightarrow> nat \<Rightarrow> env_trace" where
  "env_start offline k = \<lparr>et_calls = [], et_fails = k, et_offline = offline\<rparr>"

definition env_calls :: "bool \<Rightarrow> nat \<Rightarrow> env_call list" where
  "env_calls offline k = et_calls (snd (env_main traced_api (env_start offline k)))"

lemmas env_run_defs = env_calls_def env_main_def read_logging_config_def run_migrations_offline_def run_migrations_online_def
  run_async_migrations_def do_run_migrations_def in_transaction_def env_start_def traced_api_def env_traced_def
  io_bind_def io_finally_def io_try_def io_gets_def io_return_def io_raise_def

text \<open>C30. One call of a migration run raises, or none does (its number is k). Online, the connection is
  closed exactly if it was opened, the transaction is left with what the migrations raised, and the
  engine is disposed only if everything before returned: a migration that raises leaves its pool open.
  Offline, no engine is made and nothing is connected.\<close>

theorem migration_run_cleans_up:
  "(Call_close 2 \<in> set (env_calls False k)) = (3 < k) \<and>
   (Call_exit (Some OtherException) \<in> set (env_calls False k)) = (k = 6) \<and>
   (Call_exit None \<in> set (env_calls False k)) = (6 < k) \<and>
   (Call_dispose 1 \<in> set (env_calls False k)) = (8 < k) \<and>
   (fst (env_main traced_api (env_start False k)) = Inr ()) = (9 < k) \<and>
   Call_engine \<notin> set (env_calls True k) \<and> (\<forall>e. Call_connect e \<notin> set (env_calls True k)) \<and>
   (Call_configure (Offline_config (Some ''url'') True ''named'') \<in> set (env_calls True k)) = (2 < k)"
proof -
  have "k = 0 \<or> k = 1 \<or> k = 2 \<or> k = 3 \<or> k = 4 \<or> k = 5 \<or> k = 6 \<or> k = 7 \<or> k = 8 \<or> k = 9 \<or> 10 \<le> k" by arith
  then show ?thesis by (elim disjE) (simp_all add: env_run_defs)
qed

section \<open>Up and down\<close>

lemma run_upgrade:
  assumes "without_table sc"
  shows "run_ddls upgrade sc = Inr
    \<lparr>sc_tables = (''notifications'', migration_columns) # sc_tables sc,
     sc_uniques = (''uq_notifications_idempotency_key'', ''notifications'', [''idempotency_key'']) # sc_uniques sc,
     sc_indexes =
       [(''ix_notifications_event_type'', ''notifications'', [''event_type'']),
        (''ix_notifications_channel'', ''notifications'', [''channel'']),
        (''ix_notifications_worker'', ''notifications'', [''status'', ''priority'', ''next_retry_time''])] @ sc_indexes sc\<rparr>"
  using assms
  by (simp add: upgrade_def without_table_def table_names_def orm_uniques_def orm_indexes_def relation_names_def
      has_columns_def migration_columns_def plain_column_def)

lemma filter_absent_name: "k \<notin> set (map f xs) \<Longrightarrow> filter (\<lambda>e. f e \<noteq> k) xs = xs"
  by (induction xs) auto

lemma run_downgrade:
  assumes "without_table sc"
  shows "run_ddls downgrade
    \<lparr>sc_tables = (''notifications'', cs) # sc_tables sc,
     sc_uniques = (''uq_notifications_idempotency_key'', ''notifications'', us) # sc_uniques sc,
     sc_indexes =
       [(''ix_notifications_event_type'', ''notifications'', es),
        (''ix_notifications_channel'', ''notifications'', ds),
        (''ix_notifications_worker'', ''notifications'', ws)] @ sc_indexes sc\<rparr> = Inr sc"
proof -
  have names: "nm \<notin> set (map fst (sc_indexes sc))" "nm \<notin> set (map fst (sc_tables sc))"
    if "nm \<in> set table_names" for nm
    using assms that by (auto simp: without_table_def relation_names_def)
  have owners: "''notifications'' \<notin> set (map (\<lambda>e. fst (snd e)) (sc_uniques sc))"
    "''notifications'' \<notin> set (map (\<lambda>e. fst (snd e)) (sc_indexes sc))"
    using assms by (auto simp: without_table_def)
  note keep = filter_absent_name [OF names(1)] filter_absent_name [OF names(2)]
    filter_absent_name [OF owners(1)] filter_absent_name [OF owners(2)]
  have "filter (\<lambda>e. fst e \<noteq> nm \<or> fst (snd e) \<noteq> ''notifications'') (sc_uniques sc) = sc_uniques sc" for nm
    using owners(1) by (intro filter_True) force
  with keep show ?thesis
    by (simp add: downgrade_def table_names_def orm_uniques_def orm_indexes_def)
qed

text \<open>C29. Up and down again is the identity: on every schema that has none of the names of the service's
  table, the upgrade runs through, the downgrade after it restores the schema, and a second upgrade or
  a downgrade of what is not there raises.\<close>

theorem downgrade_undoes_upgrade:
  assumes "without_table sc"
  shows "\<exists>sc'. run_ddls upgrade sc = Inr sc' \<and> run_ddls downgrade sc' = Inr sc \<and>
    run_ddls upgrade sc' = Inl OtherException \<and> run_ddls downgrade sc = Inl OtherException"
proof -
  obtain sc' where up: "run_ddls upgrade sc = Inr sc'" and down: "run_ddls downgrade sc' = Inr sc"
    and names: "''notifications'' \<in> set (relation_names sc')"
    using run_upgrade [OF assms] run_downgrade [OF assms] by (auto simp: relation_names_def)
  from names have "run_ddls upgrade sc' = Inl OtherException" by (simp add: upgrade_def)
  moreover have "run_ddls downgrade sc = Inl OtherException"
    using assms by (simp add: downgrade_def without_table_def table_names_def orm_indexes_def relation_names_def)
  ultimately show ?thesis using up down by blast
qed

text \<open>A schema with Alembic's own table.\<close>

definition fresh_schema :: schema where
  "fresh_schema =
     \<lparr>sc_tables = [(''alembic_version'', [(plain_column ''version_num'' (String_of 32) False)\<lparr>cl_primary := True\<rparr>])],
      sc_uniques = [], sc_indexes = []\<rparr>"

lemma fresh_schema_free: "without_table fresh_schema"
  by code_simp

theorem downgrade_undoes_upgrade_witness:
  "\<exists>sc'. run_ddls upgrade fresh_schema = Inr sc' \<and> run_ddls downgrade sc' = Inr fresh_schema"
  using downgrade_undoes_upgrade [OF fresh_schema_free] by blast

section \<open>The start of the service and the migration\<close>

text \<open>C28. The table is made twice over: a start of the service on a fresh schema makes the columns,
  constraints and indexes of the migration, so the migration can no longer run; after the migration a
  start changes nothing.\<close>

theorem start_blocks_migration:
  assumes "without_table sc"
  shows "\<exists>started migrated. create_all sc = Inr started \<and> run_ddls upgrade started = Inl OtherException \<and>
    run_ddls upgrade sc = Inr migrated \<and> create_all migrated = Inr migrated \<and>
    map (\<lambda>(t, cs). (t, map table_part cs)) (sc_tables started) =
      map (\<lambda>(t, cs). (t, map table_part cs)) (sc_tables migrated) \<and>
    sc_uniques started = sc_uniques migrated \<and> sc_indexes started = sc_indexes migrated"
proof -
  let ?started = "\<lparr>sc_tables = (''notifications'', orm_columns) # sc_tables sc,
     sc_uniques = (''uq_notifications_idempotency_key'', ''notifications'', [''idempotency_key'']) # sc_uniques sc,
     sc_indexes =
       [(''ix_notifications_event_type'', ''notifications'', [''event_type'']),
        (''ix_notifications_channel'', ''notifications'', [''channel'']),
        (''ix_notifications_worker'', ''notifications'', [''status'', ''priority'', ''next_retry_time''])] @ sc_indexes sc\<rparr>"
  have "create_all sc = Inr ?started"
    using assms
    by (simp add: create_all_def without_table_def table_names_def orm_uniques_def orm_indexes_def relation_names_def
        has_columns_def orm_columns_def plain_column_def)
  moreover have "run_ddls upgrade ?started = Inl OtherException" by (simp add: upgrade_def relation_names_def)
  moreover have "map table_part orm_columns = map table_part migration_columns"
    by (simp add: migration_columns_def orm_columns_def table_part_def plain_column_def)
  ultimately show ?thesis
    using run_upgrade [OF assms] by (auto simp: create_all_def)
qed

theorem start_blocks_migration_witness:
  "\<exists>started. create_all fresh_schema = Inr started \<and> run_ddls upgrade started = Inl OtherException"
  using start_blocks_migration [OF fresh_schema_free] by blast

end
