(* ===== verification/Retry_Expiry.thy ===== *)
theory Retry_Expiry
  imports Retry_Publishing Retry_Policy Reference_Services
begin

text \<open>
  When a retry message comes back. All retries wait in one queue, \<open>notification.retry\<close>, each with its
  own expiration. RabbitMQ documents that a message with an expiration of its own is dead-lettered when
  it has expired \<^emph>\<open>and\<close> is at the head of its queue; so the queue gives its messages back in the order
  they were published, and a short delay behind a long one waits for the long one.
\<close>

text \<open>
  The messages with the seconds at which they were published, in that order, and the seconds at which
  they are dead-lettered: none before it expires, none before one ahead of it.
\<close>

definition expire_in_order :: "(int \<times> amqp_message) list \<Rightarrow> int list \<Rightarrow> bool" where
  "expire_in_order msgs released \<longleftrightarrow> length released = length msgs \<and> sorted released \<and>
     list_all2 (\<lambda>(t, m) r. case m_expiration m of None \<Rightarrow> True | Some d \<Rightarrow> t + d \<le> r) msgs released"

text \<open>The earliest such times, when each message is dead-lettered as soon as it may be.\<close>

fun earliest_release :: "int \<Rightarrow> (int \<times> amqp_message) list \<Rightarrow> int list" where
  "earliest_release now [] = []"
| "earliest_release now ((t, m) # ms) =
     (let r = (case m_expiration m of None \<Rightarrow> max now t | Some d \<Rightarrow> max now (t + d))
      in r # earliest_release r ms)"

lemma earliest_release_after: "r \<in> set (earliest_release now ms) \<Longrightarrow> now \<le> r"
  by (induction now ms rule: earliest_release.induct) (fastforce simp: Let_def split: option.splits)+

lemma earliest_release_in_order: "expire_in_order ms (earliest_release now ms)"
proof (induction now ms rule: earliest_release.induct)
  case (2 now t m ms)
  let ?r = "case m_expiration m of None \<Rightarrow> max now t | Some d \<Rightarrow> max now (t + d)"
  from 2 [OF refl] earliest_release_after [of _ ?r ms] show ?case
    by (auto simp: expire_in_order_def Let_def split: option.split)
qed (simp add: expire_in_order_def)

lemma expire_in_order_at:
  assumes "expire_in_order msgs rel" "k < length msgs" "msgs ! k = (t, m)" "m_expiration m = Some d"
  shows "t + d \<le> rel ! k"
proof -
  let ?P = "\<lambda>(t, m) r. case m_expiration m of None \<Rightarrow> True | Some d \<Rightarrow> t + d \<le> r"
  have "list_all2 ?P msgs rel" using assms(1) by (simp add: expire_in_order_def)
  from list_all2_nthD [OF this assms(2)] assms(3,4) show ?thesis by simp
qed

text \<open>C21. A short retry waits behind a long one: the first retry of an OTP has a delay of five seconds,
  but when it is published behind the third retry of any other event, it comes back no earlier than a
  minute after that one was published, and it is no earlier than any message published before it.\<close>

theorem otp_retry_waits_behind_others:
  assumes order: "expire_in_order (xs @ (t, retry_message i d) # ys @ (u, retry_message j e) # zs) released"
    and other: "ev \<noteq> PAYMENT_OTP_REQUESTED"
      "get_retry_delay 3 (base_delay (retry_config_for ev)) (max_delay (retry_config_for ev))
        (use_jitter (retry_config_for ev)) h = (Inr d, h')"
    and otp: "get_retry_delay 1 (base_delay (retry_config_for PAYMENT_OTP_REQUESTED))
        (max_delay (retry_config_for PAYMENT_OTP_REQUESTED))
        (use_jitter (retry_config_for PAYMENT_OTP_REQUESTED)) g = (Inr e, g')"
  shows "e = 5 \<and> t + 60 \<le> released ! Suc (length xs + length ys) \<and>
    (\<forall>k \<le> length xs + length ys. released ! k \<le> released ! Suc (length xs + length ys))"
proof -
  let ?msgs = "xs @ (t, retry_message i d) # ys @ (u, retry_message j e) # zs"
  have "e = 5" using otp by (simp add: get_retry_delay_def io_return_def)
  moreover have "60 \<le> d"
  proof -
    obtain d' h2 where "get_retry_delay 3 (base_delay (retry_config_for ev)) (max_delay (retry_config_for ev))
        (use_jitter (retry_config_for ev)) h = (Inr d', h2)" "window_low (retry_config_for ev) 3 \<le> d'"
      by (rule get_retry_delay_window [of 3 "retry_config_for ev" h]) simp_all
    with other show ?thesis by (simp add: window_low_def)
  qed
  moreover have "t + d \<le> released ! length xs"
    by (rule expire_in_order_at [OF order, where m = "retry_message i d"]) (simp_all add: nth_append retry_message_def)
  moreover have mono: "\<forall>k \<le> length xs + length ys. released ! k \<le> released ! Suc (length xs + length ys)"
    using order by (auto simp: expire_in_order_def sorted_iff_nth_mono)
  moreover from mono [rule_format, of "length xs"] calculation(2,3)
  have "t + 60 \<le> released ! Suc (length xs + length ys)" by simp
  ultimately show ?thesis by blast
qed

theorem otp_retry_waits_behind_others_witness:
  "\<exists>d. earliest_release 0 [(0, retry_message 1 d), (1, retry_message 2 5)] ! 1 \<ge> 60"
proof -
  let ?delay = "\<lambda>ev k. get_retry_delay k (base_delay (retry_config_for ev)) (max_delay (retry_config_for ev))
    (use_jitter (retry_config_for ev)) ref_host"
  obtain d h' where d: "?delay ORDER_CREATED 3 = (Inr d, h')"
    by (rule get_retry_delay_window [of 3 "retry_config_for ORDER_CREATED" ref_host]) simp_all
  have e: "?delay PAYMENT_OTP_REQUESTED 1 = (Inr 5, ref_host)" by (simp add: get_retry_delay_def io_return_def)
  have "ORDER_CREATED \<noteq> PAYMENT_OTP_REQUESTED" by simp
  from otp_retry_waits_behind_others [OF earliest_release_in_order [of "[] @ (0, retry_message 1 d) # [] @ (1, retry_message 2 5) # []" 0]
      this d e]
  show ?thesis by (intro exI [of _ d]) simp
qed

end
