(* ===== verification/Test_Suite.thy ===== *)
theory Test_Suite
  imports Sample_Data
begin

text \<open>
  The repository's tests (\<open>src/tests\<close>), each under its own name as a theorem about the model: what they
  assert of one run with mocks holds of the definitions. The mocks of Redis, of the repository and of
  the queue are the reference services here, the mocks of providers are constant ones; where a test
  draws a hundred random numbers the theorem has all of them.
\<close>

section \<open>test_event_channel.py\<close>

lemma test_payment_failed_has_all_three_channels: "{EMAIL, SMS, PUSH} \<subseteq> set (event_channels PAYMENT_FAILED)"
  by simp

lemma test_otp_only_sms: "event_channels PAYMENT_OTP_REQUESTED = [SMS]"
  by simp

lemma test_order_created_no_sms:
  "SMS \<notin> set (event_channels ORDER_CREATED) \<and> {EMAIL, PUSH} \<subseteq> set (event_channels ORDER_CREATED)"
  by simp

lemma test_all_event_types_have_mapping: "0 < length (event_channels ev)"
  by (cases ev) simp_all

section \<open>test_retry_logic.py\<close>

lemma test_bulk_retry_windows:
  "get_retry_delay 1 15 3600 False h = (Inr 15, h)" "get_retry_delay 2 15 3600 False h = (Inr 30, h)"
  "get_retry_delay 3 15 3600 False h = (Inr 60, h)"
  by (simp_all add: get_retry_delay_def io_return_def)

lemma test_otp_retry_windows:
  "get_retry_delay 1 5 30 False h = (Inr 5, h)" "get_retry_delay 2 5 30 False h = (Inr 10, h)"
  "get_retry_delay 3 5 30 False h = (Inr 20, h)"
  by (simp_all add: get_retry_delay_def io_return_def)

text \<open>A draw from a window with both ends.\<close>

definition draws :: "(host, int) io \<Rightarrow> int \<Rightarrow> int \<Rightarrow> host \<Rightarrow> bool" where
  "draws m low high h \<longleftrightarrow> (\<exists>d h'. m h = (Inr d, h') \<and> low \<le> d \<and> d \<le> high)"

lemma draws_randint: "low \<le> high \<Longrightarrow> draws (host_randint low high) low high h"
  unfolding draws_def by (rule host_randint_range [of low high h]) blast+

lemma test_jitter_within_correct_window:
  "draws (get_retry_delay 1 15 3600 True) 15 30 h" "draws (get_retry_delay 2 15 3600 True) 30 60 h"
  "draws (get_retry_delay 3 15 3600 True) 60 120 h"
  using draws_randint [of 15 30 h] draws_randint [of 30 60 h] draws_randint [of 60 120 h]
  by (simp_all add: get_retry_delay_def Let_def)

lemma test_delay_capped_at_max:
  assumes "1 \<le> retry"
  shows "\<exists>d. get_retry_delay retry 15 30 False h = (Inr d, h) \<and> d \<le> 30"
  using assms by (simp add: get_retry_delay_def Let_def io_return_def)

lemma test_no_jitter_for_otp: "\<not> use_jitter (retry_config_for PAYMENT_OTP_REQUESTED)"
  by code_simp

lemma test_jitter_for_bulk_notifications:
  "use_jitter (retry_config_for ORDER_CREATED)" "use_jitter (retry_config_for PAYMENT_FAILED)"
  "use_jitter (retry_config_for SHIPMENT_DISPATCHED)"
  by code_simp+

lemma test_all_events_max_3_retries: "\<forall>(ev, c) \<in> set RETRY_CONFIG. max_retries c = 3"
  by (simp add: RETRY_CONFIG_def otp_retry_config_def bulk_retry_config_def)

lemma test_base_delays:
  "base_delay (retry_config_for PAYMENT_OTP_REQUESTED) = 5" "base_delay (retry_config_for ORDER_CREATED) = 15"
  "base_delay (retry_config_for PAYMENT_FAILED) = 15"
  by code_simp+

text \<open>The test is called \<open>test_windows_do_not_overlap\<close>; what it asserts is that they share an end.\<close>

lemma test_windows_do_not_overlap: "window_high bulk_retry_config 1 = window_low bulk_retry_config 2"
  by (simp add: window_high_def window_low_def bulk_retry_config_def)

section \<open>test_priority_queue.py\<close>

text \<open>Two calls of \<open>enqueue\<close> one after the other, with the clock in its present century.\<close>

lemma test_otp_processed_before_marketing:
  assumes "\<bar>t - u\<bar> < 10 ^ 12"
  shows "queue_score 1 t < queue_score 4 u"
  using queue_score_less [OF assms] by simp

lemma test_fifo_within_same_priority: "t < u \<Longrightarrow> queue_score p t < queue_score p u"
  by (simp add: queue_score_def)

lemma test_score_formula: "queue_score 1 t - 1 * 10 ^ 12 = t"
  by (simp add: queue_score_def)

section \<open>test_idempotency.py\<close>

definition make_payload :: "string \<Rightarrow> notification_create" where
  "make_payload key =
     \<lparr>req_idempotency_key = key, req_source_service = ''order'', req_event_type = ''order_created'',
      req_priority = ''high'',
      req_recipient = \<lparr>email = Some ''john@gmail.com'', phone = None, device_token = Some ''fcm-token-abc''\<rparr>,
      req_content =
        [(''email'', JObj [(''subject'', JStr ''Order confirmed''), (''body'', JStr ''Your order is confirmed.'')]),
         (''push'', JObj [(''title'', JStr ''Order Confirmed''), (''body'', JStr ''Your order is confirmed.'')])]\<rparr>"

lemma make_payload_validated: "validated (make_payload key) ORDER ORDER_CREATED HIGH"
proof -
  have names: "''order'' = str_lower (source_name ORDER)" "''order_created'' = str_lower (event_name ORDER_CREATED)"
    "''high'' = str_lower (priority_name HIGH)" "str_lower ''EMAIL'' = ''email''" "str_lower ''PUSH'' = ''push''"
    by code_simp+
  then show ?thesis
    by (simp add: validated_def serves_def make_payload_def channel_key_def)
qed

lemma make_payload_fits:
  assumes "length key \<le> 200" "text_ok key" "c \<in> set (event_channels ORDER_CREATED)"
  shows "fits (make_payload key) ORDER ORDER_CREATED HIGH c"
proof -
  have names: "str_lower ''EMAIL'' = ''email''" "str_lower ''PUSH'' = ''push''" by code_simp+
  from assms names show ?thesis
    by (auto simp: fits_def request_args_def row_of_args_def storable_def varchar_255_def text_ok_def
        channel_idem_key_def channel_key_def make_payload_def)
qed

lemma test_first_request_is_processed:
  assumes "all_up ref_services w" "w_kv ref_services w (redis_idem_key key) = None"
    and "length key \<le> 200" "text_ok key"
    and "\<And>c. \<not> key_taken (w_rows ref_services w) (channel_idem_key key c)"
  shows "\<exists>ns w'. create_notification ref_services (make_payload key) w = (Inr (ns, False), w') \<and> 0 < length ns"
proof -
  have key: "req_idempotency_key (make_payload key) = key" by (simp add: make_payload_def)
  obtain ns w' where "create_notification ref_services (make_payload key) w = (Inr (ns, False), w')"
    "created_all ref_services (make_payload key) ORDER ORDER_CREATED HIGH (event_channels ORDER_CREATED) w ns w'"
    by (rule create_notification_up [OF ref_services_laws make_payload_validated assms(1)])
      (use assms(2,5) make_payload_fits [OF assms(3,4)] in \<open>auto simp: key\<close>)
  moreover from this(2) have "length ns = 2" by (auto simp: created_all_def dest: list_all2_lengthD)
  ultimately show ?thesis by auto
qed

lemma test_duplicate_request_is_blocked:
  assumes "redis_up ref_services w" "w_kv ref_services w (redis_idem_key key) \<noteq> None"
  shows "\<exists>w'. create_notification ref_services (make_payload key) w = (Inr ([], True), w')"
proof -
  have key: "req_idempotency_key (make_payload key) = key" by (simp add: make_payload_def)
  show ?thesis
    by (rule create_notification_duplicate [OF ref_services_laws assms(1), of "make_payload key"])
      (use assms(2) in \<open>auto simp: key\<close>)
qed

text \<open>As with the test's mocks, which know no key at either call.\<close>

lemma test_different_keys_both_processed:
  assumes "all_up ref_services w" "w_kv ref_services w = (\<lambda>_. None)" "w_rows ref_services w = (\<lambda>_. None)"
    and "k = ''key-001'' \<or> k = ''key-002''"
  shows "\<exists>ns w'. create_notification ref_services (make_payload k) w = (Inr (ns, False), w')"
proof -
  have "length k \<le> 200" "text_ok k" using assms(4) by (auto simp: text_ok_def)
  with test_first_request_is_processed [of w k] assms(1-3) show ?thesis by (auto simp: key_taken_def)
qed

section \<open>test_partial_failure.py\<close>

definition make_notification :: "event_type_t \<Rightarrow> int \<Rightarrow> notification" where
  "make_notification ev retries =
     (row_with PENDING retries)\<lparr>event_type := event_value ev, recipient := ''+919876543210'',
       content := JObj [(''body'', JStr ''Payment failed'')], priority := 2\<rparr>"

lemma make_notification_fields [simp]:
  "nid (make_notification ev k) = 1" "retry_count (make_notification ev k) = k"
  "channel (make_notification ev k) = channel_value SMS" "content (make_notification ev k) = JObj [(''body'', JStr ''Payment failed'')]"
  by (simp_all add: make_notification_def)

lemma make_notification_inv:
  assumes "ev = PAYMENT_FAILED \<or> ev = PAYMENT_OTP_REQUESTED" "0 \<le> k" "k \<le> 100"
  shows "row_inv (make_notification ev k)"
proof -
  from row_with_inv [of PENDING k] assms(2,3)
  have old: "row_origin (row_with PENDING k)" "row_progress (row_with PENDING k)" "storable (row_with PENDING k)"
    by (simp_all add: row_inv_def)
  have "idempotency_key (make_notification ev k) = channel_idem_key ''k1'' SMS"
    by (simp add: make_notification_def row_with_def sample_row_def channel_idem_key_def)
  moreover have "source_service (make_notification ev k) = source_value PAYMENT"
    by (simp add: make_notification_def row_with_def sample_row_def)
  moreover have "priority (make_notification ev k) = priority_value HIGH" by (simp add: make_notification_def)
  moreover have "event_type (make_notification ev k) = event_value ev" "SMS \<in> set (event_channels ev)"
    "recipient (make_notification ev k) \<noteq> []"
    using assms(1) by (auto simp: make_notification_def)
  ultimately have "row_origin (make_notification ev k)"
    unfolding row_origin_def make_notification_fields by blast
  moreover have "row_progress (make_notification ev k)"
    using old(2) by (simp add: row_progress_def make_notification_def)
  moreover have "storable (make_notification ev k)"
    using old(3) by (simp add: storable_def make_notification_def varchar_255_def text_ok_def)
  ultimately show ?thesis by (simp add: row_inv_def)
qed

text \<open>\<open>service.dispatch(1)\<close> on the row of a test, with a provider that is down or fails with a code.\<close>

definition provider_that :: "bool \<Rightarrow> notification_error_code \<Rightarrow> mock_state provider" where
  "provider_that healthy e = const_provider SMS healthy (failed_result e)"

lemma reported_failed [simp]: "reported_code (failed_result e) = e" "\<not> pr_success (failed_result e)"
  by (rule reported_code_value) (simp_all add: failed_result_def)

lemma test_dispatch:
  assumes ev: "ev = PAYMENT_FAILED \<or> ev = PAYMENT_OTP_REQUESTED" "0 \<le> k" "k \<le> 100"
    and prov: "providers SMS = Some (provider_that healthy e)"
  shows "\<exists>m w'. dispatch ref_services providers 1 (world_with (make_notification ev k)) = (Inr (), w') \<and>
    w_rows ref_services w' 1 = Some m \<and> decided (decide healthy (failed_result e) k) (make_notification ev k) m \<and>
    w_prov w' = w_prov ref_init"
proof -
  let ?n = "make_notification ev k"
  have ok: "provider_ok (provider_that healthy e)"
    unfolding provider_that_def by (rule const_provider_ok) (auto simp: failed_result_def)
  have ans: "provider_answers (provider_that healthy e) ?n (w_prov (world_with ?n)) healthy (failed_result e)
      (w_prov (world_with ?n))"
    unfolding provider_that_def by (rule const_provider_answers) (simp add: failed_result_def)
  have row: "w_rows ref_services (world_with ?n) 1 = Some ?n" by simp
  obtain w' where "dispatch ref_services providers 1 (world_with ?n) = (Inr (), w')"
    "dispatched ref_services (world_with ?n) ?n healthy (failed_result e) (w_prov (world_with ?n)) w'"
    by (rule dispatch_up [where c = SMS and providers = providers, OF ref_services_laws world_with_up(1) row
        make_notification_inv [OF ev] make_notification_fields(1,3) prov ok ans])
  then show ?thesis by (auto simp: dispatched_def)
qed

text \<open>The SMS provider is down: the row is retrying, and no provider was asked to send.\<close>

lemma test_sms_down_does_not_affect_email:
  assumes "providers SMS = Some (provider_that False PROVIDER_DOWN)"
  shows "\<exists>m w'. dispatch ref_services providers 1 (world_with (make_notification PAYMENT_FAILED 0)) = (Inr (), w') \<and>
    w_rows ref_services w' 1 = Some m \<and> status m = status_value RETRYING \<and> w_prov w' = w_prov ref_init"
  using test_dispatch [of PAYMENT_FAILED 0 providers, OF _ _ _ assms]
  by (fastforce simp: decide_def after_failure_def)

lemma test_non_retryable_error_fails_immediately:
  assumes "providers SMS = Some (provider_that True INVALID_RECIPIENT)"
  shows "\<exists>m w'. dispatch ref_services providers 1 (world_with (make_notification PAYMENT_FAILED 0)) = (Inr (), w') \<and>
    w_rows ref_services w' 1 = Some m \<and> status m = status_value FAILED"
  using test_dispatch [of PAYMENT_FAILED 0 providers, OF _ _ _ assms]
  by (fastforce simp: decide_def)

lemma test_retry_count_increments:
  assumes "providers SMS = Some (provider_that True TIMEOUT)"
  shows "\<exists>m w'. dispatch ref_services providers 1 (world_with (make_notification PAYMENT_FAILED 0)) = (Inr (), w') \<and>
    w_rows ref_services w' 1 = Some m \<and> retry_count m = 1"
  using test_dispatch [of PAYMENT_FAILED 0 providers, OF _ _ _ assms]
  by (fastforce simp: decide_def after_failure_def)

lemma test_exhausted_retries_go_to_failed:
  assumes "providers SMS = Some (provider_that True TIMEOUT)"
  shows "\<exists>m w'. dispatch ref_services providers 1 (world_with (make_notification PAYMENT_OTP_REQUESTED 3)) = (Inr (), w') \<and>
    w_rows ref_services w' 1 = Some m \<and> status m = status_value FAILED"
  using test_dispatch [of PAYMENT_OTP_REQUESTED 3 providers, OF _ _ _ assms]
  by (fastforce simp: decide_def after_failure_def)

end
