(* ===== verification/Ownership.thy ===== *)
theory Ownership
  imports Coroutine "HOL-Library.Multiset"
begin

text \<open>
  Schedules that run every task to its end, and tasks that own a part of the state: each task holds
  something no other task touches while it does, and what the steps of a task hand over is recorded in
  its holding. The locale \<open>ownership\<close> lifts what every task does with its own part to the pool.
\<close>

section \<open>Schedules\<close>

text \<open>The steps of a schedule that starts, drops and disturbs nothing.\<close>

inductive resume_step :: "'s pool \<Rightarrow> 's pool \<Rightarrow> bool" where
  resume: "k < length ts \<Longrightarrow> ts ! k = Awaits f \<Longrightarrow> f s = (c, t) \<Longrightarrow> resume_step (ts, s) (ts[k := c], t)"

inductive_cases resume_stepE: "resume_step p q"

lemma resume_step_pool: "resume_step p q \<Longrightarrow> pool_step start out p q"
  by (auto elim!: resume_step.cases intro: pool_step.resumed)

lemma resume_step_length: "resume_step p q \<Longrightarrow> length (fst q) = length (fst p)"
  by (auto elim!: resume_stepE)

lemma resume_steps_length: "resume_step\<^sup>*\<^sup>* p q \<Longrightarrow> length (fst q) = length (fst p)"
  by (induction rule: rtranclp_induct) (simp_all add: resume_step_length)

primrec finished :: "('s, 'a) coroutine \<Rightarrow> bool" where
  "finished (Finished r) = True"
| "finished (Awaits f) = False"

definition all_finished :: "'s pool \<Rightarrow> bool" where
  "all_finished p \<longleftrightarrow> (\<forall>c \<in> set (fst p). finished c)"

text \<open>A pool with an unfinished task has a step.\<close>

lemma resume_progress: "all_finished p \<or> (\<exists>q. resume_step p q)"
proof (cases "all_finished p")
  case False
  then obtain c where "c \<in> set (fst p)" "\<not> finished c" by (auto simp: all_finished_def)
  then obtain k f where "k < length (fst p)" "fst p ! k = Awaits f"
    by (metis finished.simps(1) in_set_conv_nth coroutine.exhaust)
  then show ?thesis by (metis resume_step.resume prod.collapse)
qed simp

text \<open>
  Every step replaces a task by one that is closer to its end. The tasks that a step may leave have
  no bound in common, so the descent is well-founded rather than counted, and that of a pool is its
  multiset extension.
\<close>

definition left_by :: "('s, 'a) coroutine \<Rightarrow> ('s, 'a) coroutine \<Rightarrow> bool" where
  "left_by c d \<longleftrightarrow> (\<exists>f s t. d = Awaits f \<and> f s = (c, t))"

lemma left_by_wf: "wfp (left_by :: ('s, 'a) coroutine \<Rightarrow> _)"
  unfolding wfp_def
proof (rule wfUNIVI)
  fix P :: "('s, 'a) coroutine \<Rightarrow> bool" and c
  assume "\<forall>d. (\<forall>c. (c, d) \<in> {(c, d). left_by c d} \<longrightarrow> P c) \<longrightarrow> P d"
  then have step: "P d" if "\<And>c. left_by c d \<Longrightarrow> P c" for d using that by blast
  show "P c"
  proof (induction c rule: coroutine_steps_induct)
    case (Finished r)
    show ?case by (rule step) (simp add: left_by_def)
  next
    case (Awaits g)
    show ?case by (rule step) (use Awaits in \<open>auto simp: left_by_def\<close>)
  qed
qed

lemma resume_step_descends:
  assumes "resume_step p q"
  shows "multp left_by (mset (fst q)) (mset (fst p))"
  using assms
proof cases
  case (resume k ts f s c t)
  have "multp left_by (mset ts - {#Awaits f#} + {#c#}) (mset ts - {#Awaits f#} + {#Awaits f#})"
    using resume(5) by (intro one_step_implies_multp) (auto simp: left_by_def)
  moreover have "Awaits f \<in># mset ts" using resume(3,4) nth_mem_mset by metis
  ultimately show ?thesis using resume by (simp add: mset_update)
qed

lemma resume_step_wf: "wfp (\<lambda>q p. resume_step p q)"
proof -
  have "wf (inv_image {(M, N). multp left_by M N} (\<lambda>p :: 's pool. mset (fst p)))"
    using wfp_multp [OF left_by_wf] unfolding wfp_def by (rule wf_inv_image)
  then show ?thesis
    unfolding wfp_def by (rule wf_subset) (auto dest!: resume_step_descends)
qed

text \<open>So every schedule ends, and it ends with every task finished.\<close>

lemma schedules_end: "\<not> (\<forall>j. resume_step (p j) (p (Suc j)))"
  using resume_step_wf unfolding wfp_def wf_iff_no_infinite_down_chain by auto

lemma schedule_completes: "\<exists>q. resume_step\<^sup>*\<^sup>* p q \<and> all_finished q"
proof (induction p rule: wfp_induct_rule [OF resume_step_wf])
  case (1 p)
  then show ?case
    using resume_progress [of p] by (meson converse_rtranclp_into_rtranclp rtranclp.rtrancl_refl)
qed

section \<open>Tasks that own something\<close>

text \<open>
  \<open>co_owns J rely guar Q c h s\<close>: suspended in \<open>s\<close> with the holding \<open>h\<close>, the task is resumed in any
  state \<open>t\<close> with \<open>J t\<close> that the others may have led to while they respected the holding; each of its
  steps ends with a holding that \<open>guar\<close> allows it, and it returns with \<open>Q\<close>.
\<close>

primrec co_owns ::
  "('s \<Rightarrow> bool) \<Rightarrow> ('h \<Rightarrow> 's \<Rightarrow> 's \<Rightarrow> bool) \<Rightarrow> ('h \<Rightarrow> 's \<Rightarrow> 'h \<Rightarrow> 's \<Rightarrow> bool) \<Rightarrow>
   ('a \<Rightarrow> 'h \<Rightarrow> 's \<Rightarrow> bool) \<Rightarrow> ('s, 'a) coroutine \<Rightarrow> 'h \<Rightarrow> 's \<Rightarrow> bool"
where
  "co_owns J rely guar Q (Finished r) = (\<lambda>h s. \<exists>x. r = Inr x \<and> Q x h s)"
| "co_owns J rely guar Q (Awaits f) = (\<lambda>h s. \<forall>t. rely h s t \<longrightarrow> J t \<longrightarrow>
     (case map_prod (co_owns J rely guar Q) id (f t) of
        (rest, u) \<Rightarrow> \<exists>h'. guar h t h' u \<and> rest h' u))"

lemma co_owns_Awaits [simp]:
  "co_owns J rely guar Q (Awaits f) h s \<longleftrightarrow>
     (\<forall>t c u. rely h s t \<longrightarrow> J t \<longrightarrow> f t = (c, u) \<longrightarrow> (\<exists>h'. guar h t h' u \<and> co_owns J rely guar Q c h' u))"
proof -
  have "(case map_prod (co_owns J rely guar Q) id (f t) of (rest, u) \<Rightarrow> \<exists>h'. guar h t h' u \<and> rest h' u) \<longleftrightarrow>
      (\<forall>c u. f t = (c, u) \<longrightarrow> (\<exists>h'. guar h t h' u \<and> co_owns J rely guar Q c h' u))" for t
    by (cases "f t") simp
  then show ?thesis by (simp only: co_owns.simps) blast
qed

declare co_owns.simps(2) [simp del]

lemma co_owns_step:
  assumes "\<And>t r u. rely h s t \<Longrightarrow> J t \<Longrightarrow> m t = (r, u) \<Longrightarrow> \<exists>x h'. r = Inr x \<and> guar h t h' u \<and> Q x h' u"
  shows "co_owns J rely guar Q (co_step m) h s"
  using assms by (fastforce simp: co_step_def split: prod.splits)

lemma co_owns_return: "Q x h s \<Longrightarrow> co_owns J rely guar Q (co_return x) h s"
  by (simp add: co_return_def)

lemma co_owns_bind:
  assumes "co_owns J rely guar Q c h s" "\<And>x k t. Q x k t \<Longrightarrow> co_owns J rely guar Q' (f x) k t"
  shows "co_owns J rely guar Q' (co_bind c f) h s"
  using assms(1)
proof (induction c arbitrary: h s rule: coroutine_steps_induct)
  case (Finished r)
  then show ?case using assms(2) by auto
next
  case (Awaits g)
  have "\<exists>h'. guar h t h' u \<and> co_owns J rely guar Q' (co_bind c f) h' u"
    if "rely h s t" "J t" "g t = (c, u)" for t c u
    using Awaits.prems that Awaits.IH [OF that(3)] by fastforce
  then show ?case by (auto split: prod.splits)
qed

lemma co_owns_try:
  assumes "co_owns J rely guar Q c h s"
  shows "co_owns J rely guar Q (co_try c handler) h s"
  using assms
proof (induction c arbitrary: h s rule: coroutine_steps_induct)
  case (Awaits g)
  have "\<exists>h'. guar h t h' u \<and> co_owns J rely guar Q (co_try c handler) h' u"
    if "rely h s t" "J t" "g t = (c, u)" for t c u
    using Awaits.prems that Awaits.IH [OF that(3)] by fastforce
  then show ?case by (auto split: prod.splits)
qed auto

locale ownership =
  fixes I :: "'h list \<Rightarrow> 's \<Rightarrow> bool" and J :: "'s \<Rightarrow> bool"
    and rely :: "'h \<Rightarrow> 's \<Rightarrow> 's \<Rightarrow> bool" and guar :: "'h \<Rightarrow> 's \<Rightarrow> 'h \<Rightarrow> 's \<Rightarrow> bool"
    and Q :: "'h \<Rightarrow> 's \<Rightarrow> bool"
  assumes local_part: "I hs s \<Longrightarrow> J s"
    and reflexive: "rely h s s"
    and transitive: "rely h s t \<Longrightarrow> rely h t u \<Longrightarrow> rely h s u"
    and kept: "I hs s \<Longrightarrow> k < length hs \<Longrightarrow> guar (hs ! k) s h t \<Longrightarrow> I (hs[k := h]) t"
    and respected: "I hs s \<Longrightarrow> k < length hs \<Longrightarrow> guar (hs ! k) s h t \<Longrightarrow>
      j < length hs \<Longrightarrow> j \<noteq> k \<Longrightarrow> rely (hs ! j) s t"
    and result_kept: "rely h s t \<Longrightarrow> Q h s \<Longrightarrow> Q h t"
begin

abbreviation owns :: "('s, unit) coroutine \<Rightarrow> 'h \<Rightarrow> 's \<Rightarrow> bool" where
  "owns \<equiv> co_owns J rely guar (\<lambda>_. Q)"

definition pool_owns :: "'h list \<Rightarrow> 's pool \<Rightarrow> bool" where
  "pool_owns hs p \<longleftrightarrow> I hs (snd p) \<and> length hs = length (fst p) \<and>
     (\<forall>k < length hs. owns (fst p ! k) (hs ! k) (snd p))"

lemma owns_later: "owns c h s \<Longrightarrow> rely h s t \<Longrightarrow> owns c h t"
  by (cases c) (auto intro: transitive result_kept)

lemma pool_owns_step:
  assumes "resume_step p q" "pool_owns hs p"
  shows "\<exists>hs'. pool_owns hs' q"
  using assms(1)
proof cases
  case (resume k ts f s c t)
  from assms(2) resume(1) have I: "I hs s" and len: "length hs = length ts"
    and own: "\<forall>j < length hs. owns (ts ! j) (hs ! j) s" by (simp_all add: pool_owns_def)
  have "owns (Awaits f) (hs ! k) s" using own len resume(3,4) by metis
  with local_part [OF I] resume(5) reflexive [of "hs ! k" s] obtain h where
    h: "guar (hs ! k) s h t" "owns c h t" unfolding co_owns_Awaits by blast
  have k: "k < length hs" using resume(3) len by simp
  have "owns (ts[k := c] ! j) (hs[k := h] ! j) t" if "j < length hs" for j
    using that h(2) own len owns_later [OF _ respected [OF I k h(1) that]] by (cases "j = k") auto
  with kept [OF I k h(1)] len resume(2) have "pool_owns (hs[k := h]) q" by (simp add: pool_owns_def)
  then show ?thesis by blast
qed

lemma pool_owns_steps:
  "resume_step\<^sup>*\<^sup>* p q \<Longrightarrow> pool_owns hs p \<Longrightarrow> \<exists>hs'. pool_owns hs' q"
proof (induction rule: rtranclp_induct)
  case (step q r)
  then show ?case using pool_owns_step [OF step.hyps(2)] by blast
qed blast

lemma pool_owns_finished:
  assumes "pool_owns hs p" "all_finished p"
  shows "I hs (snd p) \<and> length hs = length (fst p) \<and> (\<forall>h \<in> set hs. Q h (snd p))"
proof -
  have "Q (hs ! k) (snd p)" if k: "k < length hs" for k
  proof -
    from assms k have own: "owns (fst p ! k) (hs ! k) (snd p)" and "finished (fst p ! k)"
      by (simp_all add: pool_owns_def all_finished_def)
    then show ?thesis by (cases "fst p ! k") auto
  qed
  with assms(1) show ?thesis by (auto simp: pool_owns_def in_set_conv_nth)
qed

end

end
