(* ===== verification/Parallel_Workers.thy ===== *)
theory Parallel_Workers
  imports Interleaved_Handlers Ownership Worker_Liveness
begin

text \<open>
  The pool of workers on one queue, under any schedule of its awaits. What a worker holds is the id it
  took from the queue: no other worker gets this id, so none touches its row, and the ids in the queue
  and in the hands of the workers stay the same altogether.
\<close>

section \<open>What a worker holds\<close>

text \<open>Nothing; an id it has taken; an id whose notification it has handed to the provider.\<close>

datatype holding = Idle | Holding int | Delivered int

fun held :: "holding \<Rightarrow> int list" where
  "held Idle = []"
| "held (Holding i) = [i]"
| "held (Delivered i) = [i]"

fun delivered :: "holding \<Rightarrow> bool" where
  "delivered (Delivered i) = True"
| "delivered _ = False"

definition services_up :: "('d, 'r, 'q) services \<Rightarrow> ('d, 'r, 'q, 'p) world \<Rightarrow> bool" where
  "services_up S w \<longleftrightarrow> db_up S w \<and> redis_ready S w"

text \<open>
  A step of a worker: a look at an empty queue, taking the first entry, a step on the row it holds, or
  handing the notification over, which \<open>sends\<close> counts in the state of the providers.
\<close>

inductive owner_step ::
  "('d, 'r, 'q) services \<Rightarrow> ('p \<Rightarrow> nat) \<Rightarrow> holding \<Rightarrow> ('d, 'r, 'q, 'p) world \<Rightarrow>
   holding \<Rightarrow> ('d, 'r, 'q, 'p) world \<Rightarrow> bool"
  for S :: "('d, 'r, 'q) services" and sends :: "'p \<Rightarrow> nat"
where
  looked: "services_up S u \<Longrightarrow> w_entries S t = [] \<Longrightarrow> w_entries S u = [] \<Longrightarrow> w_rows S u = w_rows S t \<Longrightarrow>
    sends (w_prov u) = sends (w_prov t) \<Longrightarrow> owner_step S sends Idle t Idle u"
| taken: "services_up S u \<Longrightarrow> w_entries S t = (i, sc) # w_entries S u \<Longrightarrow> w_rows S u = w_rows S t \<Longrightarrow>
    sends (w_prov u) = sends (w_prov t) \<Longrightarrow> owner_step S sends Idle t (Holding i) u"
| worked: "services_up S u \<Longrightarrow> w_entries S u = w_entries S t \<Longrightarrow> held h = [i] \<Longrightarrow>
    (\<And>j. j \<noteq> i \<Longrightarrow> w_rows S u j = w_rows S t j) \<Longrightarrow> sends (w_prov u) = sends (w_prov t) \<Longrightarrow>
    owner_step S sends h t h u"
| handed_over: "services_up S u \<Longrightarrow> w_entries S u = w_entries S t \<Longrightarrow> w_rows S u = w_rows S t \<Longrightarrow>
    sends (w_prov u) = Suc (sends (w_prov t)) \<Longrightarrow> owner_step S sends (Holding i) t (Delivered i) u"

text \<open>What the others leave to a worker: its row, and an empty queue.\<close>

definition others_respect ::
  "('d, 'r, 'q) services \<Rightarrow> holding \<Rightarrow> ('d, 'r, 'q, 'p) world \<Rightarrow> ('d, 'r, 'q, 'p) world \<Rightarrow> bool" where
  "others_respect S h s t \<longleftrightarrow>
     (w_entries S s = [] \<longrightarrow> w_entries S t = []) \<and> (\<forall>i \<in> set (held h). w_rows S t i = w_rows S s i)"

text \<open>What is queued is of \<open>ids\<close>, and its rows are as in \<open>tbl\<close>, the table before the workers started.\<close>

definition queue_intact :: "('d, 'r, 'q) services \<Rightarrow> table \<Rightarrow> int list \<Rightarrow> ('d, 'r, 'q, 'p) world \<Rightarrow> bool" where
  "queue_intact S tbl ids w \<longleftrightarrow>
     services_up S w \<and> (\<forall>i \<in> fst ` set (w_entries S w). i \<in> set ids \<and> w_rows S w i = tbl i)"

definition in_hands :: "holding multiset \<Rightarrow> int multiset" where
  "in_hands H = \<Sum>\<^sub># (image_mset (\<lambda>h. mset (held h)) H)"

lemma in_hands_simps [simp]:
  "in_hands {#} = {#}" "in_hands (add_mset h H) = mset (held h) + in_hands H"
  by (simp_all add: in_hands_def)

lemma in_hands_member: "h \<in># H \<Longrightarrow> i \<in> set (held h) \<Longrightarrow> i \<in># in_hands H"
  by (auto dest!: multi_member_split)

text \<open>Every id of \<open>ids\<close> is in the queue or in one worker's hands, and each handing over was counted.\<close>

definition shared_out ::
  "('d, 'r, 'q) services \<Rightarrow> ('p \<Rightarrow> nat) \<Rightarrow> table \<Rightarrow> int list \<Rightarrow> nat \<Rightarrow> holding list \<Rightarrow>
   ('d, 'r, 'q, 'p) world \<Rightarrow> bool"
where
  "shared_out S sends tbl ids base hs w \<longleftrightarrow>
     queue_intact S tbl ids w \<and> distinct ids \<and>
     mset (map fst (w_entries S w)) + in_hands (mset hs) = mset ids \<and>
     (\<forall>i. i \<notin> set ids \<longrightarrow> w_rows S w i = tbl i) \<and>
     sends (w_prov w) = base + size (filter_mset delivered (mset hs))"

text \<open>What a worker ends with: it found the queue empty, or its notification is sent.\<close>

definition turn_result ::
  "('d, 'r, 'q) services \<Rightarrow> table \<Rightarrow> holding \<Rightarrow> ('d, 'r, 'q, 'p) world \<Rightarrow> bool" where
  "turn_result S tbl h w \<longleftrightarrow>
     (case h of Idle \<Rightarrow> w_entries S w = []
      | Holding i \<Rightarrow> False
      | Delivered i \<Rightarrow> (\<exists>n m. tbl i = Some n \<and> w_rows S w i = Some m \<and> sent_from n m))"

section \<open>The workers do not disturb each other\<close>

text \<open>No id is in two places.\<close>

lemma held_once:
  assumes "mset xs + (mset (held h) + in_hands H) = mset ids" "distinct ids" "i \<in> set (held h)"
  shows "i \<notin> set xs" "g \<in># H \<Longrightarrow> i \<notin> set (held g)" "i \<in> set ids"
proof -
  have once: "count (mset ids) i \<le> 1" using assms(2) by (simp add: distinct_count_atmost_1)
  have here: "0 < count (mset (held h)) i" using assms(3) by simp
  have sum: "count (mset xs) i + (count (mset (held h)) i + count (in_hands H) i) =
      count (mset ids) i"
    using arg_cong [OF assms(1), of "\<lambda>M. count M i"] by simp
  have "count (mset xs) i = 0" "count (in_hands H) i = 0"
    using once here sum by linarith+
  then have "i \<notin># mset xs" "i \<notin># in_hands H" by (simp_all add: not_in_iff)
  then show "i \<notin> set xs" "g \<in># H \<Longrightarrow> i \<notin> set (held g)" using in_hands_member by auto
  have "i \<in># mset ids" using here sum by (metis add_is_0 count_greater_zero_iff gr_zeroI)
  then show "i \<in> set ids" by simp
qed

lemma split_hands:
  fixes hs :: "holding list"
  assumes "k < length hs"
  shows "\<exists>H. mset hs = add_mset (hs ! k) H \<and> (\<forall>h. mset (hs[k := h]) = add_mset h H) \<and>
    (\<forall>j < length hs. j \<noteq> k \<longrightarrow> hs ! j \<in># H)"
proof (intro exI conjI allI impI)
  let ?H = "mset hs - {#hs ! k#}"
  show "mset hs = add_mset (hs ! k) ?H" using assms by simp
  show up: "mset (hs[k := h]) = add_mset h ?H" for h using assms by (simp add: mset_update)
  fix j assume j: "j < length hs" "j \<noteq> k"
  have "hs ! j \<in># add_mset h ?H" for h
    using j up [of h] by (metis length_list_update nth_list_update_neq nth_mem_mset)
  from this [of "if hs ! j = Idle then Holding 0 else Idle"] show "hs ! j \<in># ?H"
    by (auto split: if_splits)
qed

lemma shared_out_step:
  assumes inv: "shared_out S sends tbl ids base hs s" and k: "k < length hs"
    and step: "owner_step S sends (hs ! k) s h t"
  shows "shared_out S sends tbl ids base (hs[k := h]) t"
    and "j < length hs \<Longrightarrow> j \<noteq> k \<Longrightarrow> others_respect S (hs ! j) s t"
proof -
  obtain H where H: "mset hs = add_mset (hs ! k) H" "\<And>h. mset (hs[k := h]) = add_mset h H"
    "\<And>j. j < length hs \<Longrightarrow> j \<noteq> k \<Longrightarrow> hs ! j \<in># H" using split_hands [OF k] by blast
  from inv have intact: "queue_intact S tbl ids s" "distinct ids"
    and parts: "mset (map fst (w_entries S s)) + (mset (held (hs ! k)) + in_hands H) = mset ids"
    and rest: "\<forall>i. i \<notin> set ids \<longrightarrow> w_rows S s i = tbl i"
      "sends (w_prov s) = base + size (filter_mset delivered (add_mset (hs ! k) H))"
    by (simp_all add: shared_out_def H)
  note once = held_once [OF parts intact(2)]
  show "shared_out S sends tbl ids base (hs[k := h]) t"
    using step
  proof cases
    case (worked i)
    from once(1,3) [of i] worked(4) have i: "i \<notin> set (map fst (w_entries S s))" "i \<in> set ids" by simp_all
    have "j \<in> set ids \<and> w_rows S t j = tbl j" if "j \<in> fst ` set (w_entries S t)" for j
    proof -
      from that i(1) worked(3) have "j \<noteq> i" "j \<in> fst ` set (w_entries S s)" by auto
      with worked(5) intact(1) show ?thesis by (auto simp: queue_intact_def)
    qed
    with worked(2) have "queue_intact S tbl ids t" by (simp add: queue_intact_def)
    moreover have "\<forall>j. j \<notin> set ids \<longrightarrow> w_rows S t j = tbl j"
      using rest(1) i(2) worked(5) by (metis (full_types))
    ultimately show ?thesis
      using intact(2) parts rest(2) worked(1,3,6) by (simp add: shared_out_def H)
  qed (use intact rest parts in \<open>auto simp: shared_out_def queue_intact_def H\<close>)
  show "others_respect S (hs ! j) s t" if j: "j < length hs" "j \<noteq> k"
    using step
  proof cases
    case (worked i)
    with once(2) [of i "hs ! j"] H(3) [OF j] have "i \<notin> set (held (hs ! j))" by simp
    then have "\<forall>g \<in> set (held (hs ! j)). g \<noteq> i" by blast
    with worked(3,5) show ?thesis by (simp add: others_respect_def)
  qed (auto simp: others_respect_def)
qed

lemma others_respect_order:
  "others_respect S h w w"
  "others_respect S h s t \<Longrightarrow> others_respect S h t u \<Longrightarrow> others_respect S h s u"
  by (simp_all add: others_respect_def)

lemma turn_result_kept: "others_respect S h s t \<Longrightarrow> turn_result S tbl h s \<Longrightarrow> turn_result S tbl h t"
  by (cases h) (auto simp: turn_result_def others_respect_def)

interpretation workers: ownership "shared_out S sends tbl ids base" "queue_intact S tbl ids" "others_respect S"
  "owner_step S sends" "turn_result S tbl"
  for S sends tbl ids base
proof unfold_locales
  show "shared_out S sends tbl ids base hs s \<Longrightarrow> queue_intact S tbl ids s" for hs s by (simp add: shared_out_def)
qed (fact others_respect_order shared_out_step turn_result_kept)+

section \<open>The turn of one worker\<close>

abbreviation task_owns ::
  "('d, 'r, 'q) services \<Rightarrow> ('p \<Rightarrow> nat) \<Rightarrow> table \<Rightarrow> int list \<Rightarrow> ('a \<Rightarrow> holding \<Rightarrow> ('d, 'r, 'q, 'p) world \<Rightarrow> bool) \<Rightarrow>
   (('d, 'r, 'q, 'p) world, 'a) coroutine \<Rightarrow> holding \<Rightarrow> ('d, 'r, 'q, 'p) world \<Rightarrow> bool"
where
  "task_owns S sends tbl ids \<equiv> co_owns (queue_intact S tbl ids) (others_respect S) (owner_step S sends)"

text \<open>A step on the database, on the row that is held.\<close>

lemma own_db:
  assumes h: "held h = [i]" and row: "w_rows S w i = Some n"
    and op: "\<And>d r d'. pg_up (srv_pg S) d \<Longrightarrow> pg_rows (srv_pg S) d i = Some n \<Longrightarrow> m d = (r, d') \<Longrightarrow>
      \<exists>x. r = Inr x \<and> pg_up (srv_pg S) d' \<and> (\<forall>j. j \<noteq> i \<longrightarrow> pg_rows (srv_pg S) d' j = pg_rows (srv_pg S) d j) \<and>
        P x (pg_rows (srv_pg S) d' i)"
  shows "task_owns S sends tbl ids (\<lambda>x k v. k = h \<and> P x (w_rows S v i)) (co_db m) h w"
  unfolding co_db_def
proof (rule co_owns_step)
  fix t r u
  assume t: "others_respect S h w t" "queue_intact S tbl ids t" and run: "on_db m t = (r, u)"
  from run obtain d where m: "m (w_db t) = (r, d)" and u: "u = t\<lparr>w_db := d\<rparr>" by (rule on_db_cases)
  from t h row have "w_rows S t i = Some n" "pg_up (srv_pg S) (w_db t)" and redis: "redis_ready S t"
    by (simp_all add: others_respect_def queue_intact_def services_up_def db_up_def)
  from op [OF this(2,1) m] obtain x where x: "r = Inr x" "pg_up (srv_pg S) d" "P x (pg_rows (srv_pg S) d i)"
    "\<forall>j. j \<noteq> i \<longrightarrow> pg_rows (srv_pg S) d j = w_rows S t j" by blast
  have "services_up S u" using x(2) redis by (simp add: u services_up_def db_up_def redis_ready_def redis_up_def)
  then have "owner_step S sends h t h u" using x(4) h by (intro owner_step.worked [where i = i]) (simp_all add: u)
  with x(1,3) show "\<exists>x k. r = Inr x \<and> owner_step S sends h t k u \<and> k = h \<and> P x (w_rows S u i)"
    by (simp add: u)
qed

lemma own_get:
  assumes laws: "services_laws S" and h: "held h = [i]" and row: "w_rows S w i = Some n"
  shows "task_owns S sends tbl ids (\<lambda>x k v. k = h \<and> x = Some n \<and> w_rows S v i = Some n)
    (co_db (get_by_id (srv_pg S) i)) h w"
proof (rule own_db [OF h row])
  fix d r d'
  assume up: "pg_up (srv_pg S) d" "pg_rows (srv_pg S) d i = Some n" and run: "get_by_id (srv_pg S) i d = (r, d')"
  note pg = services_laws_parts(1) [OF laws]
  from repo.get_up [OF pg up(1) run] repo.get_pure [OF pg run] up(2)
  show "\<exists>x. r = Inr x \<and> pg_up (srv_pg S) d' \<and>
      (\<forall>j. j \<noteq> i \<longrightarrow> pg_rows (srv_pg S) d' j = pg_rows (srv_pg S) d j) \<and> x = Some n \<and> pg_rows (srv_pg S) d' i = Some n"
    by simp
qed

lemma own_update:
  assumes laws: "services_laws S" and h: "held h = [i]" and row: "w_rows S w i = Some n"
    and fits: "storable (set_attrs as n)"
  shows "task_owns S sends tbl ids (\<lambda>_ k v. k = h \<and> (\<exists>t. w_rows S v i = Some ((set_attrs as n)\<lparr>mtime := t\<rparr>)))
    (co_db (pg_update (srv_pg S) i as)) h w"
proof (rule own_db [OF h row])
  fix d r d'
  assume up: "pg_up (srv_pg S) d" "pg_rows (srv_pg S) d i = Some n" and run: "pg_update (srv_pg S) i as d = (r, d')"
  note pg = services_laws_parts(1) [OF laws]
  from pg_up_law(2) [OF pg up(1) run] up(2) fits have r: "r = Inr ()" and up': "pg_up (srv_pg S) d'" by simp_all
  from pg_update_law(1) [OF pg run [unfolded r]] up(2) obtain t where
    "pg_rows (srv_pg S) d' = (pg_rows (srv_pg S) d)(i \<mapsto> (set_attrs as n)\<lparr>mtime := t\<rparr>)" by (auto simp: updated_def)
  with r up' show "\<exists>x. r = Inr x \<and> pg_up (srv_pg S) d' \<and>
      (\<forall>j. j \<noteq> i \<longrightarrow> pg_rows (srv_pg S) d' j = pg_rows (srv_pg S) d j) \<and>
      (\<exists>t. pg_rows (srv_pg S) d' i = Some ((set_attrs as n)\<lparr>mtime := t\<rparr>))" by auto
qed

lemma own_refresh:
  assumes laws: "services_laws S" and h: "held h = [i]" and row: "w_rows S w i = Some n"
  shows "task_owns S sends tbl ids (\<lambda>x k v. k = h \<and> x = n \<and> w_rows S v i = Some n)
    (co_db (pg_refresh (srv_pg S) i)) h w"
proof (rule own_db [OF h row])
  fix d r d'
  assume up: "pg_up (srv_pg S) d" "pg_rows (srv_pg S) d i = Some n" and run: "pg_refresh (srv_pg S) i d = (r, d')"
  note pg = services_laws_parts(1) [OF laws]
  from pg_up_law(4) [OF pg up(1) run] pg_read_law(3) [OF pg run] up(2)
  show "\<exists>x. r = Inr x \<and> pg_up (srv_pg S) d' \<and>
      (\<forall>j. j \<noteq> i \<longrightarrow> pg_rows (srv_pg S) d' j = pg_rows (srv_pg S) d j) \<and> x = n \<and> pg_rows (srv_pg S) d' i = Some n"
    by auto
qed

lemma own_update_status:
  fixes w :: "('d, 'r, 'q, 'p) world"
  assumes laws: "services_laws S" and h: "held h = [i]" and row: "w_rows S w i = Some n"
    and fits: "storable (set_attrs (Status (status_value st) # as) n)"
  shows "task_owns S sends tbl ids
    (\<lambda>x k v. k = h \<and> (\<exists>m t. x = Some m \<and> m = (set_attrs (Status (status_value st) # as) n)\<lparr>mtime := t\<rparr> \<and>
       w_rows S v i = Some m)) (co_update_status (srv_pg S) i n st as) h w"
  unfolding co_update_status_def
proof (rule co_owns_bind [OF own_get [OF laws h row]])
  let ?as = "Status (status_value st) # as"
  let ?Q = "\<lambda>x k v. k = h \<and>
    (\<exists>m t. x = Some m \<and> m = (set_attrs ?as n)\<lparr>mtime := t\<rparr> \<and> w_rows S (v :: ('d, 'r, 'q, 'p) world) i = Some m)"
  fix x :: "notification option" and k and t :: "('d, 'r, 'q, 'p) world"
  assume x: "k = h \<and> x = Some n \<and> w_rows S t i = Some n"
  have fits': "storable (set_attrs (changes n ?as) n)" using fits by (simp only: set_attrs_changes)
  have "task_owns S sends tbl ids ?Q
      (co_bind (co_db (pg_update (srv_pg S) i (changes n ?as))) (\<lambda>_.
       co_bind (co_db (pg_refresh (srv_pg S) i)) (\<lambda>m. co_return (Some m)))) h t"
  proof (rule co_owns_bind [OF own_update [OF laws h conjunct2 [OF conjunct2 [OF x]] fits']])
    fix y :: unit and k and u :: "('d, 'r, 'q, 'p) world"
    assume "k = h \<and> (\<exists>t. w_rows S u i = Some ((set_attrs (changes n ?as) n)\<lparr>mtime := t\<rparr>))"
    then obtain t where k: "k = h" and m: "w_rows S u i = Some ((set_attrs ?as n)\<lparr>mtime := t\<rparr>)"
      by (auto simp only: set_attrs_changes)
    show "task_owns S sends tbl ids ?Q
        (co_bind (co_db (pg_refresh (srv_pg S) i)) (\<lambda>m. co_return (Some m))) k u"
      unfolding k by (rule co_owns_bind [OF own_refresh [OF laws h m]], rule co_owns_return) blast
  qed
  with x show "task_owns S sends tbl ids ?Q
      (case x of None \<Rightarrow> co_return None
       | Some _ \<Rightarrow> co_bind (co_db (pg_update (srv_pg S) i (changes n ?as))) (\<lambda>_.
           co_bind (co_db (pg_refresh (srv_pg S) i)) (\<lambda>m. co_return (Some m)))) k t"
    by (simp del: changes.simps)
qed

text \<open>The clock and the provider.\<close>

lemma own_now:
  assumes h: "held h = [i]" and row: "w_rows S w i = Some n"
  shows "task_owns S sends tbl ids (\<lambda>_ k v. k = h \<and> w_rows S v i = Some n) (co_svc (on_host host_now)) h w"
  unfolding co_svc_def
proof (rule co_owns_step)
  fix t r u
  assume t: "others_respect S h w t" "queue_intact S tbl ids t" and run: "on_svc (on_host host_now) t = (r, u)"
  from run have r: "\<exists>x. r = Inr x" and u: "w_db u = w_db t" "w_prov u = w_prov t"
    by (auto simp: on_svc_def on_host_def io_zoom_def host_now_def split: prod.splits)
  from evolvesD [OF world_queue_svc [OF queue_side_host [OF clock_kept(1)]] run] have "world_queue u = world_queue t"
    by (simp add: same_def)
  note q = redis_ready_same(1,2) [OF this, of S]
  from t(2) q u have "services_up S u" by (simp add: queue_intact_def services_up_def db_up_def)
  with q u h have "owner_step S sends h t h u" by (intro owner_step.worked [where i = i]) simp_all
  with r u t(1) h row show "\<exists>x k. r = Inr x \<and> owner_step S sends h t k u \<and> k = h \<and> w_rows S u i = Some n"
    by (auto simp: others_respect_def)
qed

lemma prov_services: "services_up S t \<Longrightarrow> services_up S (t\<lparr>w_prov := p\<rparr>)"
  by (simp add: services_up_def db_up_def redis_ready_def redis_up_def)

lemma own_health:
  assumes h: "held h = [i]" and row: "w_rows S w i = Some n" and prov: "always_sends provider m"
  shows "task_owns S sends tbl ids (\<lambda>x k v. k = h \<and> x \<and> w_rows S v i = Some n) (co_prov (p_health_check provider)) h w"
  unfolding co_prov_def
proof (rule co_owns_step)
  fix t r u
  assume t: "others_respect S h w t" "queue_intact S tbl ids t" and run: "on_prov (p_health_check provider) t = (r, u)"
  from prov have "p_health_check provider (w_prov t) = (Inr True, w_prov t)"
    by (auto simp: always_sends_def provider_answers_def)
  with run have r: "r = Inr True" "u = t" by (simp_all add: on_prov_run)
  from t(2) r(2) h have "owner_step S sends h t h u" by (intro owner_step.worked [where i = i]) (simp_all add: queue_intact_def)
  with r t(1) h row show "\<exists>x k. r = Inr x \<and> owner_step S sends h t k u \<and> k = h \<and> x \<and> w_rows S u i = Some n"
    by (auto simp: others_respect_def)
qed

text \<open>Handing the notification over, which the provider counts.\<close>

definition counts_sends ::
  "(notification_channel \<Rightarrow> 'p provider option) \<Rightarrow> ('p \<Rightarrow> nat) \<Rightarrow> bool" where
  "counts_sends providers sends \<longleftrightarrow>
     (\<forall>c provider rcpt body s. providers c = Some provider \<longrightarrow>
        sends (snd (p_send provider rcpt body s)) = Suc (sends s))"

lemma own_send:
  assumes row: "w_rows S w i = Some m" and prov: "always_sends provider n" and c: "providers c = Some provider"
    and counts: "counts_sends providers sends" and same: "recipient m = recipient n" "content m = content n"
  shows "task_owns S sends tbl ids (\<lambda>r k v. k = Delivered i \<and> pr_success r \<and>
      (\<exists>x. pr_external_id r = Some x \<and> varchar_255 x) \<and> w_rows S v i = Some m)
    (co_prov (p_send provider (recipient m) (content m))) (Holding i) w"
  unfolding co_prov_def same
proof (rule co_owns_step)
  fix t r u
  assume t: "others_respect S (Holding i) w t" "queue_intact S tbl ids t"
    and run: "on_prov (p_send provider (recipient n) (content n)) t = (r, u)"
  from prov obtain y p where y: "provider_answers provider n (w_prov t) True y p" "pr_success y" and ok: "provider_ok provider"
    unfolding always_sends_def by blast
  then have send: "p_send provider (recipient n) (content n) (w_prov t) = (Inr y, p)" by (simp add: provider_answers_def)
  with run have r: "r = Inr y" "u = t\<lparr>w_prov := p\<rparr>" by (simp_all add: on_prov_run)
  from provider_laws(3) [OF ok send y(2)] y(1) have x: "\<exists>x. pr_external_id y = Some x \<and> varchar_255 x"
    by (auto simp: provider_answers_def)
  from counts c have "sends (snd (p_send provider (recipient n) (content n) (w_prov t))) = Suc (sends (w_prov t))"
    unfolding counts_sends_def by blast
  with send have "sends (w_prov u) = Suc (sends (w_prov t))" by (simp add: r)
  then have "owner_step S sends (Holding i) t (Delivered i) u"
    using t(2) by (intro owner_step.handed_over) (simp_all add: r queue_intact_def prov_services)
  with x y(2) r t(1) row show "\<exists>x k. r = Inr x \<and> owner_step S sends (Holding i) t k u \<and> k = Delivered i \<and> pr_success x \<and>
      (\<exists>z. pr_external_id x = Some z \<and> varchar_255 z) \<and> w_rows S u i = Some m"
    by (auto simp: others_respect_def)
qed

lemma own_mark_sent:
  fixes w :: "('d, 'r, 'q, 'p) world"
  assumes laws: "services_laws S" and row: "w_rows S w i = Some n" "nid n = i" "row_inv n" and x: "varchar_255 x"
    and tbl: "tbl i = Some n0" and sent: "\<And>t u. sent_from n0 ((set_attrs [Status (status_value SENT),
      External_id (Some x), Stime (Some t)] n)\<lparr>mtime := u\<rparr>)"
  shows "task_owns S sends tbl ids (\<lambda>_. turn_result S tbl) (co_mark_sent S n (Some x)) (Delivered i) w"
  unfolding co_mark_sent_def row(2)
proof (rule co_owns_bind [OF own_now [OF held.simps(3) row(1)]])
  fix now and k and v :: "('d, 'r, 'q, 'p) world"
  let ?as = "[Status (status_value SENT), External_id (Some x), Stime (Some now)]"
  assume v: "k = Delivered i \<and> w_rows S v i = Some n"
  note codes = row_inv_codes [OF row(3)]
  have "storable (set_attrs ?as n)" using codes(3) x by (simp del: set_attr.simps)
  from own_update_status [OF laws held.simps(3) conjunct2 [OF v] this]
  have "task_owns S sends tbl ids (\<lambda>y k v. k = Delivered i \<and> (\<exists>m t. y = Some m \<and> m = (set_attrs ?as n)\<lparr>mtime := t\<rparr> \<and>
      w_rows S v i = Some m)) (co_update_status (srv_pg S) i n SENT [External_id (Some x), Stime (Some now)]) k v"
    using v by simp
  then show "task_owns S sends tbl ids (\<lambda>_. turn_result S tbl)
      (co_bind (co_update_status (srv_pg S) i n SENT [External_id (Some x), Stime (Some now)]) (\<lambda>upd.
       co_bind (co_of (enum_of_value channel_members channel_value (channel (refreshed n upd)))) (\<lambda>_.
       co_return ()))) k v"
  proof (rule co_owns_bind)
    fix upd and k and u :: "('d, 'r, 'q, 'p) world"
    assume "k = Delivered i \<and> (\<exists>m t. upd = Some m \<and> m = (set_attrs ?as n)\<lparr>mtime := t\<rparr> \<and> w_rows S u i = Some m)"
    then obtain m t where m: "k = Delivered i" "upd = Some m" "m = (set_attrs ?as n)\<lparr>mtime := t\<rparr>" "w_rows S u i = Some m"
      by blast
    from codes(2) m(3) obtain c where c: "enum_of_value channel_members channel_value (channel m) = Inr c" by auto
    from sent [of t now] m(3) have "sent_from n0 m" by simp
    with m(1,4) tbl have "turn_result S tbl k u" by (simp add: turn_result_def)
    then show "task_owns S sends tbl ids (\<lambda>_. turn_result S tbl)
        (co_bind (co_of (enum_of_value channel_members channel_value (channel (refreshed n upd)))) (\<lambda>_. co_return ())) k u"
      using c by (simp add: m(2) refreshed_def co_of_def co_return_def)
  qed
qed

lemma own_attempt:
  fixes w :: "('d, 'r, 'q, 'p) world"
  assumes laws: "services_laws S" and counts: "counts_sends providers sends" and c: "providers c = Some provider"
    and prov: "always_sends provider n" and inv: "row_inv n" and tbl: "tbl i = Some n" "nid n = i"
    and m: "m = n\<lparr>status := status_value QUEUED, mtime := t\<rparr>" and row: "w_rows S w i = Some m"
  shows "task_owns S sends tbl ids (\<lambda>_. turn_result S tbl) (co_attempt S provider m) (Holding i) w"
  unfolding co_attempt_def
proof (rule co_owns_bind [OF own_health [OF held.simps(2) row prov]])
  fix healthy and k and v :: "('d, 'r, 'q, 'p) world"
  assume v: "k = Holding i \<and> healthy \<and> w_rows S v i = Some m"
  have "row_progress m" using inv row_progress_queued [of n] by (simp add: m row_inv_def row_progress_def)
  then have m': "row_inv m" "nid m = i" using inv tbl(2) by (simp_all add: row_inv_def m row_origin_def storable_def)
  let ?send = "p_send provider (recipient m) (content m)"
  let ?rest = "co_after_send S m"
  have same: "recipient m = recipient n" "content m = content n" by (simp_all add: m)
  have "task_owns S sends tbl ids (\<lambda>_. turn_result S tbl) (co_bind (co_prov ?send) ?rest) (Holding i) v"
  proof (rule co_owns_bind [OF own_send [OF conjunct2 [OF conjunct2 [OF v]] prov c counts same]])
    fix r :: provider_result and k and u :: "('d, 'r, 'q, 'p) world"
    assume r: "k = Delivered i \<and> pr_success r \<and> (\<exists>x. pr_external_id r = Some x \<and> varchar_255 x) \<and> w_rows S u i = Some m"
    then obtain x where x: "pr_external_id r = Some x" "varchar_255 x" by blast
    have "task_owns S sends tbl ids (\<lambda>_. turn_result S tbl) (co_mark_sent S m (Some x)) (Delivered i) u"
      by (rule own_mark_sent [where tbl = tbl and i = i, OF laws _ m'(2,1) x(2) tbl(1)]) (use r in \<open>simp_all add: sent_from_def m\<close>)
    with r x(1) show "task_owns S sends tbl ids (\<lambda>_. turn_result S tbl) (?rest r) k u" by (simp add: co_after_send_def)
  qed
  with v show "task_owns S sends tbl ids (\<lambda>_. turn_result S tbl)
      (if \<not> healthy then co_schedule_retry S m PROVIDER_DOWN else co_bind (co_prov ?send) ?rest) k v"
    by simp
qed

lemma own_dispatch:
  fixes w :: "('d, 'r, 'q, 'p) world"
  assumes laws: "services_laws S" and counts: "counts_sends providers sends"
    and row: "w_rows S w i = Some n" "tbl i = Some n" "nid n = i" "sendable providers n"
  shows "task_owns S sends tbl ids (\<lambda>_. turn_result S tbl) (co_dispatch S providers i) (Holding i) w"
  unfolding co_dispatch_parts
proof (rule co_owns_bind [OF own_get [OF laws held.simps(2) row(1)]])
  fix found and k and v :: "('d, 'r, 'q, 'p) world"
  let ?QUEUED = "co_update_status (srv_pg S) i n QUEUED []"
  assume v: "k = Holding i \<and> found = Some n \<and> w_rows S v i = Some n"
  from row(4) obtain c provider where inv: "row_inv n" and c: "channel n = channel_value c"
    "providers c = Some provider" and prov: "always_sends provider n" unfolding sendable_def by blast
  have ch: "enum_of_value channel_members channel_value (channel n) = Inr c"
    unfolding c(1) by (rule channel_enum.of_value)
  have "storable (set_attrs [Status (status_value QUEUED)] n)"
    using row_inv_codes(3) [OF inv] by (simp del: set_attr.simps)
  note queued = own_update_status [OF laws held.simps(2) conjunct2 [OF conjunct2 [OF v]] this]
  have "task_owns S sends tbl ids (\<lambda>_. turn_result S tbl)
      (co_bind ?QUEUED (\<lambda>upd. co_attempt S provider (refreshed n upd))) (Holding i) v"
  proof (rule co_owns_bind [OF queued])
    fix upd and k and u :: "('d, 'r, 'q, 'p) world"
    assume "k = Holding i \<and> (\<exists>m t. upd = Some m \<and>
      m = (set_attrs [Status (status_value QUEUED)] n)\<lparr>mtime := t\<rparr> \<and> w_rows S u i = Some m)"
    then obtain m t where "k = Holding i" "upd = Some m" "m = n\<lparr>status := status_value QUEUED, mtime := t\<rparr>"
      "w_rows S u i = Some m" by auto
    with own_attempt [where tbl = tbl and i = i, OF laws counts c(2) prov inv row(2,3)]
    show "task_owns S sends tbl ids (\<lambda>_. turn_result S tbl) (co_attempt S provider (refreshed n upd)) k u"
      by (simp add: refreshed_def)
  qed
  with v ch c(2) show "task_owns S sends tbl ids (\<lambda>_. turn_result S tbl)
      (case found of None \<Rightarrow> co_return ()
       | Some n \<Rightarrow> co_bind (co_of (enum_of_value channel_members channel_value (channel n))) (\<lambda>ch.
           case providers ch of None \<Rightarrow> co_bind (co_mark_failed S n UNKNOWN) (\<lambda>_. co_return ())
           | Some provider \<Rightarrow> co_bind (co_update_status (srv_pg S) i n QUEUED []) (\<lambda>upd.
               co_attempt S provider (refreshed n upd)))) k v"
    by (simp add: co_of_def)
qed

text \<open>Taking an id, and the turn.\<close>

lemma own_dequeue:
  fixes w :: "('d, 'r, 'q, 'p) world"
  assumes laws: "services_laws S"
  shows "task_owns S sends tbl ids
    (\<lambda>x k v. case x of None \<Rightarrow> k = Idle \<and> w_entries S v = []
       | Some i \<Rightarrow> k = Holding i \<and> i \<in> set ids \<and> w_rows S v i = tbl i) (co_svc (dequeue (srv_redis S))) Idle w"
  unfolding co_svc_def
proof (rule co_owns_step)
  fix r and t u :: "('d, 'r, 'q, 'p) world"
  assume t: "queue_intact S tbl ids t" and run: "on_svc (dequeue (srv_redis S)) t = (r, u)"
  from t have up: "db_up S t" "redis_ready S t" by (simp_all add: queue_intact_def services_up_def)
  from run obtain s where deq: "dequeue (srv_redis S) (w_svc t) = (r, s)" and u: "u = t\<lparr>w_svc := s\<rparr>"
    by (rule on_svc_cases)
  note d = turn_dequeues [OF laws up(2) deq]
  have up': "services_up S u" using up(1) d(2) by (simp add: u services_up_def db_up_def)
  show "\<exists>x k. r = Inr x \<and> owner_step S sends Idle t k u \<and>
      (case x of None \<Rightarrow> k = Idle \<and> w_entries S u = [] | Some i \<Rightarrow> k = Holding i \<and> i \<in> set ids \<and> w_rows S u i = tbl i)"
  proof (cases "w_entries S t")
    case Nil
    then have "owner_step S sends Idle t Idle u" using up' d(3) by (intro owner_step.looked) (simp_all add: u)
    with d(1,3) Nil show ?thesis by (intro exI [of _ None] exI [of _ Idle]) (simp add: u)
  next
    case (Cons e es)
    obtain i sc where e: "e = (i, sc)" by (cases e)
    have "owner_step S sends Idle t (Holding i) u"
      using up' d(3) Cons e by (intro owner_step.taken) (simp_all add: u)
    with d(1) Cons e t show ?thesis
      by (intro exI [of _ "Some i"] exI [of _ "Holding i"]) (simp add: u queue_intact_def)
  qed
qed

lemma own_turn:
  fixes w :: "('d, 'r, 'q, 'p) world"
  assumes laws: "services_laws S" and counts: "counts_sends providers sends"
    and rows: "\<forall>i \<in> set ids. \<exists>n. tbl i = Some n \<and> nid n = i \<and> sendable providers n"
  shows "task_owns S sends tbl ids (\<lambda>_. turn_result S tbl) (co_worker_turn S providers) Idle w"
  unfolding co_worker_turn_def
proof (rule co_owns_try, rule co_owns_bind [OF own_dequeue [OF laws]])
  fix x and k and v :: "('d, 'r, 'q, 'p) world"
  assume x: "case x of None \<Rightarrow> k = Idle \<and> w_entries S v = []
    | Some i \<Rightarrow> k = Holding i \<and> i \<in> set ids \<and> w_rows S v i = tbl i"
  show "task_owns S sends tbl ids (\<lambda>_. turn_result S tbl)
      (case x of None \<Rightarrow> co_return () | Some i \<Rightarrow> co_dispatch S providers i) k v"
  proof (cases x)
    case None
    with x show ?thesis by (simp add: co_owns_return turn_result_def)
  next
    case (Some i)
    with x rows obtain n where n: "tbl i = Some n" "nid n = i" "sendable providers n" "k = Holding i" "w_rows S v i = Some n"
      by auto
    from own_dispatch [where tbl = tbl and i = i, OF laws counts n(5,1,2,3)] n(4) Some show ?thesis by simp
  qed
qed

section \<open>Any schedule of the pool\<close>

lemma delivered_size:
  "(\<forall>h \<in># H. h = Idle \<or> delivered h) \<Longrightarrow> size (filter_mset delivered H) = size (in_hands H)"
proof (induction H)
  case (add h H)
  then show ?case by (cases h) auto
qed simp

text \<open>Where the ids are when all turns are through.\<close>

lemma any_schedule_shares:
  fixes w w' :: "('d, 'r, 'q, 'p) world"
  assumes laws: "services_laws S" and up: "services_up S w" and counts: "counts_sends providers sends"
    and rows: "\<forall>i \<in> fst ` set (w_entries S w). \<exists>n. w_rows S w i = Some n \<and> nid n = i \<and> sendable providers n"
    and run: "resume_step\<^sup>*\<^sup>* (replicate k (co_worker_turn S providers), w) (ts, w')" and over: "all_finished (ts, w')"
  obtains hs where "shared_out S sends (w_rows S w) (map fst (w_entries S w)) (sends (w_prov w)) hs w'" "length hs = k"
    "\<forall>h \<in> set hs. turn_result S (w_rows S w) h w'"
proof -
  let ?ids = "map fst (w_entries S w)" and ?tbl = "w_rows S w"
  from up have ready: "queue_ids_ok (srv_redis S) (w_svc w)" by (simp add: services_up_def redis_ready_def)
  have distinct: "distinct ?ids" using wq.entries_ordered [OF services_laws_parts(2) [OF laws] ready] by simp
  have idle: "in_hands (replicate_mset k Idle) = {#}" "filter_mset delivered (replicate_mset k Idle) = {#}"
    by (induction k) simp_all
  have "shared_out S sends ?tbl ?ids (sends (w_prov w)) (replicate k Idle) w"
    using up distinct idle by (simp add: shared_out_def queue_intact_def)
  moreover have "task_owns S sends ?tbl ?ids (\<lambda>_. turn_result S ?tbl) (co_worker_turn S providers) Idle w"
    by (rule own_turn [OF laws counts]) (use rows in simp)
  ultimately have "workers.pool_owns S sends ?tbl ?ids (sends (w_prov w)) (replicate k Idle)
      (replicate k (co_worker_turn S providers), w)"
    by (simp add: workers.pool_owns_def)
  from workers.pool_owns_steps [OF run this] obtain hs where
    "workers.pool_owns S sends ?tbl ?ids (sends (w_prov w)) hs (ts, w')" by blast
  from workers.pool_owns_finished [OF this over] resume_steps_length [OF run] show thesis
    by (intro that [of hs]) simp_all
qed

text \<open>
  As many turns as there are entries, or more, in any schedule: when all of them are through, the queue
  is empty, and each row of the queue was sent, by one handing over to the provider.
\<close>

lemma any_schedule_sends:
  fixes w w' :: "('d, 'r, 'q, 'p) world"
  assumes laws: "services_laws S" and up: "services_up S w" and counts: "counts_sends providers sends"
    and rows: "\<forall>i \<in> fst ` set (w_entries S w). \<exists>n. w_rows S w i = Some n \<and> nid n = i \<and> sendable providers n"
    and enough: "length (w_entries S w) \<le> k"
    and run: "resume_step\<^sup>*\<^sup>* (replicate k (co_worker_turn S providers), w) (ts, w')" and over: "all_finished (ts, w')"
  shows "w_entries S w' = []" "sends (w_prov w') = sends (w_prov w) + length (w_entries S w)"
    and "i \<notin> fst ` set (w_entries S w) \<Longrightarrow> w_rows S w' i = w_rows S w i"
    and "i \<in> fst ` set (w_entries S w) \<Longrightarrow>
      \<exists>n m. w_rows S w i = Some n \<and> w_rows S w' i = Some m \<and> sent_from n m"
proof -
  let ?ids = "map fst (w_entries S w)" and ?tbl = "w_rows S w"
  obtain hs where inv: "shared_out S sends ?tbl ?ids (sends (w_prov w)) hs w'" and len: "length hs = k"
    and res: "\<forall>h \<in> set hs. turn_result S ?tbl h w'"
    by (rule any_schedule_shares [OF laws up counts rows run over])
  have "h = Idle \<or> delivered h" if "turn_result S ?tbl h w'" for h
    using that by (cases h) (simp_all add: turn_result_def)
  with res have ended: "\<forall>h \<in># mset hs. h = Idle \<or> delivered h" by auto
  note size = delivered_size [OF ended]
  from inv have all: "mset (map fst (w_entries S w')) + in_hands (mset hs) = mset ?ids"
    by (simp add: shared_out_def)
  have lens: "length (w_entries S w') + size (in_hands (mset hs)) = length (w_entries S w)"
    using arg_cong [OF all, of size] by simp
  show empty: "w_entries S w' = []"
  proof (cases "Idle \<in> set hs")
    case True
    with res show ?thesis by (auto simp: turn_result_def)
  next
    case False
    with ended have "filter delivered hs = hs" by (auto simp: filter_id_conv)
    then have "size (filter_mset delivered (mset hs)) = k" using len by (metis mset_filter size_mset)
    with lens size enough have "length (w_entries S w') = 0" by linarith
    then show ?thesis by simp
  qed
  from inv size lens empty show "sends (w_prov w') = sends (w_prov w) + length (w_entries S w)"
    by (simp add: shared_out_def)
  show "i \<notin> fst ` set (w_entries S w) \<Longrightarrow> w_rows S w' i = w_rows S w i"
    using inv by (simp add: shared_out_def)
  show "\<exists>n m. w_rows S w i = Some n \<and> w_rows S w' i = Some m \<and> sent_from n m"
    if "i \<in> fst ` set (w_entries S w)"
  proof -
    from that have "i \<in># mset ?ids" by simp
    with all empty have "i \<in># in_hands (mset hs)" by simp
    then obtain h where h: "h \<in> set hs" "i \<in> set (held h)" by (auto simp: in_hands_def)
    with res show ?thesis by (cases h) (auto simp: turn_result_def)
  qed
qed

end
