(* ===== verification/Parallel_Properties.thy ===== *)
theory Parallel_Properties
  imports Parallel_Workers Interleaving Liveness_Properties
begin

text \<open>
  The handlers side by side: every schedule of them ends, and a pool of workers sends each queued
  notification once, whatever the schedule.
\<close>

section \<open>Every schedule ends\<close>

text \<open>What the service does at a time: turns of workers, message callbacks and requests.\<close>

datatype job =
    Turn
  | New_event delivery
  | Retry_event delivery
  | Creation notification_create
  | Manual_retry int

fun task_of ::
  "('d, 'r, 'q) services \<Rightarrow> (notification_channel \<Rightarrow> 'p provider option) \<Rightarrow> job \<Rightarrow>
   (('d, 'r, 'q, 'p) world, unit) coroutine"
where
  "task_of S providers Turn = co_worker_turn S providers"
| "task_of S providers (New_event msg) = co_on_new_event S msg"
| "task_of S providers (Retry_event msg) = co_on_retry_event S msg"
| "task_of S providers (Creation p) = co_ignore (co_create_notification S p)"
| "task_of S providers (Manual_retry i) = co_ignore (co_retry_notification S i)"

text \<open>Whatever the servers and the providers answer, no handler goes on for ever: no schedule of any
  number of turns, callbacks, creations and manual retries is infinite, one that has not brought all of
  them to their end can be continued, and so the event loop gets each of them to return or to raise.\<close>

theorem every_schedule_ends:
  fixes w :: "('d, 'r, 'q, 'p) world"
  shows "(\<nexists>p. p 0 = (map (task_of S providers) jobs, w) \<and> (\<forall>j. resume_step (p j) (p (Suc j)))) \<and>
    (\<forall>q :: ('d, 'r, 'q, 'p) world pool. all_finished q \<or> (\<exists>r. resume_step q r)) \<and>
    (\<exists>ts w'. resume_step\<^sup>*\<^sup>* (map (task_of S providers) jobs, w) (ts, w') \<and> all_finished (ts, w') \<and>
       length ts = length jobs)"
proof -
  obtain ts w' where run: "resume_step\<^sup>*\<^sup>* (map (task_of S providers) jobs, w) (ts, w')" "all_finished (ts, w')"
    using schedule_completes by (metis prod.collapse)
  from resume_steps_length [OF run(1)] have "length ts = length jobs" by simp
  with run schedules_end resume_progress show ?thesis by blast
qed

section \<open>A pool of workers\<close>

text \<open>C14. While PostgreSQL and Redis answer and the providers send, as many workers as there are entries, or
  more, take one turn each under any schedule of their awaits: no schedule is infinite or gets stuck,
  and when all turns are through the queue is empty, every queued row is sent, no other row is touched,
  and the providers were handed exactly one notification for each entry: no two workers send the same.\<close>

theorem parallel_workers_send_once:
  fixes w :: "('d, 'r, 'q, 'p) world"
  assumes "services_laws S" "db_up S w" "redis_up S w" "queue_ids_ok (srv_redis S) (w_svc w)"
    and "\<forall>i \<in> fst ` set (w_entries S w). \<exists>n. w_rows S w i = Some n \<and> nid n = i \<and> sendable providers n"
    and "counts_sends providers sends" "length (w_entries S w) \<le> k"
    and run: "resume_step\<^sup>*\<^sup>* (replicate k (co_worker_turn S providers), w) (ts, w')"
  shows "(\<nexists>p. p 0 = (ts, w') \<and> (\<forall>j. resume_step (p j) (p (Suc j)))) \<and>
    ((\<exists>q. resume_step (ts, w') q) \<or>
     (all_finished (ts, w') \<and> w_entries S w' = [] \<and>
      sends (w_prov w') = sends (w_prov w) + length (w_entries S w) \<and>
      (\<forall>i. i \<notin> fst ` set (w_entries S w) \<longrightarrow> w_rows S w' i = w_rows S w i) \<and>
      (\<forall>i \<in> fst ` set (w_entries S w). \<exists>n m. w_rows S w i = Some n \<and> w_rows S w' i = Some m \<and> sent_from n m)))"
proof -
  have "services_up S w" using assms(2-4) by (simp add: services_up_def redis_ready_def)
  note sent = any_schedule_sends [OF assms(1) this assms(6,5,7) run]
  show ?thesis
  proof (cases "all_finished (ts, w')")
    case True
    with sent [OF True] schedules_end show ?thesis by blast
  next
    case False
    with resume_progress [of "(ts, w')"] schedules_end show ?thesis by blast
  qed
qed

text \<open>A provider that is up, sends everything, and logs what it sends.\<close>

definition logging_provider :: "notification_channel \<Rightarrow> mock_state provider" where
  "logging_provider c =
     \<lparr>p_channel = c,
      p_send = (\<lambda>rcpt body. io_bind (log_sent c rcpt ''ext-1'') (\<lambda>_. io_return (sent_result ''ext-1''))),
      p_health_check = io_return True\<rparr>"

abbreviation logged :: "mock_state \<Rightarrow> nat" where
  "logged s \<equiv> length (mk_sent s)"

lemma logging_provider_run:
  "p_send (logging_provider c) rcpt body s =
     (Inr (sent_result ''ext-1''), s\<lparr>mk_sent := mk_sent s @ [(c, rcpt, ''ext-1'')]\<rparr>)"
  "p_health_check (logging_provider c) s = (Inr True, s)"
  by (simp_all add: logging_provider_def log_sent_def io_simps)

lemma logging_provider_sends: "always_sends (logging_provider c) n"
proof -
  have "provider_ok (logging_provider c)"
    unfolding provider_ok_def by unfold_locales (auto simp: logging_provider_run sent_result_def)
  then show ?thesis
    by (auto simp: always_sends_def provider_answers_def logging_provider_run sent_result_def varchar_255_def text_ok_def)
qed

text \<open>Two workers meet at a queue of one entry.\<close>

theorem parallel_workers_send_once_witness:
  "\<exists>ts w' m. resume_step\<^sup>*\<^sup>*
      (replicate 2 (co_worker_turn ref_services (\<lambda>c. Some (logging_provider c))), one_waiting) (ts, w') \<and>
    all_finished (ts, w') \<and> w_rows ref_services w' 1 = Some m \<and> status m = status_value SENT \<and>
    logged (w_prov w') = Suc (logged (w_prov one_waiting))"
proof -
  let ?providers = "\<lambda>c. Some (logging_provider c)"
  have "sendable ?providers (row_with QUEUED 1)"
    unfolding sendable_def using row_with_inv [of QUEUED 1]
    by (intro conjI exI [of _ SMS] exI [of _ "logging_provider SMS"]) (simp_all add: logging_provider_sends)
  then have rows: "\<forall>i \<in> fst ` set (w_entries ref_services one_waiting). \<exists>n.
      w_rows ref_services one_waiting i = Some n \<and> nid n = i \<and> sendable ?providers n"
    unfolding one_waiting_facts by simp
  have counts: "counts_sends ?providers logged" by (auto simp: counts_sends_def logging_provider_run)
  have enough: "length (w_entries ref_services one_waiting) \<le> 2" unfolding one_waiting_facts by simp
  obtain ts w' where run: "resume_step\<^sup>*\<^sup>* (replicate 2 (co_worker_turn ref_services ?providers), one_waiting) (ts, w')"
    and over: "all_finished (ts, w')"
    using schedule_completes by (metis prod.collapse)
  from over have "\<nexists>q. resume_step (ts, w') q"
    by (auto simp: all_finished_def elim!: resume_stepE) (metis finished.simps(2) nth_mem)
  with parallel_workers_send_once [OF ref_services_laws one_waiting_facts(3,4,2) rows counts enough run]
  have "logged (w_prov w') = logged (w_prov one_waiting) + 1" "\<exists>m. w_rows ref_services w' 1 = Some m \<and> status m = status_value SENT"
    unfolding one_waiting_facts by (auto simp: sent_from_def)
  with run over show ?thesis by (intro exI [of _ ts] exI [of _ w']) auto
qed

end
