(* ===== verification/Key_Holding.thy ===== *)
theory Key_Holding
  imports Stranding
begin

text \<open>
  A client key in Redis, as long as it does not expire: no handler of the service gives it back, and while
  it is there no row is stored under it. So what a creation missed stays missing.
\<close>

section \<open>A key that is taken\<close>

text \<open>The client key is taken, and the channels \<open>cs\<close> have no row under it.\<close>

definition blocked ::
  "('d, 'r, 'q) services \<Rightarrow> string \<Rightarrow> notification_channel set \<Rightarrow> ('d, 'r, 'q, 'p) world \<Rightarrow> bool"
where
  "blocked S key cs w \<longleftrightarrow> w_kv S w (redis_idem_key key) \<noteq> None \<and>
     (\<forall>c \<in> cs. \<not> key_taken (w_rows S w) (channel_idem_key key c))"

text \<open>No row under a new key, and the keys of Redis as they were.\<close>

definition no_new_key :: "table \<Rightarrow> table \<Rightarrow> bool" where
  "no_new_key tbl tbl' \<longleftrightarrow> (\<forall>k. key_taken tbl' k \<longrightarrow> key_taken tbl k)"

lemma no_new_key_refl [simp]: "no_new_key tbl tbl"
  by (simp add: no_new_key_def)

lemma updated_no_new_key: "updated i as tbl tbl' \<Longrightarrow> no_new_key tbl tbl'"
  by (fastforce simp: updated_def no_new_key_def key_taken_def split: if_splits)

lemma blocked_frame:
  "no_new_key (w_rows S w) (w_rows S w') \<Longrightarrow> w_kv S w' = w_kv S w \<Longrightarrow> keeping (blocked S key cs) w w'"
  by (auto simp: keeping_def blocked_def no_new_key_def)

section \<open>The operations\<close>

lemma blocked_update:
  assumes "services_laws S"
  shows "evolves (keeping (blocked S key cs)) (on_db (update_status (srv_pg S) i st as))"
  by (rule evolvesI, rule blocked_frame)
    (use on_db_update_cases(1,3) [OF assms] updated_no_new_key in fastforce)+

lemma blocked_get: "services_laws S \<Longrightarrow> evolves (keeping (blocked S key cs)) (on_db (get_by_id (srv_pg S) i))"
  by (rule evolvesI, rule blocked_frame) (simp_all add: on_db_get_cases(1,2))

lemma blocked_enqueue:
  fixes S :: "('d, 'r, 'q) services"
  assumes "services_laws S"
  shows "evolves (keeping (blocked S key cs)) (on_svc (enqueue (srv_redis S) i p) :: (('d, 'r, 'q, 'p) world, _) io)"
proof (rule evolvesI, rule blocked_frame)
  fix w w' :: "('d, 'r, 'q, 'p) world" and x
  assume "on_svc (enqueue (srv_redis S) i p) w = (x, w')"
  then obtain s where s: "enqueue (srv_redis S) i p (w_svc w) = (x, s)" "w' = w\<lparr>w_svc := s\<rparr>" by (rule on_svc_cases)
  from s(2) show "no_new_key (w_rows S w) (w_rows S w')" by simp
  from enqueue_frame(1) [OF services_laws_parts(2) [OF assms] s(1)] s(2) show "w_kv S w' = w_kv S w" by simp
qed

lemma blocked_wire: "evolves (keeping (blocked S key cs)) (on_wire m)"
  by (rule evolvesI, rule blocked_frame)
    (auto simp: on_wire_def on_svc_def on_amqp_def io_zoom_def split: prod.splits)

lemma blocked_data: "evolves (same_data S) m \<Longrightarrow> evolves (keeping (blocked S key cs)) m"
  by (auto simp: evolves_def same_data_def intro!: blocked_frame)

lemma blocked_rollback:
  assumes "services_laws S"
  shows "evolves (keeping (blocked S key cs)) (on_db (pg_rollback (srv_pg S)))"
  by (rule evolvesI, rule blocked_frame)
    (use pg_read_law(5) [OF services_laws_parts(1) [OF assms]] in \<open>auto elim!: on_db_cases\<close>)

text \<open>The commands on a key: the one of the key itself finds it taken.\<close>

lemma blocked_setnx:
  assumes "services_laws S" "on_client (r_setnx (srv_redis S) k v) w = (x, w')"
  shows "keeping (blocked S key cs) w w'" and "w_rows S w' = w_rows S w"
    and "blocked S key cs w \<Longrightarrow> k = redis_idem_key key \<Longrightarrow> x \<noteq> Inr True"
proof -
  from client_setnx(1) [OF assms] show rows: "w_rows S w' = w_rows S w" by (simp add: client_frame_def)
  from assms(2) obtain r where r: "r_setnx (srv_redis S) k v (svc_redis (w_svc w)) = (x, r)"
    and w': "w' = w\<lparr>w_svc := (w_svc w)\<lparr>svc_redis := r\<rparr>\<rparr>" by (rule on_client_cases)
  from setnx_law(3) [OF services_laws_parts(2) [OF assms(1)] r] rows show "keeping (blocked S key cs) w w'"
    by (auto simp: keeping_def blocked_def w')
  show "blocked S key cs w \<Longrightarrow> k = redis_idem_key key \<Longrightarrow> x \<noteq> Inr True"
    using client_setnx(2) [OF assms, of True] by (auto simp: blocked_def)
qed

lemma blocked_expire:
  fixes S :: "('d, 'r, 'q) services"
  assumes "services_laws S" "0 < t"
  shows "evolves (keeping (blocked S key cs)) (on_client (r_expire (srv_redis S) k t) :: (('d, 'r, 'q, 'p) world, _) io)"
proof (rule evolvesI, rule blocked_frame)
  fix w w' :: "('d, 'r, 'q, 'p) world" and x
  assume run: "on_client (r_expire (srv_redis S) k t) w = (x, w')"
  from client_expire(1,2) [OF assms(1) run assms(2)]
  show "no_new_key (w_rows S w) (w_rows S w')" "w_kv S w' = w_kv S w" by (simp_all add: client_frame_def)
qed

section \<open>Creation\<close>

lemma blocked_insert:
  assumes laws: "services_laws S" and other: "\<forall>c \<in> cs. a_idempotency_key a \<noteq> channel_idem_key key c"
  shows "evolves (keeping (blocked S key cs)) (on_db (repository_create (srv_pg S) a))"
proof (rule evolvesI)
  fix w w' :: "('a, 'b, 'c, 'd) world" and x
  assume "on_db (repository_create (srv_pg S) a) w = (x, w')"
  then obtain d where run: "repository_create (srv_pg S) a (w_db w) = (x, d)" and w': "w' = w\<lparr>w_db := d\<rparr>"
    by (rule on_db_cases)
  from repo.create_rows [OF services_laws_parts(1) [OF laws] run]
  have new: "k = a_idempotency_key a \<or> key_taken (w_rows S w) k" if "key_taken (w_rows S w') k" for k
    using that by (fastforce simp: w' inserted_def key_taken_def split: if_splits)
  then show "keeping (blocked S key cs) w w'" using other by (force simp: keeping_def blocked_def w')
qed

lemma blocked_create_one:
  assumes laws: "services_laws S" and p: "validated p src ev prio" "c \<in> set (event_channels ev)"
    and other: "req_idempotency_key p \<noteq> key"
  shows "evolves (keeping (blocked S key cs)) (create_one S p c acc)"
proof -
  have "\<forall>d \<in> cs. a_idempotency_key (request_args p src ev prio c) \<noteq> channel_idem_key key d"
    using other by (simp add: channel_idem_key_inj)
  then show ?thesis
    unfolding create_one_def channel_args_validated [OF p] io_of_simps io_return_bind
    by (intro kept.evolves_try kept.evolves_bind evolves_if kept.evolves_return kept.evolves_raise
        blocked_insert blocked_enqueue blocked_rollback laws)
qed

lemma blocked_create_notification:
  assumes laws: "services_laws S" and p: "validated p src ev prio"
  shows "evolves (keeping (blocked S key cs)) (create_notification S p)"
proof (cases "req_idempotency_key p = key")
  case False
  have pos: "0 < IDEMPOTENCY_EXPIRY" by (simp add: IDEMPOTENCY_EXPIRY_def)
  from False show ?thesis
    unfolding create_notification_def Let_def validated_as_int(4) [OF p] io_of_simps io_return_bind
    by (intro kept.evolves_bind kept.evolves_return evolves_if kept.evolves_foreach blocked_create_one [OF laws p]
        blocked_expire [OF laws pos] evolvesI [OF blocked_setnx(1) [OF laws]])
next
  case True
  show ?thesis
  proof (rule evolvesI, unfold keeping_def, rule impI)
    fix w w' :: "('a, 'b, 'c, 'd) world" and x
    assume run: "create_notification S p w = (x, w')" and held: "blocked S key cs w"
    obtain y w1 where setnx: "on_client (r_setnx (srv_redis S) (redis_idem_key (req_idempotency_key p)) ''1'') w = (y, w1)"
      by (cases "on_client (r_setnx (srv_redis S) (redis_idem_key (req_idempotency_key p)) ''1'') w")
    from blocked_setnx(3) [OF laws setnx held] True have "y \<noteq> Inr True" by simp
    with run setnx have "w' = w1"
      by (cases y) (auto simp: create_notification_def Let_def io_bind_def io_return_def)
    with blocked_setnx(1) [OF laws setnx] held show "blocked S key cs w'" by (simp add: keeping_def)
  qed
qed

section \<open>The callbacks, the manual retry and the workers\<close>

lemma blocked_new_event:
  assumes laws: "services_laws S"
  shows "evolves (keeping (blocked S key cs)) (on_new_event S msg)"
proof -
  have "evolves (keeping (blocked S key cs)) (process_event S msg)"
  proof (cases "delivery_payload msg")
    case (Inl e)
    then show ?thesis by (intro evolvesI) (simp add: process_event_invalid keeping_def)
  next
    case (Inr p)
    then obtain src ev prio where "validated p src ev prio" by (rule delivery_payload_validated)
    from blocked_create_notification [OF laws this] Inr show ?thesis by (simp add: process_event_def)
  qed
  then show ?thesis
    unfolding on_new_event_parts msg_ack_def msg_nack_def
    by (intro kept.evolves_try kept.evolves_bind blocked_wire)
qed

lemma blocked_retry_event:
  assumes laws: "services_laws S"
  shows "evolves (keeping (blocked S key cs)) (on_retry_event S msg)"
  unfolding on_retry_event_def msg_ack_def msg_nack_def
  by (intro kept.evolves_try kept.evolves_bind kept.evolves_of kept.evolves_return evolves_case_option
      blocked_get blocked_enqueue blocked_wire laws)

lemma blocked_retry_notification:
  assumes laws: "services_laws S"
  shows "evolves (keeping (blocked S key cs)) (retry_notification S i)"
  unfolding retry_notification_def
  by (intro kept.evolves_bind kept.evolves_return evolves_case_option evolves_if
      blocked_get blocked_update blocked_enqueue laws)

lemma blocked_with_handlers:
  "evolves (keeping (blocked S key cs)) m \<Longrightarrow> evolves (keeping (blocked S key cs)) (with_handlers m)"
  unfolding with_handlers_def by (intro kept.evolves_try kept.evolves_return)

lemma blocked_serve:
  assumes laws: "services_laws S"
  shows "evolves (keeping (blocked S key cs)) (serve S providers parse_int rq)"
proof (cases "resolve app_routes (rq_method rq) (rq_path rq)")
  case (Found e xs)
  have post: "evolves (keeping (blocked S key cs)) (create_endpoint S rq)"
  proof (cases "\<exists>j p. rq_json rq = Inr j \<and> create_body j = Inr p")
    case True
    then obtain j p where body: "rq_json rq = Inr j" "create_body j = Inr p" by blast
    then obtain src ev prio where "validated p src ev prio" using create_body_init init_validated by blast
    from blocked_create_notification [OF laws this] body show ?thesis
      unfolding create_endpoint_def post_notification_def
      by (auto intro!: blocked_with_handlers kept.evolves_bind kept.evolves_return split: prod.splits)
  qed (auto simp: create_endpoint_def post_notification_def kept.evolves_return split: sum.split)
  have retry: "evolves (keeping (blocked S key cs)) (retry_route S j)" for j
    unfolding retry_route_def
    by (intro blocked_with_handlers kept.evolves_bind blocked_retry_notification [OF laws])
      (auto intro: kept.evolves_return kept.evolves_raise split: prod.splits option.splits)
  have "evolves (keeping (blocked S key cs)) (run_endpoint S providers parse_int rq e xs)"
  proof (cases "reads_only e")
    case True
    from blocked_data [OF run_endpoint_data [OF laws this]] show ?thesis .
  next
    case False
    then show ?thesis
      using post with_id_evolves [OF retry kept.evolves_return]
      by (cases e) (simp_all add: reads_only_def run_endpoint_def)
  qed
  with Found show ?thesis by (simp add: serve_def)
qed (simp_all add: serve_def kept.evolves_return)

text \<open>A dispatch writes its row only and no key of Redis.\<close>

lemma no_new_key_trans: "no_new_key u v \<Longrightarrow> no_new_key v w \<Longrightarrow> no_new_key u w"
  by (simp add: no_new_key_def)

definition keys_within ::
  "('d, 'r, 'q) services \<Rightarrow> ('d, 'r, 'q, 'p) world \<Rightarrow> ('d, 'r, 'q, 'p) world \<Rightarrow> bool"
where
  "keys_within S w w' \<longleftrightarrow> no_new_key (w_rows S w) (w_rows S w')"

interpretation within: io_preorder "keys_within S" for S
  by unfold_locales (auto simp: keys_within_def intro: no_new_key_trans)

lemma keys_within_db: "evolves (same w_db) m \<Longrightarrow> evolves (keys_within S) m"
  by (auto simp: evolves_def same_def keys_within_def)

lemma keys_within_update:
  assumes "services_laws S"
  shows "evolves (keys_within S) (on_db (update_status (srv_pg S) i st as))"
proof (rule evolvesI, unfold keys_within_def)
  fix w w' :: "('a, 'b, 'c, 'd) world" and x
  assume "on_db (update_status (srv_pg S) i st as) w = (x, w')"
  from on_db_update_cases(3) [OF assms this] show "no_new_key (w_rows S w) (w_rows S w')"
    by (auto intro: updated_no_new_key)
qed

lemma keys_within_get: "services_laws S \<Longrightarrow> evolves (keys_within S) (on_db (get_by_id (srv_pg S) i))"
  by (rule evolvesI) (simp add: keys_within_def on_db_get_cases(1))

lemmas keys_within_intros = within.evolves_bind within.evolves_return within.evolves_of evolves_if
  evolves_case_option keys_within_update keys_within_get keys_within_db [OF on_parts_frame(3)]
  keys_within_db [OF on_parts_frame(5)] keys_within_db [OF send_to_dlq_db]

lemma dispatch_keys_within:
  assumes "services_laws S"
  shows "evolves (keys_within S) (dispatch S providers i)"
  unfolding dispatch_def mark_sent_def mark_failed_def schedule_retry_def Let_def
  by (intro keys_within_intros assms)

lemma blocked_turn:
  assumes laws: "services_laws S" and run: "worker_turn S providers w = (x, w')"
  shows "keeping (blocked S key cs) w w'"
proof -
  note R = services_laws_parts(2) [OF laws]
  from run show ?thesis
  proof (cases rule: worker_turn_cases)
    case (idle y s)
    with dequeue_frame [OF R idle(1)] show ?thesis by (intro blocked_frame) simp_all
  next
    case (dispatched i s y)
    from evolvesD [OF dispatch_keys_within [OF laws] dispatched(2)] have "no_new_key (w_rows S w) (w_rows S w')"
      by (simp add: keys_within_def)
    moreover from evolvesD [OF dispatch_queue dispatched(2)] dequeue_frame [OF R dispatched(1)]
    have "w_kv S w' = w_kv S w" by (simp add: same_def world_queue_def queue_side_def)
    ultimately show ?thesis by (rule blocked_frame)
  qed
qed

section \<open>Steps that leave the key\<close>

text \<open>Everything the service does, and whatever the servers do that writes no row and does not expire the
  client key.\<close>

inductive later_step ::
  "('d, 'r, 'q) services \<Rightarrow> (notification_channel \<Rightarrow> 'p provider option) \<Rightarrow> (string \<Rightarrow> int option) \<Rightarrow> string \<Rightarrow>
   ('d, 'r, 'q, 'p) world \<Rightarrow> ('d, 'r, 'q, 'p) world \<Rightarrow> bool"
  for S :: "('d, 'r, 'q) services" and providers :: "notification_channel \<Rightarrow> 'p provider option"
    and parse_int :: "string \<Rightarrow> int option" and key :: string
where
  served: "serve S providers parse_int rq w = (x, w') \<Longrightarrow> later_step S providers parse_int key w w'"
| new_event: "on_new_event S msg w = (u, w') \<Longrightarrow> later_step S providers parse_int key w w'"
| retry_event: "on_retry_event S msg w = (u, w') \<Longrightarrow> later_step S providers parse_int key w w'"
| worker: "worker_turn S providers w = (u, w') \<Longrightarrow> later_step S providers parse_int key w w'"
| outside: "w_rows S w' = w_rows S w \<Longrightarrow>
    (w_kv S w (redis_idem_key key) \<noteq> None \<Longrightarrow> w_kv S w' (redis_idem_key key) \<noteq> None) \<Longrightarrow>
    later_step S providers parse_int key w w'"

lemma later_step_blocked:
  assumes laws: "services_laws S" and step: "later_step S providers parse_int key w w'" and held: "blocked S key cs w"
  shows "blocked S key cs w'"
  using step
proof cases
  case (served rq x)
  from evolvesD [OF blocked_serve [OF laws] served] held show ?thesis by (simp add: keeping_def)
next
  case (new_event msg u)
  from evolvesD [OF blocked_new_event [OF laws] new_event] held show ?thesis by (simp add: keeping_def)
next
  case (retry_event msg u)
  from evolvesD [OF blocked_retry_event [OF laws] retry_event] held show ?thesis by (simp add: keeping_def)
next
  case (worker u)
  from blocked_turn [OF laws worker] held show ?thesis by (simp add: keeping_def)
next
  case outside
  with held show ?thesis by (simp add: blocked_def)
qed

lemma later_steps_blocked:
  assumes "services_laws S" "(later_step S providers parse_int key)\<^sup>*\<^sup>* w w'" "blocked S key cs w"
  shows "blocked S key cs w'"
  using assms(2,3) by (induction rule: rtranclp_induct) (auto intro: later_step_blocked [OF assms(1)])

end
