(* ===== verification/Unqueued_Properties.thy ===== *)
theory Unqueued_Properties
  imports Key_Holding Sample_Data
begin

text \<open>
  Creation while Redis fails between the commands on the key and the ZADD: what \<open>enqueue\<close> returns is
  dropped, and nothing but a manual retry looks at the rows again.
\<close>

section \<open>An outage\<close>

text \<open>In the states \<open>down\<close> of Redis an entry is not added, and further ZADDs leave it down.\<close>

definition adds_lost :: "'r redis \<Rightarrow> ('r \<Rightarrow> bool) \<Rightarrow> bool" where
  "adds_lost R down \<longleftrightarrow> (\<forall>m sc r. down r \<longrightarrow>
     (\<exists>e r'. r_zadd_nx R QUEUE_KEY m sc r = (Inl e, r') \<and> down r' \<and> r_zset R r' = r_zset R r))"

text \<open>Rows are written meanwhile, but no entry and no key.\<close>

definition not_queued ::
  "('d, 'r, 'q) services \<Rightarrow> ('r \<Rightarrow> bool) \<Rightarrow> ('d, 'r, 'q, 'p) world \<Rightarrow> ('d, 'r, 'q, 'p) world \<Rightarrow> bool" where
  "not_queued S down w w' \<longleftrightarrow> w_entries S w' = w_entries S w \<and> w_kv S w' = w_kv S w \<and>
     (queue_ok S w \<longrightarrow> queue_ok S w') \<and> (down (svc_redis (w_svc w)) \<longrightarrow> down (svc_redis (w_svc w')))"

lemma not_queued_trans: "not_queued S down u v \<Longrightarrow> not_queued S down v w \<Longrightarrow> not_queued S down u w"
  by (simp add: not_queued_def)

lemma enqueue_lost:
  assumes laws: "services_laws S" and lost: "adds_lost (srv_redis S) down" and d: "down (svc_redis (w_svc w))"
  obtains w' where "on_svc (enqueue (srv_redis S) i p) w = (Inr False, w')" "not_queued S down w w'" "w_db w' = w_db w"
proof -
  let ?s = "w_svc w"
  from lost d obtain e r where zadd:
    "r_zadd_nx (srv_redis S) QUEUE_KEY (str_of_int i) (queue_stamp ?s p) (svc_redis ?s) = (Inl e, r)"
    and r: "down r" "r_zset (srv_redis S) r = r_zset (srv_redis S) (svc_redis ?s)"
    unfolding adds_lost_def by blast
  let ?s' = "(tick_host ?s)\<lparr>svc_redis := r\<rparr>"
  from zadd have run: "enqueue (srv_redis S) i p ?s = (Inr False, ?s')" by (simp add: enqueue_run)
  from enqueue_frame(1) [OF services_laws_parts(2) [OF laws] run]
  have kv: "r_kv (srv_redis S) r = r_kv (srv_redis S) (svc_redis ?s)" by simp
  show thesis
  proof (rule that [of "w\<lparr>w_svc := ?s'\<rparr>"])
    show "on_svc (enqueue (srv_redis S) i p) w = (Inr False, w\<lparr>w_svc := ?s'\<rparr>)" using run by (rule on_svc_run)
    show "not_queued S down w (w\<lparr>w_svc := ?s'\<rparr>)"
      using kv r by (simp add: not_queued_def queue_entries_def queue_ok_def queue_ids_ok_def clock_ok_def tick_host_def)
  qed simp
qed

section \<open>Creation\<close>

text \<open>One channel, and the loop over the channels.\<close>

lemma create_one_unqueued:
  assumes laws: "services_laws S" and p: "validated p src ev prio" "c \<in> set (event_channels ev)"
    and up: "db_up S w" and lost: "adds_lost (srv_redis S) down" "down (svc_redis (w_svc w))"
    and fits: "fits p src ev prio c"
    and fresh: "\<not> key_taken (w_rows S w) (channel_idem_key (req_idempotency_key p) c)"
  obtains n w' where "create_one S p c acc w = (Inr (acc @ [n]), w')" "db_up S w'" "not_queued S down w w'"
    "created_row p src ev prio c n" "w_rows S w (nid n) = None" "w_rows S w' = (w_rows S w)(nid n \<mapsto> n)"
proof -
  obtain n d where n: "created_row p src ev prio c n" "w_rows S w (nid n) = None" and d: "pg_up (srv_pg S) d"
    "pg_rows (srv_pg S) d = (w_rows S w)(nid n \<mapsto> n)"
    and run: "\<And>b w'. on_svc (enqueue (srv_redis S) (nid n) (priority n)) (w\<lparr>w_db := d\<rparr>) = (Inr b, w') \<Longrightarrow>
      create_one S p c acc w = (Inr (acc @ [n]), w')"
    by (rule create_one_stored [OF laws p up fits fresh]) blast
  from lost(2) have "down (svc_redis (w_svc (w\<lparr>w_db := d\<rparr>)))" by simp
  then obtain w' where enq: "on_svc (enqueue (srv_redis S) (nid n) (priority n)) (w\<lparr>w_db := d\<rparr>) = (Inr False, w')"
    and w': "not_queued S down (w\<lparr>w_db := d\<rparr>) w'" "w_db w' = w_db (w\<lparr>w_db := d\<rparr>)"
    by (rule enqueue_lost [OF laws lost(1)])
  from d w' have "db_up S w'" "not_queued S down w w'" "w_rows S w' = (w_rows S w)(nid n \<mapsto> n)"
    by (simp_all add: db_up_def not_queued_def queue_ok_def clock_ok_def)
  with n show thesis by (intro that [OF run [OF enq]])
qed

definition stored_only ::
  "('d, 'r, 'q) services \<Rightarrow> ('r \<Rightarrow> bool) \<Rightarrow> notification_create \<Rightarrow> source_service_t \<Rightarrow> event_type_t \<Rightarrow>
   notification_priority \<Rightarrow> notification_channel list \<Rightarrow> ('d, 'r, 'q, 'p) world \<Rightarrow>
   notification list \<Rightarrow> ('d, 'r, 'q, 'p) world \<Rightarrow> bool"
where
  "stored_only S down p src ev prio cs w ns w' \<longleftrightarrow>
     list_all2 (created_row p src ev prio) cs ns \<and> not_queued S down w w' \<and> w_rows S w \<subseteq>\<^sub>m w_rows S w' \<and>
     (\<forall>n \<in> set ns. w_rows S w' (nid n) = Some n \<and> w_rows S w (nid n) = None)"

lemma foreach_create_unqueued:
  assumes laws: "services_laws S" and p: "validated p src ev prio" and lost: "adds_lost (srv_redis S) down"
  shows "down (svc_redis (w_svc w)) \<Longrightarrow> set cs \<subseteq> set (event_channels ev) \<Longrightarrow> distinct cs \<Longrightarrow> db_up S w \<Longrightarrow>
    \<forall>c \<in> set cs. fits p src ev prio c \<and>
      \<not> key_taken (w_rows S w) (channel_idem_key (req_idempotency_key p) c) \<Longrightarrow>
    \<exists>ns w'. io_foreach (create_one S p) cs acc w = (Inr (acc @ ns), w') \<and> db_up S w' \<and>
      stored_only S down p src ev prio cs w ns w'"
proof (induction cs arbitrary: acc w)
  case (Cons c cs)
  let ?key = "channel_idem_key (req_idempotency_key p)"
  from Cons.prems(2-) have c: "c \<in> set (event_channels ev)" "fits p src ev prio c" "\<not> key_taken (w_rows S w) (?key c)"
    by simp_all
  obtain n w1 where one: "create_one S p c acc w = (Inr (acc @ [n]), w1)"
    and w1: "db_up S w1" "not_queued S down w w1" "created_row p src ev prio c n" "w_rows S w (nid n) = None"
      "w_rows S w1 = (w_rows S w)(nid n \<mapsto> n)"
    by (rule create_one_unqueued [OF laws p c(1) Cons.prems(4) lost Cons.prems(1) c(2,3)])
  have "\<not> key_taken (w_rows S w1) (?key c')" if "c' \<in> set cs" for c'
    using that Cons.prems(3,5) created_row_key [OF w1(3)]
    by (auto simp: key_taken_def w1(5) channel_idem_key_inj split: if_splits)
  moreover from w1(2) Cons.prems(1) have "down (svc_redis (w_svc w1))" by (simp add: not_queued_def)
  ultimately have "\<exists>ns w'.
      io_foreach (create_one S p) cs (acc @ [n]) w1 = (Inr ((acc @ [n]) @ ns), w') \<and> db_up S w' \<and>
      stored_only S down p src ev prio cs w1 ns w'"
    using Cons.prems w1(1) by (intro Cons.IH) simp_all
  then obtain ns w' where
    rest: "io_foreach (create_one S p) cs (acc @ [n]) w1 = (Inr ((acc @ [n]) @ ns), w')" "db_up S w'"
      "stored_only S down p src ev prio cs w1 ns w'" by blast
  have below: "w_rows S w \<subseteq>\<^sub>m w_rows S w1" using w1(4,5) by (auto simp: map_le_def)
  have "w_rows S w' (nid n) = Some n"
    using rest(3) w1(5) by (auto simp: stored_only_def map_le_def dest!: bspec [of _ _ "nid n"])
  moreover have "w_rows S w (nid m) = None" if "m \<in> set ns" for m
    using that rest(3) w1(5) by (auto simp: stored_only_def split: if_splits)
  ultimately have "stored_only S down p src ev prio (c # cs) w (n # ns) w'"
    using rest(3) w1(2,3,4) map_le_trans [OF below, of "w_rows S w'"] not_queued_trans [OF w1(2), of w']
    by (auto simp: stored_only_def)
  moreover have "io_foreach (create_one S p) (c # cs) acc w = (Inr (acc @ n # ns), w')"
    using one rest(1) by (simp add: io_simps)
  ultimately show ?case using rest(2) by blast
qed (simp add: io_simps stored_only_def not_queued_def)

text \<open>The whole operation, when the outage begins after the key got its expiry.\<close>

lemma create_notification_unqueued:
  fixes w :: "('d, 'r, 'q, 'p) world"
  assumes laws: "services_laws S" and p: "validated p src ev prio" and up: "db_up S w"
    and keys: "r_setnx (srv_redis S) (redis_idem_key (req_idempotency_key p)) ''1'' (svc_redis (w_svc w)) = (Inr True, r1)"
      "r_expire (srv_redis S) (redis_idem_key (req_idempotency_key p)) IDEMPOTENCY_EXPIRY r1 = (Inr (), r2)"
    and lost: "down r2" "adds_lost (srv_redis S) down"
    and chans: "\<forall>c \<in> set (event_channels ev). fits p src ev prio c \<and>
      \<not> key_taken (w_rows S w) (channel_idem_key (req_idempotency_key p) c)"
  obtains ns w' where "create_notification S p w = (Inr (ns, False), w')"
    "list_all2 (created_row p src ev prio) (event_channels ev) ns" "w_entries S w' = w_entries S w"
    "\<forall>n \<in> set ns. w_rows S w' (nid n) = Some n \<and> w_rows S w (nid n) = None"
    "w_kv S w' (redis_idem_key (req_idempotency_key p)) \<noteq> None" "queue_ok S w \<Longrightarrow> queue_ok S w'"
proof -
  let ?k = "redis_idem_key (req_idempotency_key p)"
  have pos: "0 < IDEMPOTENCY_EXPIRY" by (simp add: IDEMPOTENCY_EXPIRY_def)
  define w1 where "w1 = w\<lparr>w_svc := (w_svc w)\<lparr>svc_redis := r1\<rparr>\<rparr>"
  define w2 where "w2 = w1\<lparr>w_svc := (w_svc w1)\<lparr>svc_redis := r2\<rparr>\<rparr>"
  from keys(1) have setnx: "on_client (r_setnx (srv_redis S) ?k ''1'') w = (Inr True, w1)"
    unfolding w1_def by (rule on_client_run)
  from keys(2) have expire: "on_client (r_expire (srv_redis S) ?k IDEMPOTENCY_EXPIRY) w1 = (Inr (), w2)"
    unfolding w2_def by (intro on_client_run) (simp add: w1_def)
  note f1 = client_setnx [OF laws setnx] and f2 = client_expire [OF laws expire pos]
  from f1(2) [OF refl] f2(2) have kv: "w_kv S w2 ?k \<noteq> None" by auto
  have w2: "w_db w2 = w_db w" "w_entries S w2 = w_entries S w" "queue_ok S w \<Longrightarrow> queue_ok S w2"
    using f1(1) f2(1) by (simp_all add: client_frame_def)
  have d2: "down (svc_redis (w_svc w2))" using lost(1) by (simp add: w2_def)
  have up2: "db_up S w2" and chans2: "\<forall>c \<in> set (event_channels ev). fits p src ev prio c \<and>
      \<not> key_taken (w_rows S w2) (channel_idem_key (req_idempotency_key p) c)"
    using up chans by (simp_all add: db_up_def w2(1))
  from foreach_create_unqueued [OF laws p lost(2) d2 subset_refl distinct_event_channels up2 chans2, of "[]"]
  obtain ns w' where run: "io_foreach (create_one S p) (event_channels ev) [] w2 = (Inr ns, w')"
    and all: "stored_only S down p src ev prio (event_channels ev) w2 ns w'" by auto
  have "create_notification S p w = (Inr (ns, False), w')"
    using setnx expire run p by (simp add: create_notification_def Let_def io_bind_def io_return_def)
  with all w2 kv show thesis by (intro that [of ns w']) (auto simp: stored_only_def not_queued_def)
qed

section \<open>Afterwards\<close>

text \<open>Everything the service does but a manual retry of the row or a retry message with its id, and whatever
  the servers do that adds no entry with it and writes no row.\<close>

inductive unaided_step ::
  "('d, 'r, 'q) services \<Rightarrow> (notification_channel \<Rightarrow> 'p provider option) \<Rightarrow> (string \<Rightarrow> int option) \<Rightarrow> int \<Rightarrow>
   ('d, 'r, 'q, 'p) world \<Rightarrow> ('d, 'r, 'q, 'p) world \<Rightarrow> bool"
  for S :: "('d, 'r, 'q) services" and providers :: "notification_channel \<Rightarrow> 'p provider option"
    and parse_int :: "string \<Rightarrow> int option" and i :: int
where
  served: "\<not> retries_row parse_int rq i \<Longrightarrow> serve S providers parse_int rq w = (x, w') \<Longrightarrow>
    unaided_step S providers parse_int i w w'"
| new_event: "on_new_event S msg w = (u, w') \<Longrightarrow> unaided_step S providers parse_int i w w'"
| other_retry: "decoded_id msg \<noteq> Inr i \<Longrightarrow> on_retry_event S msg w = (u, w') \<Longrightarrow>
    unaided_step S providers parse_int i w w'"
| worker: "worker_turn S providers w = (u, w') \<Longrightarrow> unaided_step S providers parse_int i w w'"
| outside: "w_rows S w' = w_rows S w \<Longrightarrow> (i \<in> fst ` set (w_entries S w') \<Longrightarrow> i \<in> fst ` set (w_entries S w)) \<Longrightarrow>
    (queue_ok S w \<Longrightarrow> queue_ok S w') \<Longrightarrow> unaided_step S providers parse_int i w w'"

lemma unaided_apart:
  assumes laws: "services_laws S" and provs: "providers_ok providers"
    and step: "unaided_step S providers parse_int i w w'" and apart: "apart S i n w"
  shows "apart S i n w'"
  using step
proof cases
  case (served rq x)
  from evolvesD [OF apart_serve [OF laws disjI2 [OF served(1)]] served(2)] apart show ?thesis
    by (simp add: keeping_def)
next
  case (new_event msg u)
  from evolvesD [OF apart_new_event [OF laws] new_event] apart show ?thesis by (simp add: keeping_def)
next
  case (other_retry msg u)
  from evolvesD [OF apart_retry_event [OF laws other_retry(1)] other_retry(2)] apart show ?thesis
    by (simp add: keeping_def)
next
  case (worker u)
  from apart_turn [OF laws provs apart worker] show ?thesis .
next
  case outside
  with apart show ?thesis by (auto simp: apart_def)
qed

lemma unaided_steps_apart:
  assumes "services_laws S" "providers_ok providers" "(unaided_step S providers parse_int i)\<^sup>*\<^sup>* w w'" "apart S i n w"
  shows "apart S i n w'"
  using assms(3,4) by (induction rule: rtranclp_induct) (auto intro: unaided_apart [OF assms(1,2)])

text \<open>The same request again.\<close>

lemma post_duplicate:
  assumes "services_laws S" "redis_up S w" "w_kv S w (redis_idem_key (req_idempotency_key p)) \<noteq> None"
  obtains w' where "post_notification S (Inr p) w =
      (Inr \<lparr>http_status = 409, http_body = Duplicate_of (req_idempotency_key p)\<rparr>, w')" "w_rows S w' = w_rows S w"
proof -
  obtain w' where "create_notification S p w = (Inr ([], True), w')" "client_frame S w w'"
    by (rule create_notification_duplicate [OF assms])
  then show thesis
    by (intro that [of w']) (simp_all add: post_notification_def with_handlers_def io_simps client_frame_def)
qed

text \<open>C37. A creation during which Redis goes down, after it took the key and before it takes the ids, loses its
  notifications: it is answered 201 with one pending row per channel, and whatever the service does and
  however the servers recover, each row stays pending and its id out of the queue unless it is retried by
  hand; and as long as the key does not expire, the same request is answered 409 and stores nothing.\<close>

theorem created_without_queue:
  fixes w :: "('d, 'r, 'q, 'p) world" and providers :: "notification_channel \<Rightarrow> 'p provider option"
  assumes laws: "services_laws S" "providers_ok providers" and p: "validated p src ev prio"
    and w: "db_up S w" "life_inv (w_rows S w)" "queue_ok S w" "fst ` set (w_entries S w) \<subseteq> dom (w_rows S w)"
    and keys: "r_setnx (srv_redis S) (redis_idem_key (req_idempotency_key p)) ''1'' (svc_redis (w_svc w)) = (Inr True, r1)"
      "r_expire (srv_redis S) (redis_idem_key (req_idempotency_key p)) IDEMPOTENCY_EXPIRY r1 = (Inr (), r2)"
    and outage: "down r2" "adds_lost (srv_redis S) down"
    and chans: "\<forall>c \<in> set (event_channels ev). fits p src ev prio c \<and>
      \<not> key_taken (w_rows S w) (channel_idem_key (req_idempotency_key p) c)"
  shows "\<exists>ns w1. post_notification S (Inr p) w = (Inr \<lparr>http_status = 201, http_body = Created
      \<lparr>cr_idempotency_key = req_idempotency_key p, cr_event_type = req_event_type p,
       cr_notifications = map channel_status_convert ns\<rparr>\<rparr>, w1) \<and>
    list_all2 (created_row p src ev prio) (event_channels ev) ns \<and>
    (\<forall>n \<in> set ns. status n = status_value PENDING \<and>
       (\<forall>w2. (unaided_step S providers parse_int (nid n))\<^sup>*\<^sup>* w1 w2 \<longrightarrow>
          w_rows S w2 (nid n) = Some n \<and> nid n \<notin> fst ` set (w_entries S w2))) \<and>
    (\<forall>w2. (later_step S providers parse_int (req_idempotency_key p))\<^sup>*\<^sup>* w1 w2 \<and> redis_up S w2 \<longrightarrow>
       (\<exists>w3. post_notification S (Inr p) w2 =
          (Inr \<lparr>http_status = 409, http_body = Duplicate_of (req_idempotency_key p)\<rparr>, w3) \<and>
        w_rows S w3 = w_rows S w2))"
proof -
  obtain ns w1 where run: "create_notification S p w = (Inr (ns, False), w1)"
    and ns: "list_all2 (created_row p src ev prio) (event_channels ev) ns" "w_entries S w1 = w_entries S w"
      "\<forall>n \<in> set ns. w_rows S w1 (nid n) = Some n \<and> w_rows S w (nid n) = None"
    and key: "w_kv S w1 (redis_idem_key (req_idempotency_key p)) \<noteq> None" and ok: "queue_ok S w1"
    by (rule create_notification_unqueued [OF laws(1) p w(1) keys outage chans]) (use w(3) in blast)
  have inv: "life_inv (w_rows S w1)"
    using evolvesD [OF life_create_notification [OF laws(1) p] run] w(2) life_writes_inv
    unfolding life_steps_def by blast
  have "apart S (nid n) n w1" if "n \<in> set ns" for n
    using that ns(2,3) inv ok w(4) by (auto simp: apart_def)
  then have stays: "w_rows S w2 (nid n) = Some n \<and> nid n \<notin> fst ` set (w_entries S w2)"
    if "n \<in> set ns" "(unaided_step S providers parse_int (nid n))\<^sup>*\<^sup>* w1 w2" for n w2
    using unaided_steps_apart [OF laws that(2)] that(1) by (simp add: apart_def)
  have pending: "status n = status_value PENDING" if "n \<in> set ns" for n
    using ns(1) that by (auto simp: list_all2_conv_all_nth in_set_conv_nth created_row_def request_args_def row_of_args_def)
  have "blocked S (req_idempotency_key p) {} w1" using key by (simp add: blocked_def)
  then have again: "\<exists>w3. post_notification S (Inr p) w2 =
      (Inr \<lparr>http_status = 409, http_body = Duplicate_of (req_idempotency_key p)\<rparr>, w3) \<and> w_rows S w3 = w_rows S w2"
    if "(later_step S providers parse_int (req_idempotency_key p))\<^sup>*\<^sup>* w1 w2" "redis_up S w2" for w2
    using later_steps_blocked [OF laws(1) that(1)] post_duplicate [OF laws(1) that(2), of p]
    unfolding blocked_def by metis
  have "post_notification S (Inr p) w = (Inr \<lparr>http_status = 201, http_body = Created
      \<lparr>cr_idempotency_key = req_idempotency_key p, cr_event_type = req_event_type p,
       cr_notifications = map channel_status_convert ns\<rparr>\<rparr>, w1)"
    using run by (simp add: post_notification_def with_handlers_def io_simps)
  with ns(1) pending stays again show ?thesis by blast
qed

text \<open>A server that goes down after the first EXPIRE since its start and keeps its data; it comes back.\<close>

definition crash_redis :: "ref_redis redis" where
  "crash_redis = ref_redis_ops\<lparr>r_up := (\<lambda>r. rr_up r \<and> rr_strings r ''stable'' \<noteq> None),
     r_expire := (\<lambda>k t r. if rr_strings r ''stable'' = None then (Inr (), r\<lparr>rr_up := False\<rparr>) else rr_expire k t r)\<rparr>"

definition crash_services :: "(ref_db, ref_redis, ref_amqp) services" where
  "crash_services = ref_services\<lparr>srv_redis := crash_redis\<rparr>"

lemma crash_redis_simps [simp]:
  "r_kv crash_redis = rr_strings" "r_zset crash_redis = rr_zset" "r_setnx crash_redis = rr_setnx"
  "r_zadd_nx crash_redis = rr_zadd_nx" "r_bzpopmin crash_redis = rr_bzpopmin"
  "r_zcard crash_redis = rr_zcard" "r_zrem crash_redis = rr_zrem"
  "srv_pg crash_services = ref_pg" "srv_redis crash_services = crash_redis" "srv_amqp crash_services = ref_amqp_ops"
  by (simp_all add: crash_redis_def crash_services_def)

lemma rr_zset_up [simp]: "rr_zset (r\<lparr>rr_up := b\<rparr>) = rr_zset r"
  by (simp add: rr_zset_def fun_eq_iff)

lemma crash_services_laws: "services_laws crash_services"
proof -
  have "redis_string_laws crash_redis"
    unfolding redis_string_laws_def
    by (auto simp: crash_redis_def rr_setnx_def rr_expire_def Let_def split: if_splits sum.splits)
  moreover have "redis_zset_laws crash_redis"
    using ref_redis_zset_laws unfolding redis_zset_laws_def crash_redis_simps ref_redis_simps .
  moreover have "redis_up_laws crash_redis"
    unfolding redis_up_laws_def
    by (auto simp: crash_redis_def rr_setnx_def rr_expire_def rr_zadd_nx_def rr_bzpopmin_def rr_zcard_def rr_zrem_def
        split: if_splits list.splits)
  ultimately show ?thesis
    using ref_services_laws by (simp add: services_laws_def redis_laws_def)
qed

theorem created_without_queue_witness:
  "\<exists>n (w1 :: ref_world) (w2 :: ref_world) (w3 :: ref_world). post_notification crash_services (Inr sample_payload) ref_init = (Inr \<lparr>http_status = 201,
       http_body = Created \<lparr>cr_idempotency_key = req_idempotency_key sample_payload,
         cr_event_type = req_event_type sample_payload, cr_notifications = [channel_status_convert n]\<rparr>\<rparr>, w1) \<and>
     redis_up crash_services w2 \<and> w_rows crash_services w2 (nid n) = Some n \<and> status n = status_value PENDING \<and>
     nid n \<notin> fst ` set (w_entries crash_services w2) \<and>
     post_notification crash_services (Inr sample_payload) w2 =
       (Inr \<lparr>http_status = 409, http_body = Duplicate_of (req_idempotency_key sample_payload)\<rparr>, w3)"
proof -
  let ?S = crash_services and ?k = "redis_idem_key (req_idempotency_key sample_payload)"
  let ?r = "svc_redis (w_svc ref_init)"
  have r: "rr_up ?r" "rr_strings ?r = (\<lambda>_. None)" by (simp_all add: ref_init_def)
  let ?r1 = "?r\<lparr>rr_strings := [?k \<mapsto> ''1'']\<rparr>"
  have stable: "?k \<noteq> ''stable''" by (simp add: redis_idem_key_def)
  have setnx: "r_setnx (srv_redis ?S) ?k ''1'' ?r = (Inr True, ?r1)" using r by (simp add: rr_setnx_def)
  have expire: "r_expire (srv_redis ?S) ?k IDEMPOTENCY_EXPIRY ?r1 = (Inr (), ?r1\<lparr>rr_up := False\<rparr>)"
    using stable by (simp add: crash_redis_def)
  have lost: "adds_lost (srv_redis ?S) (\<lambda>r. \<not> rr_up r)" by (auto simp: adds_lost_def rr_zadd_nx_def)
  have init: "db_up ?S ref_init" "life_inv (w_rows ?S ref_init)" "queue_ok ?S ref_init"
    "fst ` set (w_entries ?S ref_init) \<subseteq> dom (w_rows ?S ref_init)"
    using ref_init_ok by (simp_all add: db_up_def queue_ok_def clock_ok_def queue_ids_ok_def queue_entries_def)
  have chans: "\<forall>c \<in> set (event_channels PAYMENT_OTP_REQUESTED).
      fits sample_payload PAYMENT PAYMENT_OTP_REQUESTED CRITICAL c \<and>
      \<not> key_taken (w_rows ?S ref_init) (channel_idem_key (req_idempotency_key sample_payload) c)"
    using sample_fits by (simp add: key_taken_def)
  have down: "\<not> rr_up (?r1\<lparr>rr_up := False\<rparr>)" by simp
  note holds = created_without_queue [where parse_int = int_of_str and down = "\<lambda>r. \<not> rr_up r",
      OF crash_services_laws main_providers_contract sample_validated init setnx expire down lost chans]
  from holds obtain ns w1 where run: "post_notification ?S (Inr sample_payload) ref_init = (Inr \<lparr>http_status = 201,
       http_body = Created \<lparr>cr_idempotency_key = req_idempotency_key sample_payload,
         cr_event_type = req_event_type sample_payload, cr_notifications = map channel_status_convert ns\<rparr>\<rparr>, w1)"
    and ns: "list_all2 (created_row sample_payload PAYMENT PAYMENT_OTP_REQUESTED CRITICAL)
      (event_channels PAYMENT_OTP_REQUESTED) ns"
    and stays: "\<forall>n \<in> set ns. status n = status_value PENDING \<and>
       (\<forall>w2. (unaided_step ?S main_providers int_of_str (nid n))\<^sup>*\<^sup>* w1 w2 \<longrightarrow>
          w_rows ?S w2 (nid n) = Some n \<and> nid n \<notin> fst ` set (w_entries ?S w2))"
    and again: "\<forall>w2. (later_step ?S main_providers int_of_str (req_idempotency_key sample_payload))\<^sup>*\<^sup>* w1 w2 \<and> redis_up ?S w2 \<longrightarrow>
       (\<exists>w3. post_notification ?S (Inr sample_payload) w2 =
          (Inr \<lparr>http_status = 409, http_body = Duplicate_of (req_idempotency_key sample_payload)\<rparr>, w3) \<and>
        w_rows ?S w3 = w_rows ?S w2)"
    by blast
  from list_all2_lengthD [OF ns] have "length ns = 1" by simp
  then obtain n where n: "ns = [n]" by (auto simp: length_Suc_conv)
  let ?r2 = "(svc_redis (w_svc w1))\<lparr>rr_up := True, rr_strings := (rr_strings (svc_redis (w_svc w1)))(''stable'' \<mapsto> ''1'')\<rparr>"
  define w2 where "w2 = w1\<lparr>w_svc := (w_svc w1)\<lparr>svc_redis := ?r2\<rparr>\<rparr>"
  have again_up: "w_rows ?S w2 = w_rows ?S w1" "w_entries ?S w2 = w_entries ?S w1" "queue_ok ?S w1 \<Longrightarrow> queue_ok ?S w2"
    "w_kv ?S w1 ?k \<noteq> None \<Longrightarrow> w_kv ?S w2 ?k \<noteq> None" "redis_up ?S w2"
    by (simp_all add: w2_def queue_entries_def queue_ok_def queue_ids_ok_def clock_ok_def redis_up_def crash_redis_def)
  have "(unaided_step ?S main_providers int_of_str (nid n))\<^sup>*\<^sup>* w1 w2"
    by (intro r_into_rtranclp unaided_step.outside) (simp_all add: again_up del: crash_redis_simps)
  moreover have "(later_step ?S main_providers int_of_str (req_idempotency_key sample_payload))\<^sup>*\<^sup>* w1 w2"
    by (rule r_into_rtranclp, rule later_step.outside [OF again_up(1)]) (rule again_up(4))
  ultimately have reached: "(unaided_step ?S main_providers int_of_str (nid n))\<^sup>*\<^sup>* w1 w2"
    "(later_step ?S main_providers int_of_str (req_idempotency_key sample_payload))\<^sup>*\<^sup>* w1 w2" by blast+
  from again [rule_format, OF conjI, OF reached(2) again_up(5)] obtain w3 where
    repeated: "post_notification ?S (Inr sample_payload) w2 =
      (Inr \<lparr>http_status = 409, http_body = Duplicate_of (req_idempotency_key sample_payload)\<rparr>, w3)" by blast
  have row: "w_rows ?S w2 (nid n) = Some n" "nid n \<notin> fst ` set (w_entries ?S w2)" "status n = status_value PENDING"
    using stays reached(1) unfolding n by simp_all
  have "map channel_status_convert ns = [channel_status_convert n]" by (simp add: n)
  note run [unfolded this]
  with row repeated again_up(5) show ?thesis by blast
qed

end
