(* ===== verification/Manual_Retry_Properties.thy ===== *)
theory Manual_Retry_Properties
  imports Controller Worker_Liveness Sample_Data
begin

text \<open>
  Manual retries against the limit of the retry policy: both count in \<open>retry_count\<close>.
\<close>

text \<open>The endpoint pressed again and again, and the responses.\<close>

primrec retry_times ::
  "('d, 'r, 'q) services \<Rightarrow> int \<Rightarrow> nat \<Rightarrow> (('d, 'r, 'q, 'p) world, response list) io"
where
  "retry_times S i 0 = io_return []"
| "retry_times S i (Suc k) =
     io_bind (retry_route S i) (\<lambda>r. io_bind (retry_times S i k) (\<lambda>rs. io_return (r # rs)))"

text \<open>The row after \<open>k\<close> of them.\<close>

definition retried :: "nat \<Rightarrow> notification \<Rightarrow> notification \<Rightarrow> bool" where
  "retried k n m \<longleftrightarrow> (\<exists>e x t. m = n\<lparr>status := status_value PENDING, retry_count := retry_count n + int k,
     error_code := e, next_retry_time := x, mtime := t\<rparr>)"

lemma retried_0: "status n = status_value PENDING \<Longrightarrow> retried 0 n n"
  unfolding retried_def
  by (rule exI [of _ "error_code n"], rule exI [of _ "next_retry_time n"], rule exI [of _ "mtime n"]) simp

lemma retried_Suc:
  "retried k m l \<Longrightarrow> m = n\<lparr>status := status_value PENDING, retry_count := retry_count n + 1,
     error_code := e, next_retry_time := x, mtime := t\<rparr> \<Longrightarrow> retried (Suc k) n l"
  by (auto simp: retried_def algebra_simps simp del: status_value.simps)

lemma row_inv_requeued:
  assumes "row_inv n" "retry_count n + 1 < 2 ^ 31"
  shows "storable (set_attrs [Status (status_value PENDING), Retry_count (retry_count n + 1),
      Error_code None, Next_retry_time None] n)"
    and "row_inv (n\<lparr>status := status_value PENDING, retry_count := retry_count n + 1, error_code := None,
      next_retry_time := None, mtime := t\<rparr>)"
proof -
  have n: "row_origin n" "row_progress n" "storable n" "0 \<le> retry_count n"
    using assms(1) row_inv_codes(4) [OF assms(1)] by (simp_all add: row_inv_def)
  let ?m = "n\<lparr>status := status_value PENDING, retry_count := retry_count n + 1, error_code := None, next_retry_time := None\<rparr>"
  show "storable (set_attrs [Status (status_value PENDING), Retry_count (retry_count n + 1),
      Error_code None, Next_retry_time None] n)"
    using n(3,4) assms(2) by (simp add: storable_def)
  moreover have "row_progress (?m\<lparr>mtime := t\<rparr>)"
    using row_progress_requeued [OF n(2)] by (simp add: row_progress_def del: status_value.simps error_value.simps)
  moreover have "row_origin (?m\<lparr>mtime := t\<rparr>)" using n(1) by (simp add: row_origin_def del: status_value.simps)
  ultimately show "row_inv (?m\<lparr>mtime := t\<rparr>)" by (simp add: row_inv_def storable_def)
qed

lemma retry_route_accepted:
  assumes laws: "services_laws S" and up: "all_up S w" and row: "w_rows S w i = Some n" "row_inv n"
    and st: "status n = status_value PENDING" and small: "retry_count n + 1 < 2 ^ 31"
  obtains r t w' m where "retry_route S i w = (Inr r, w')" "http_status r = 200" "all_up S w'"
    "m = n\<lparr>status := status_value PENDING, retry_count := retry_count n + 1, error_code := None,
      next_retry_time := None, mtime := t\<rparr>"
    "w_rows S w' = (w_rows S w)(i \<mapsto> m)" "fst ` set (w_entries S w') = insert i (fst ` set (w_entries S w))"
proof -
  have st': "status n \<noteq> status_value SENT" "status n \<noteq> status_value QUEUED" by (simp_all add: st)
  have prio: "1 \<le> priority n" "priority n \<le> 4" using row_inv_priority [OF row(2)] by simp_all
  obtain m t w' where run: "retry_notification S i w = (Inr (Some m, ''''), w')" "all_up S w'"
    "m = n\<lparr>status := status_value PENDING, retry_count := retry_count n + 1, error_code := None,
      next_retry_time := None, mtime := t\<rparr>"
    "w_rows S w' = (w_rows S w)(i \<mapsto> m)" "fst ` set (w_entries S w') = insert i (fst ` set (w_entries S w))"
    by (rule retry_notification_accepted [OF laws up row(1) prio st' row_inv_requeued(1) [OF row(2) small]])
  have "retry_route S i w = (Inr \<lparr>http_status = 200, http_body = Retried
      \<lparr>rr_id = nid m, rr_status = ''pending'', rr_retry_count = retry_count m,
       rr_message = ''Notification requeued successfully''\<rparr>\<rparr>, w')"
    using run(1) by (simp add: retry_route_def with_handlers_def io_simps)
  from that [OF this _ run(2-5)] show thesis by simp
qed

lemma retries_accepted:
  assumes laws: "services_laws S"
  shows "all_up S w \<Longrightarrow> w_rows S w i = Some n \<Longrightarrow> row_inv n \<Longrightarrow> status n = status_value PENDING \<Longrightarrow>
    retry_count n + int k < 2 ^ 31 \<Longrightarrow> fst ` set (w_entries S w) = {i} \<Longrightarrow>
    \<exists>rs m w'. retry_times S i k w = (Inr rs, w') \<and> length rs = k \<and> (\<forall>r \<in> set rs. http_status r = 200) \<and> all_up S w' \<and>
      w_rows S w' i = Some m \<and> row_inv m \<and> retried k n m \<and> fst ` set (w_entries S w') = {i}"
proof (induction k arbitrary: w n)
  case 0
  then show ?case by (auto simp: io_return_run intro: retried_0)
next
  case (Suc k)
  then have small: "retry_count n + 1 < 2 ^ 31" by simp
  obtain r t w1 m where r: "retry_route S i w = (Inr r, w1)" "http_status r = 200" and up1: "all_up S w1"
    and m: "m = n\<lparr>status := status_value PENDING, retry_count := retry_count n + 1, error_code := None,
      next_retry_time := None, mtime := t\<rparr>"
    and w1: "w_rows S w1 = (w_rows S w)(i \<mapsto> m)" "fst ` set (w_entries S w1) = insert i (fst ` set (w_entries S w))"
    by (rule retry_route_accepted [OF laws Suc.prems(1-4) small])
  have "w_rows S w1 i = Some m" "row_inv m" "status m = status_value PENDING" "retry_count m + int k < 2 ^ 31"
    "fst ` set (w_entries S w1) = {i}"
    using m w1 Suc.prems(5,6) row_inv_requeued(2) [OF Suc.prems(3) small] by simp_all
  from Suc.IH [OF up1 this] obtain rs l w' where
    "retry_times S i k w1 = (Inr rs, w')" "length rs = k" "\<forall>r \<in> set rs. http_status r = 200" "all_up S w'"
    "w_rows S w' i = Some l" "row_inv l" "retried k m l" "fst ` set (w_entries S w') = {i}" by blast
  with r retried_Suc [OF _ m] show ?case by (auto simp: io_simps)
qed

text \<open>A provider that is down or answers every attempt at a recipient with a failure.\<close>

definition always_fails :: "'p provider \<Rightarrow> notification \<Rightarrow> bool" where
  "always_fails provider n \<longleftrightarrow>
     (\<forall>s. \<exists>healthy r s'. provider_answers provider n s healthy r s' \<and> \<not> (healthy \<and> pr_success r))"

lemma always_fails_retried: "retried k n m \<Longrightarrow> always_fails provider n \<Longrightarrow> always_fails provider m"
  by (auto simp: retried_def always_fails_def provider_answers_def)

lemma failure_without_retries:
  assumes "decided (decide healthy r k) n m" "\<not> (healthy \<and> pr_success r)" "3 \<le> k"
  shows "status m = status_value FAILED" "retry_count m = retry_count n" "error_code m \<noteq> None"
  using assms by (auto simp: decide_def after_failure_def split: if_splits simp del: status_value.simps error_value.simps)

text \<open>C40. Manual retries use up the retries of the policy: the endpoint accepts them for a pending row whose id
  waits in the queue, adds no second entry, and counts each; after enough of them the first attempt
  that fails ends the notification as failed, without one automatic retry.\<close>

theorem manual_retries_use_up_the_limit:
  assumes laws: "services_laws S" and up: "all_up S w"
    and row: "w_rows S w i = Some n" "row_inv n" "nid n = i" "status n = status_value PENDING"
    and queued: "fst ` set (w_entries S w) = {i}"
    and presses: "3 \<le> retry_count n + int k" "retry_count n + int k < 2 ^ 31"
    and prov: "channel n = channel_value c" "providers c = Some provider" "provider_ok provider" "always_fails provider n"
  shows "\<exists>rs w1 m w2. retry_times S i k w = (Inr rs, w1) \<and> length rs = k \<and> (\<forall>r \<in> set rs. http_status r = 200) \<and>
    fst ` set (w_entries S w1) = {i} \<and>
    worker_turn S providers w1 = (Inr (), w2) \<and> w_entries S w2 = [] \<and>
    w_rows S w2 i = Some m \<and> status m = status_value FAILED \<and> error_code m \<noteq> None \<and>
    retry_count m = retry_count n + int k"
proof -
  from retries_accepted [OF laws up row(1,2,4) presses(2) queued] obtain rs m w1 where
    rs: "retry_times S i k w = (Inr rs, w1)" "length rs = k" "\<forall>r \<in> set rs. http_status r = 200"
    and w1: "all_up S w1" "w_rows S w1 i = Some m" "row_inv m" "retried k n m" "fst ` set (w_entries S w1) = {i}"
    by blast
  from w1(4) row(3) prov(1) have m: "nid m = i" "channel m = channel_value c" "retry_count m = retry_count n + int k"
    by (auto simp: retried_def simp del: status_value.simps channel_value.simps)
  from w1(1) have ready: "db_up S w1" "redis_ready S w1" and ids: "queue_ids_ok (srv_redis S) (w_svc w1)"
    by (simp_all add: all_up_def redis_ready_def queue_ok_def)
  obtain sc where entries: "w_entries S w1 = (i, sc) # []" by (rule only_entry [OF laws ids w1(5)])
  from always_fails_retried [OF w1(4) prov(4)] obtain healthy r p' where
    ans: "provider_answers provider m (w_prov w1) healthy r p'" "\<not> (healthy \<and> pr_success r)"
    unfolding always_fails_def by blast
  obtain l w2 where turn: "worker_turn S providers w1 = (Inr (), w2)" "w_entries S w2 = []"
    "w_rows S w2 = (w_rows S w1)(i \<mapsto> l)" "decided (decide healthy r (retry_count m)) m l"
    by (rule turn_dispatches [where providers = providers, OF laws ready entries w1(2,3) m(1,2) prov(2,3) ans(1)])
  from failure_without_retries [OF turn(4) ans(2)] presses(1) m(3)
  have "status l = status_value FAILED" "error_code l \<noteq> None" "retry_count l = retry_count n + int k" by simp_all
  with rs w1(5) turn(1-3) show ?thesis
    by (intro exI [of _ rs] exI [of _ w1] exI [of _ l] exI [of _ w2]) simp
qed

theorem manual_retries_use_up_the_limit_witness:
  "\<exists>rs w1 m w2. retry_times ref_services 1 3 one_queued = (Inr rs, w1) \<and> length rs = 3 \<and>
     worker_turn ref_services (sms_only down_provider) w1 = (Inr (), w2) \<and>
     w_rows ref_services w2 1 = Some m \<and> status m = status_value FAILED \<and> retry_count m = 3"
proof -
  let ?n = "row_with PENDING 0"
  have row: "w_rows ref_services one_queued 1 = Some ?n" "row_inv ?n" "nid ?n = 1" "status ?n = status_value PENDING"
    using row_with_inv [of PENDING 0] by (simp_all add: one_queued_def rd_table_def world_with_def)
  have queued: "fst ` set (w_entries ref_services one_queued) = {1}"
    unfolding one_queued_facts(1) by simp
  have presses: "3 \<le> retry_count ?n + int 3" "retry_count ?n + int 3 < 2 ^ 31" by simp_all
  have prov: "channel ?n = channel_value SMS" "sms_only down_provider SMS = Some down_provider"
    by (simp_all add: sms_only_def)
  have "always_fails down_provider ?n"
    unfolding always_fails_def by (metis const_providers_answer(2))
  from manual_retries_use_up_the_limit [where providers = "sms_only down_provider",
      OF ref_services_laws one_queued_facts(2) row queued presses prov const_providers_ok(2) this]
  show ?thesis by auto
qed

end
