(* ===== verification/Idempotency_Properties.thy ===== *)
theory Idempotency_Properties
  imports Key_Holding Sample_Data
begin

text \<open>
  What a creation that raised leaves behind: a client key that blocks every other attempt.
\<close>

text \<open>C16. The idempotency key is taken before anything is stored and no error path releases it: when an
  attempt raised (because the database was down, say) while Redis answers, then, whatever the service
  does and whatever happens to the servers, as long as the key does not expire every attempt under it
  that Redis answers is a duplicate and stores nothing, and a channel without a row under the key
  gets none.\<close>

theorem failed_attempt_blocks_later_ones:
  assumes laws: "services_laws S" and "redis_up S w" "create_notification S p w = (Inl e, w1)"
    and later: "(later_step S providers parse_int (req_idempotency_key p))\<^sup>*\<^sup>* w1 w2"
  shows "redis_up S w1 \<and>
    (\<forall>c. key_taken (w_rows S w2) (channel_idem_key (req_idempotency_key p) c) \<longrightarrow>
      key_taken (w_rows S w1) (channel_idem_key (req_idempotency_key p) c)) \<and>
    (redis_up S w2 \<longrightarrow> (\<forall>q. req_idempotency_key q = req_idempotency_key p \<longrightarrow>
      (\<exists>w3. create_notification S q w2 = (Inr ([], True), w3) \<and> w_rows S w3 = w_rows S w2)))"
proof -
  let ?key = "req_idempotency_key p"
  let ?cs = "{c. \<not> key_taken (w_rows S w1) (channel_idem_key ?key c)}"
  from create_notification_raise [OF assms(1-3)] have "w_kv S w1 (redis_idem_key ?key) \<noteq> None" "redis_up S w1"
    by (simp_all add: key_held_def)
  then have "blocked S ?key ?cs w1" by (simp add: blocked_def)
  from later_steps_blocked [OF laws later this] have held: "w_kv S w2 (redis_idem_key ?key) \<noteq> None"
    and missing: "\<forall>c \<in> ?cs. \<not> key_taken (w_rows S w2) (channel_idem_key ?key c)" by (simp_all add: blocked_def)
  have "\<exists>w3. create_notification S q w2 = (Inr ([], True), w3) \<and> w_rows S w3 = w_rows S w2"
    if up: "redis_up S w2" and q: "req_idempotency_key q = ?key" for q
  proof -
    from held q have "w_kv S w2 (redis_idem_key (req_idempotency_key q)) \<noteq> None" by simp
    from create_notification_duplicate [OF laws up this] obtain w3 where
      "create_notification S q w2 = (Inr ([], True), w3)" "client_frame S w2 w3" .
    then show ?thesis by (intro exI [of _ w3]) (simp add: client_frame_def)
  qed
  with missing \<open>redis_up S w1\<close> show ?thesis by blast
qed

lemma create_in_outage:
  "\<exists>w1. create_notification ref_services sample_payload db_outage = (Inl ConnectionError, w1) \<and>
     w_rows ref_services w1 = (\<lambda>_. None)"
proof -
  have "channel_args sample_payload SMS = Inr (request_args sample_payload PAYMENT PAYMENT_OTP_REQUESTED CRITICAL SMS)"
    by (rule channel_args_validated [OF sample_validated]) simp
  then show ?thesis
    using validated_as_int(4) [OF sample_validated]
    by (simp add: create_notification_def create_one_def Let_def io_bind_def io_try_def io_return_def
        io_raise_def on_client_run on_db_run repository_create_def rr_setnx_def rr_expire_def
        rd_insert_def db_outage_def ref_init_def rd_table_def fun_eq_iff)
qed

text \<open>The database comes back, and the request is repeated.\<close>

theorem failed_attempt_blocks_later_ones_witness:
  "\<exists>w1 (w2 :: ref_world) w3. create_notification ref_services sample_payload db_outage = (Inl ConnectionError, w1) \<and>
     db_up ref_services w2 \<and> w_svc w2 = w_svc w1 \<and>
     create_notification ref_services sample_payload w2 = (Inr ([], True), w3) \<and>
     w_rows ref_services w3 = (\<lambda>_. None)"
proof -
  obtain w1 where run: "create_notification ref_services sample_payload db_outage = (Inl ConnectionError, w1)"
    and rows: "w_rows ref_services w1 = (\<lambda>_. None)" using create_in_outage by blast
  let ?w2 = "w1\<lparr>w_db := (w_db w1)\<lparr>rd_up := True\<rparr>\<rparr>"
  have up: "redis_up ref_services db_outage" by (simp add: redis_up_def db_outage_def ref_init_def)
  have rows2: "w_rows ref_services ?w2 = w_rows ref_services w1" by (simp add: rd_table_def)
  have db2: "db_up ref_services ?w2" by (simp add: db_up_def)
  have "(later_step ref_services main_providers int_of_str (req_idempotency_key sample_payload))\<^sup>*\<^sup>* w1 ?w2"
    by (rule r_into_rtranclp, rule later_step.outside [OF rows2]) simp
  note holds = failed_attempt_blocks_later_ones [OF ref_services_laws up run this]
  then have "redis_up ref_services ?w2" by (simp add: redis_up_def)
  with holds obtain w3 where "create_notification ref_services sample_payload ?w2 = (Inr ([], True), w3)"
    "w_rows ref_services w3 = w_rows ref_services ?w2" by blast
  moreover from this(2) rows rows2 have "w_rows ref_services w3 = (\<lambda>_. None)" by simp
  moreover have "w_svc ?w2 = w_svc w1" by simp
  ultimately show ?thesis using run db2 by blast
qed

end
