(* ===== verification/Spec2Isabelle.thy ===== *)
theory Spec2Isabelle
  imports Notification_System Queue_Properties Creation_Properties Dispatch_Properties Delivery_Properties
    Publisher_Properties Migration Liveness_Properties Recovery_Properties Lifetime_Properties
    Topology_Properties Interleaving_Properties Http_Api_Properties Stranded_Properties
    Configuration_Properties Alembic_Env Retry_Expiry Test_Suite Parallel_Properties
    Unqueued_Properties Manual_Retry_Properties Idempotency_Properties
begin

text \<open>
  A verification development of the notification service under \<open>src/\<close>: a FastAPI service
  that turns events of the order, payment and shipping services into one notification per channel
  (email, SMS, push), stores them in PostgreSQL, queues their ids in a Redis sorted set, and lets a
  pool of workers hand them to the providers; failed sends come back through a RabbitMQ queue with a
  TTL, and exhausted ones go to a dead letter queue.

  \<^bold>\<open>How the code is modelled.\<close> The code is a set of coroutines over three servers. A
  coroutine is a function of type \<open>('s, 'a) io\<close> (\<open>Notif_Prelude\<close>), which maps a state to a
  result and the state it leaves: \<open>Inr\<close> a value, or \<open>Inl\<close> the exception that
  escapes. \<open>try\<close>, \<open>finally\<close> and loops over a list are combinators with the meaning they have in
  Python, so every exception and early return of the source is a branch of the definition.

  \<^bold>\<open>What is not under \<open>src/\<close>\<close> is a parameter (\<open>Services\<close>): records of operations for
  PostgreSQL through SQLAlchemy (\<open>pg\<close>), Redis (\<open>redis\<close>) and RabbitMQ through aio-pika
  (\<open>amqp\<close>), with the documented behaviour as laws. A law never promises that a server answers;
  that is a separate hypothesis (\<open>db_up\<close>, \<open>redis_up\<close>, \<open>amqp_up\<close>), and theorems without it
  hold whatever fails, and wherever. The clock, the random numbers and the uuids are streams of the
  \<open>host\<close>. \<open>Reference_Services\<close> has executable servers that satisfy all laws; every
  property with hypotheses is applied to them at a concrete state (the theorem with the suffix
  \<open>_witness\<close>).

  \<^bold>\<open>Theories\<close>, each a component of the code:
    \<^item> \<open>Notification_Model\<close>: the enums, the row and its columns (\<open>app/models/notification.py\<close>);
      the locale \<open>int_enum\<close> is the contract of an integer enum, interpreted for all six.
    \<^item> \<open>Channel_Map\<close>: \<open>app/event_channel_map.py\<close> and the keys of the rows.
    \<^item> \<open>Request_Schema\<close>, \<open>Response_Schema\<close>: \<open>app/schemas\<close>.
    \<^item> \<open>Repository\<close>: \<open>app/repositories/notification_repository.py\<close>, and the locales
      \<open>notification_store\<close> and \<open>available_store\<close> its clients rely on.
    \<^item> \<open>Queue_Service\<close>: \<open>app/services/queue_service.py\<close>; the locale \<open>work_queue\<close> is the
      contract of a priority queue, interpreted on the code's enqueue and dequeue.
    \<^item> \<open>Retry_Policy\<close>, \<open>Retry_Publishing\<close>, \<open>Dispatch\<close>: \<open>app/services/dispatch_service.py\<close>
      (the table of delays, the publisher of retries, one dispatch).
    \<^item> \<open>Providers\<close>: \<open>app/providers\<close>; the locale \<open>provider_contract\<close> is the docstring of
      \<open>BaseProvider\<close>, interpreted on the three mocks.
    \<^item> \<open>Lifecycle\<close>: the abstract specification of the table, the writes a notification goes
      through and the invariant they keep.
    \<^item> \<open>Notification_World\<close>: the state the handlers share.
    \<^item> \<open>Manager\<close>: \<open>app/managers/notification_manager.py\<close>.
    \<^item> \<open>Worker\<close>: \<open>app/workers/notification_worker.py\<close>.
    \<^item> \<open>Rabbit_Handler\<close>: \<open>app/handlers/rabbitmq_handler.py\<close>.
    \<^item> \<open>Controller\<close>: \<open>app/controllers\<close>, \<open>app/handlers/exception_handler.py\<close> and the routes of
      \<open>app/main.py\<close>.
    \<^item> \<open>Application\<close>: \<open>lifespan\<close> of \<open>app/main.py\<close>, the start and the stop of the process.
    \<^item> \<open>Publisher\<close>: \<open>scripts/publisher.py\<close>, the sample events and the load test.
    \<^item> \<open>Topology\<close>: a broker that records its calls and answers a given number of them, and which
      calls the consumer, the publisher of retries, the dead letter and the script make on it.
    \<^item> \<open>Http_Api\<close>: the routes FastAPI builds from \<open>app/main.py\<close> and the controllers, how a request
      finds one of them, how the body and the parameters are read (a body that cannot be read is answered
      400, one that is no JSON or no payload 422), and the whole application as one function \<open>serve\<close> from a
      request to its response.
    \<^item> \<open>Http_Effects\<close>: \<open>request_effect\<close>, the specification of what a request may do to rows, queue, keys
      and broker and with which status, and that \<open>serve\<close> implements it.
    \<^item> \<open>Configuration\<close>: \<open>app/config.py\<close> and \<open>app/database.py\<close>: the settings an environment gives, the
      size of the connection pool, the session of a request.
    \<^item> \<open>Migration\<close>: the operations of \<open>alembic/versions/0001_create_notifications_table.py\<close> and the
      table as the ORM declares it.
    \<^item> \<open>Alembic_Env\<close>: \<open>alembic/env.py\<close> as calls of an API that may raise, what the operations of the
      migration do to a schema, and the \<open>create_all\<close> of a start, with their properties.
    \<^item> \<open>Retry_Expiry\<close>: when a queue that expires at its head lets the messages of the retries go.
    \<^item> \<open>Stranding\<close>: a notification that is apart: stored as queued, in no queue and in no message; every
      handler without such a message keeps it apart.
    \<^item> \<open>Key_Holding\<close>: a client key that is taken: no handler gives it back or stores a row under it, so it
      blocks (\<open>blocked\<close>) until it expires (\<open>later_step\<close>: any step but its expiry).
    \<^item> \<open>Test_Suite\<close>: the tests of the repository, as lemmas about the definitions.
    \<^item> \<open>Worker_Liveness\<close>: what turns of a worker get done while Redis, or all services, answer.
    \<^item> \<open>Notification_System\<close>: the whole service as a step relation over requests, message
      callbacks, workers and the outside; each of them is one step.
    \<^item> \<open>Coroutine\<close>: tasks with points of suspension, and pools of tasks under any schedule; the
      locale \<open>guarantee\<close> lifts what every step of every task keeps to the pool.
    \<^item> \<open>Interleaved_Handlers\<close>: the handlers that write, again, as such tasks (\<open>co_dispatch\<close> and so
      on), each proved to be the handler when nothing runs in between.
    \<^item> \<open>Interleaving\<close>: what the steps of these tasks keep of the table, the interpretation of
      \<open>guarantee\<close> on them.
    \<^item> \<open>Ownership\<close>: a pool resumed one task at a time always ends (its continuations decrease in the
      multiset order), and the locale \<open>ownership\<close>: tasks each of which owns at most one resource and
      disturbs no other share out the resources under any schedule.
    \<^item> \<open>Parallel_Workers\<close>: turns of workers own the queue entry they took; the interpretation of
      \<open>ownership\<close> on them.

  \<^bold>\<open>Properties\<close> stand in this theory (the whole service) and in \<open>Creation_Properties\<close>,
  \<open>Dispatch_Properties\<close>, \<open>Delivery_Properties\<close>, \<open>Queue_Properties\<close>, \<open>Liveness_Properties\<close> (a request
  is sent in the end), \<open>Recovery_Properties\<close> (so is a failed attempt), \<open>Lifetime_Properties\<close>
  (starts, stops, crashes), \<open>Topology_Properties\<close> (the broker's exchanges and queues),
  \<open>Interleaving_Properties\<close> (any schedule of the tasks), \<open>Http_Api_Properties\<close> (routes, answers, the
  effects of requests), \<open>Idempotency_Properties\<close> (what a creation that raised leaves), \<open>Stranded_Properties\<close> (a dispatch that raises), \<open>Parallel_Properties\<close> (many workers
  at once), \<open>Unqueued_Properties\<close> (Redis goes down during a creation), \<open>Manual_Retry_Properties\<close> (manual
  retries against the limit of the policy), \<open>Configuration_Properties\<close>,
  \<open>Alembic_Env\<close>, \<open>Retry_Expiry\<close> and \<open>Publisher_Properties\<close>, with the concrete states of their instances in \<open>Sample_Data\<close>. The main line: every operation changes the table only by
  writes of \<open>Lifecycle\<close> (the lemmas named \<open>_life\<close>), so its invariant holds in every reachable
  state; one dispatch implements the specification \<open>decide\<close>; creation stores one row per channel of
  the event; the queue hands out least scores; and the theorems on lost and repeated notifications
  say exactly when the code loses or repeats one.

  \<^bold>\<open>Bounds and fuel.\<close> A worker's endless loop runs over the readings of its guard, a list of
  any length (\<open>worker_loop\<close>); each of its turns is total, and it takes as many as the guard allows
  (\<open>worker_loop_turns\<close>); no schedule of tasks is infinite
  (\<open>every_schedule_ends\<close>). Scores are doubles in Redis: the effect of
  \<open>zadd\<close> is assumed only for scores below \<open>2^53\<close>, and \<open>clock_ok\<close> says that the clock is before the
  year 33658, from which it follows. Integer columns hold 32 bits (\<open>storable\<close>); the results of a
  write that does not fit are not assumed.

  \<^bold>\<open>Interleaving.\<close> In \<open>Notification_System\<close> a handler runs without others at its awaits. The tasks of
  \<open>Interleaved_Handlers\<close> may be interrupted before every call of a server and every access to an
  attribute the tasks share (more often than the event loop, which switches at awaits only), so what
  holds under every schedule of them holds of the code; a committed read, a write with its commit and
  a removal from the queue are one step each, as the servers make them. A session that loads a row
  again keeps the object it has, and its commit writes only the columns whose value is not the loaded
  one (\<open>changes\<close>), so an update can leave a row half as one task wrote it and half as another: the
  invariant under any schedule is the weaker \<open>loose_progress\<close>.

  \<^bold>\<open>Not modelled.\<close> Transactions of two sessions that overlap inside one write. A process that dies
  in the middle of a handler is covered, as servers that stop answering at that point
  (\<open>Lifetime_Properties\<close> restarts it) and as a task dropped from the pool. The text
  of error messages and logging is left out. Strings are ASCII. The parser of JSON and the decoding of
  a message body belong to the standard library; a delivery carries their results. Pydantic and FastAPI
  are modelled by what the schemas declare of them. A row object that SQLAlchemy expired by a rollback
  is read as it was: a creation that meets a row of its key after it stored one is answered 500 by the
  code, and 201 here. Sleeping, printing and the command line of the script are left out. The engine and
  its pool belong to SQLAlchemy: of them the options the code passes are modelled, not who waits for a
  connection. Starlette's matching of paths and the answers 404, 405 and 307 of a router, the expiry of
  messages at the head of a queue and the DDL of PostgreSQL are written as they are documented. A row's
  time of sending is a number of the clock; that the code strips its zone is a finding only.
\<close>

section \<open>The service\<close>

text \<open>C1. Refinement: whatever a request, a message callback or a worker does in a reachable state, and
  wherever it raises, it changes the table by a sequence of writes of the life cycle.\<close>

theorem service_refines_life_cycle:
  assumes "services_laws S" "providers_ok providers" "reachable S providers w"
    and "system_step S providers w w'"
  shows "life_write\<^sup>*\<^sup>* (w_rows S w) (w_rows S w')"
proof -
  have "table_ok (w_rows S w)" using reachable_life_inv [OF assms(1-3)] by (simp add: life_inv_def)
  from system_step_life [OF assms(1,2) this assms(4)] show ?thesis by (simp add: life_steps_def)
qed

theorem service_refines_life_cycle_witness:
  "\<exists>r w tbl. post_notification ref_services (notification_create_init sample_request) ref_init = (Inr r, w) \<and>
     w_rows ref_services w \<noteq> (\<lambda>_. None) \<and> life_write (\<lambda>_. None) tbl \<and> life_write\<^sup>*\<^sup>* tbl (w_rows ref_services w)"
proof -
  have reach: "reachable ref_services main_providers ref_init" by (rule reachable.initial) simp
  obtain n w r where row: "w_rows ref_services w (nid n) = Some n"
    and post: "post_notification ref_services (notification_create_init sample_request) ref_init = (Inr r, w)"
    using sample_posted by metis
  from row have rows: "w_rows ref_services w \<noteq> (\<lambda>_. None)" by auto
  from service_refines_life_cycle [OF ref_services_laws main_providers_contract reach
      system_step.request [OF post]]
  have "life_write\<^sup>*\<^sup>* (\<lambda>_. None) (w_rows ref_services w)" by simp
  with rows obtain tbl where "life_write (\<lambda>_. None) tbl" "life_write\<^sup>*\<^sup>* tbl (w_rows ref_services w)"
    by (metis converse_rtranclpE)
  with post rows show ?thesis by blast
qed

text \<open>C2. In every reachable state a row sits under its id and holds codes of members in all its enum
  columns; a sent row has its time and the provider's id, a failed row an error, and a retrying row has
  between one and three retries and a retryable error. No row has a next retry time.\<close>

theorem reachable_rows_are_sound:
  assumes "services_laws S" "providers_ok providers" "reachable S providers w"
    and "w_rows S w i = Some n"
  shows "nid n = i \<and> recipient n \<noteq> [] \<and> source_service n \<in> range source_value \<and>
    priority n \<in> range priority_value \<and> status n \<in> range status_value \<and>
    (\<exists>ev c. event_type n = event_value ev \<and> channel n = channel_value c \<and> c \<in> set (event_channels ev)) \<and>
    (status n = status_value SENT \<longrightarrow> stime n \<noteq> None \<and> external_id n \<noteq> None) \<and>
    (status n = status_value FAILED \<longrightarrow> error_code n \<noteq> None) \<and>
    (status n = status_value RETRYING \<longrightarrow> 1 \<le> retry_count n \<and> retry_count n \<le> 3 \<and>
       (\<exists>e \<in> RETRYABLE_ERROR_CODES. error_code n = Some (error_value e))) \<and>
    next_retry_time n = None"
proof -
  from life_inv_row [OF reachable_life_inv [OF assms(1-3)] assms(4)]
  have "row_origin n" "row_progress n" "nid n = i" by (simp_all add: row_inv_def)
  then show ?thesis unfolding row_origin_def row_progress_def by blast
qed

theorem reachable_rows_are_sound_witness:
  "\<exists>n w. reachable ref_services main_providers w \<and> w_rows ref_services w (nid n) = Some n \<and>
     next_retry_time n = None"
proof -
  obtain n w where "reachable ref_services main_providers w" "w_rows ref_services w (nid n) = Some n"
    by (rule sample_posted)
  with reachable_rows_are_sound [OF ref_services_laws main_providers_contract this] show ?thesis by blast
qed

text \<open>C3. A client's key stores at most one row per channel, in every reachable state: across repeated
  requests, events and the expiry of the key in Redis.\<close>

theorem one_row_per_key_and_channel:
  assumes "services_laws S" "providers_ok providers" "reachable S providers w"
    and "w_rows S w i = Some m" "idempotency_key m = channel_idem_key key c"
    and "w_rows S w j = Some n" "idempotency_key n = channel_idem_key key' c'"
  shows "(key = key' \<and> c = c') = (i = j)"
proof -
  have ok: "table_ok (w_rows S w)" using reachable_life_inv [OF assms(1-3)] by (simp add: life_inv_def)
  from table_ok_key [OF ok assms(4,6)] assms show ?thesis by (auto simp: channel_idem_key_inj)
qed

theorem one_row_per_key_and_channel_witness:
  "\<exists>n w. reachable ref_services main_providers w \<and> w_rows ref_services w (nid n) = Some n \<and>
     (\<forall>j m. w_rows ref_services w j = Some m \<longrightarrow> idempotency_key m = channel_idem_key ''k1'' SMS \<longrightarrow> j = nid n)"
proof -
  obtain n w where n: "reachable ref_services main_providers w" "w_rows ref_services w (nid n) = Some n"
    "idempotency_key n = channel_idem_key ''k1'' SMS"
    by (rule sample_posted)
  from one_row_per_key_and_channel [OF ref_services_laws main_providers_contract n] n(1,2) show ?thesis by blast
qed

text \<open>C4. Whatever happens after a row is stored, the row stays, under its id and with its key, recipient,
  channel, priority, content and time of creation, and its retries are never taken back.\<close>

theorem rows_are_never_lost:
  assumes "services_laws S" "providers_ok providers" "reachable S providers w"
    and "(system_step S providers)\<^sup>*\<^sup>* w w'" "w_rows S w i = Some m"
  shows "\<exists>n. w_rows S w' i = Some n \<and> nid n = nid m \<and> idempotency_key n = idempotency_key m \<and>
    source_service n = source_service m \<and> event_type n = event_type m \<and> channel n = channel m \<and>
    recipient n = recipient m \<and> priority n = priority m \<and> content n = content m \<and>
    ctime n = ctime m \<and> retry_count m \<le> retry_count n"
proof -
  have "life_steps S w w'" using reachable_life_steps [OF assms(1-4)] by blast
  then show ?thesis
    using life_writes_origin [of "w_rows S w" "w_rows S w'" i m] assms(5)
    by (simp add: life_steps_def same_origin_def)
qed

theorem rows_are_never_lost_witness:
  "\<exists>n w m. reachable ref_services main_providers w \<and> w_rows ref_services w (nid n) = Some n \<and>
     w_rows ref_services (snd (worker_turn ref_services main_providers w)) (nid n) = Some m \<and>
     idempotency_key m = channel_idem_key ''k1'' SMS"
proof -
  obtain n w where n: "reachable ref_services main_providers w" "w_rows ref_services w (nid n) = Some n"
    "idempotency_key n = channel_idem_key ''k1'' SMS"
    by (rule sample_posted)
  obtain u w' where "worker_turn ref_services main_providers w = (u, w')"
    by (cases "worker_turn ref_services main_providers w")
  then have "(system_step ref_services main_providers)\<^sup>*\<^sup>* w (snd (worker_turn ref_services main_providers w))"
    by (auto intro: system_step.worker)
  from rows_are_never_lost [OF ref_services_laws main_providers_contract n(1) this n(2)] obtain m where
    "w_rows ref_services (snd (worker_turn ref_services main_providers w)) (nid n) = Some m"
    "idempotency_key m = idempotency_key n" by blast
  with n show ?thesis by (intro exI [of _ n] exI [of _ w] exI [of _ m]) simp
qed



end
